(* ===== verification/Prelude.thy ===== *)
theory Prelude
  imports Main "HOL-Library.Word"
begin

section \<open>Prelude: shared types, result combinators and table operations\<close>

text \<open>
  What every component shares.

  \<^item> Names for the types the service uses: a \<open>uuid\<close> is a 128-bit word, a point in time
    is an \<open>int\<close> (microseconds since the epoch, the resolution Postgres stores), and the text that
    \<^verbatim>\<open>format!\<close> builds from identifiers is kept as its list of fragments
    (\<open>message\<close>), because how a UUID prints is not part of this program.
  \<^item> The result combinators: \<open>tx_bind\<close> composes fallible steps on a state and forgets the
    state on the first error (a database transaction that is rolled back),
    \<open>h_bind\<close> composes fallible steps and keeps the effects made before the error (a request
    handler leaving early through \<^verbatim>\<open>?\<close>).
  \<^item> The row operations behind the SQL statements: a table is a list of rows in insertion
    order, \<^verbatim>\<open>SELECT\<close> is a filter or a find, \<^verbatim>\<open>UPDATE\<close> a map, \<^verbatim>\<open>DELETE\<close> a filter.
\<close>

named_theorems bind_simps \<open>unfolding of the result combinators on each kind of result\<close>
named_theorems pres_intros \<open>rules that an invariant is preserved by a composed operation\<close>

type_synonym uuid = "128 word"
type_synonym time = int
type_synonym bytes = "8 word list"

datatype fragment = Lit string | UuidText uuid | IntText int

type_synonym message = "fragment list"

subsection \<open>Results\<close>

definition bind_res :: "'e + 'a \<Rightarrow> ('a \<Rightarrow> 'e + 'b) \<Rightarrow> 'e + 'b" where
  "bind_res r f = (case r of Inl e \<Rightarrow> Inl e | Inr x \<Rightarrow> f x)"

definition ok_or :: "'e \<Rightarrow> 'a option \<Rightarrow> 'e + 'a" where
  "ok_or e x = (case x of None \<Rightarrow> Inl e | Some v \<Rightarrow> Inr v)"

lemma bind_res_simps [simp, bind_simps]:
  "bind_res (Inl e) f = Inl e"
  "bind_res (Inr x) f = f x"
  by (simp_all add: bind_res_def)

lemma bind_res_eq_Inr:
  "bind_res r f = Inr y \<longleftrightarrow> (\<exists>x. r = Inr x \<and> f x = Inr y)"
  by (cases r) auto

lemma ok_or_simps [simp, bind_simps]:
  "ok_or e None = Inl e"
  "ok_or e (Some v) = Inr v"
  by (simp_all add: ok_or_def)

lemma ok_or_eq_Inr [simp]: "ok_or e x = Inr v \<longleftrightarrow> x = Some v"
  by (cases x) auto

lemma ok_or_eq_Inl: "ok_or e x = Inl e' \<longleftrightarrow> x = None \<and> e' = e"
  by (cases x) auto

subsection \<open>Transactions: the state survives success only\<close>

type_synonym ('e, 's, 'a) tx = "'s \<Rightarrow> 'e + ('a \<times> 's)"

definition tx_return :: "'a \<Rightarrow> ('e, 's, 'a) tx" where
  "tx_return x s = Inr (x, s)"

definition tx_fail :: "'e \<Rightarrow> ('e, 's, 'a) tx" where
  "tx_fail e s = Inl e"

definition tx_bind ::
    "('e, 's, 'a) tx \<Rightarrow> ('a \<Rightarrow> ('e, 's, 'b) tx) \<Rightarrow> ('e, 's, 'b) tx" where
  "tx_bind m f s = (case m s of Inl e \<Rightarrow> Inl e | Inr (x, s') \<Rightarrow> f x s')"

definition tx_get :: "('s \<Rightarrow> 'a) \<Rightarrow> ('e, 's, 'a) tx" where
  "tx_get f s = Inr (f s, s)"

definition tx_lift :: "('e + 'a) \<Rightarrow> ('e, 's, 'a) tx" where
  "tx_lift r s = (case r of Inl e \<Rightarrow> Inl e | Inr x \<Rightarrow> Inr (x, s))"

lemma tx_return_apply [simp, bind_simps]: "tx_return x s = Inr (x, s)"
  by (simp add: tx_return_def)

lemma tx_fail_apply [simp, bind_simps]: "tx_fail e s = Inl e"
  by (simp add: tx_fail_def)

lemma tx_get_apply [simp, bind_simps]: "tx_get f s = Inr (f s, s)"
  by (simp add: tx_get_def)

lemma tx_lift_apply [simp, bind_simps]:
  "tx_lift (Inl e) s = Inl e"
  "tx_lift (Inr x) s = Inr (x, s)"
  by (simp_all add: tx_lift_def)

lemma tx_bind_Inl [bind_simps]: "m s = Inl e \<Longrightarrow> tx_bind m f s = Inl e"
  by (simp add: tx_bind_def)

lemma tx_bind_Inr [bind_simps]: "m s = Inr (x, s') \<Longrightarrow> tx_bind m f s = f x s'"
  by (simp add: tx_bind_def)

lemma tx_bind_eq_Inr:
  "tx_bind m f s = Inr (y, t) \<longleftrightarrow> (\<exists>x s'. m s = Inr (x, s') \<and> f x s' = Inr (y, t))"
  by (auto simp: tx_bind_def split: sum.splits)

lemma tx_bind_eq_Inl:
  "tx_bind m f s = Inl e \<longleftrightarrow>
     m s = Inl e \<or> (\<exists>x s'. m s = Inr (x, s') \<and> f x s' = Inl e)"
  by (auto simp: tx_bind_def split: sum.splits)

lemma tx_lift_eq_Inr [simp]: "tx_lift r s = Inr (x, t) \<longleftrightarrow> r = Inr x \<and> t = s"
  by (cases r) auto

lemma tx_bind_assoc: "tx_bind (tx_bind m f) g = tx_bind m (\<lambda>x. tx_bind (f x) g)"
  by (rule ext) (simp add: tx_bind_def split: sum.split prod.split)

lemma tx_bind_return: "tx_bind m tx_return = m"
  by (rule ext) (simp add: tx_bind_def tx_return_def split: sum.split prod.split)

text \<open>\<open>tx_pres P m\<close>: whenever \<open>m\<close> commits, it keeps \<open>P\<close>.\<close>

definition tx_pres :: "('s \<Rightarrow> bool) \<Rightarrow> ('e, 's, 'a) tx \<Rightarrow> bool" where
  "tx_pres P m \<longleftrightarrow> (\<forall>s x s'. P s \<longrightarrow> m s = Inr (x, s') \<longrightarrow> P s')"

lemma tx_presI:
  "(\<And>s x s'. P s \<Longrightarrow> m s = Inr (x, s') \<Longrightarrow> P s') \<Longrightarrow> tx_pres P m"
  by (auto simp: tx_pres_def)

lemma tx_presD: "tx_pres P m \<Longrightarrow> P s \<Longrightarrow> m s = Inr (x, s') \<Longrightarrow> P s'"
  by (auto simp: tx_pres_def)

lemma tx_pres_return [pres_intros]: "tx_pres P (tx_return x)"
  by (auto simp: tx_pres_def)

lemma tx_pres_Inr [pres_intros]: "tx_pres P (\<lambda>s. Inr (x, s))"
  by (auto simp: tx_pres_def)

lemma tx_pres_fail [pres_intros]: "tx_pres P (tx_fail e)"
  by (auto simp: tx_pres_def)

lemma tx_pres_get [pres_intros]: "tx_pres P (tx_get f)"
  by (auto simp: tx_pres_def)

lemma tx_pres_lift [pres_intros]: "tx_pres P (tx_lift r)"
  by (auto simp: tx_pres_def)

lemma tx_pres_bind [pres_intros]:
  "tx_pres P m \<Longrightarrow> (\<And>x. tx_pres P (f x)) \<Longrightarrow> tx_pres P (tx_bind m f)"
  unfolding tx_pres_def tx_bind_eq_Inr by blast

lemma tx_pres_if [pres_intros]:
  "(b \<Longrightarrow> tx_pres P m) \<Longrightarrow> (\<not> b \<Longrightarrow> tx_pres P n) \<Longrightarrow> tx_pres P (if b then m else n)"
  by simp

lemma tx_pres_option [pres_intros]:
  "(x = None \<Longrightarrow> tx_pres P m) \<Longrightarrow> (\<And>y. x = Some y \<Longrightarrow> tx_pres P (n y)) \<Longrightarrow>
   tx_pres P (case x of None \<Rightarrow> m | Some y \<Rightarrow> n y)"
  by (cases x) auto

subsection \<open>Handlers: effects before an error remain\<close>

type_synonym ('e, 's, 'a) handler = "'s \<Rightarrow> ('e + 'a) \<times> 's"

definition h_return :: "'a \<Rightarrow> ('e, 's, 'a) handler" where
  "h_return x s = (Inr x, s)"

definition h_fail :: "'e \<Rightarrow> ('e, 's, 'a) handler" where
  "h_fail e s = (Inl e, s)"

definition h_lift :: "('e + 'a) \<Rightarrow> ('e, 's, 'a) handler" where
  "h_lift r s = (r, s)"

definition h_get :: "('s \<Rightarrow> 'a) \<Rightarrow> ('e, 's, 'a) handler" where
  "h_get f s = (Inr (f s), s)"

definition h_modify :: "('s \<Rightarrow> 's) \<Rightarrow> ('e, 's, unit) handler" where
  "h_modify f s = (Inr (), f s)"

definition h_bind ::
    "('e, 's, 'a) handler \<Rightarrow> ('a \<Rightarrow> ('e, 's, 'b) handler) \<Rightarrow> ('e, 's, 'b) handler" where
  "h_bind m f s = (case m s of (Inl e, s') \<Rightarrow> (Inl e, s') | (Inr x, s') \<Rightarrow> f x s')"

lemma h_apply [simp, bind_simps]:
  "h_return x s = (Inr x, s)"
  "h_fail e s = (Inl e, s)"
  "h_lift r s = (r, s)"
  "h_get f s = (Inr (f s), s)"
  "h_modify g s = (Inr (), g s)"
  by (simp_all add: h_return_def h_fail_def h_lift_def h_get_def h_modify_def)

lemma h_bind_Inl [bind_simps]: "m s = (Inl e, s') \<Longrightarrow> h_bind m f s = (Inl e, s')"
  by (simp add: h_bind_def)

lemma h_bind_Inr [bind_simps]: "m s = (Inr x, s') \<Longrightarrow> h_bind m f s = f x s'"
  by (simp add: h_bind_def)

lemma h_bind_eq_Inr:
  "h_bind m f s = (Inr y, t) \<longleftrightarrow> (\<exists>x s'. m s = (Inr x, s') \<and> f x s' = (Inr y, t))"
  by (auto simp: h_bind_def split: sum.splits prod.splits)

lemma h_bind_eq_Inl:
  "h_bind m f s = (Inl e, t) \<longleftrightarrow>
     m s = (Inl e, t) \<or> (\<exists>x s'. m s = (Inr x, s') \<and> f x s' = (Inl e, t))"
  by (auto simp: h_bind_def split: sum.splits prod.splits)

text \<open>\<open>h_pres P m\<close>: the handler keeps \<open>P\<close>, whether it succeeds or fails.\<close>

definition h_pres :: "('s \<Rightarrow> bool) \<Rightarrow> ('e, 's, 'a) handler \<Rightarrow> bool" where
  "h_pres P m \<longleftrightarrow> (\<forall>s. P s \<longrightarrow> P (snd (m s)))"

lemma h_presI: "(\<And>s. P s \<Longrightarrow> P (snd (m s))) \<Longrightarrow> h_pres P m"
  by (auto simp: h_pres_def)

lemma h_presD: "h_pres P m \<Longrightarrow> P s \<Longrightarrow> P (snd (m s))"
  by (auto simp: h_pres_def)

lemma h_presD2: "h_pres P m \<Longrightarrow> P s \<Longrightarrow> m s = (r, s') \<Longrightarrow> P s'"
  by (auto simp: h_pres_def dest: spec [of _ s])

lemma h_pres_basic [pres_intros]:
  "h_pres P (h_return x)"
  "h_pres P (h_fail e)"
  "h_pres P (h_lift r)"
  "h_pres P (h_get f)"
  by (auto simp: h_pres_def)

lemma h_pres_modify: "(\<And>s. P s \<Longrightarrow> P (f s)) \<Longrightarrow> h_pres P (h_modify f)"
  by (auto simp: h_pres_def)

lemma h_pres_bind [pres_intros]:
  assumes m: "h_pres P m" and f: "\<And>x. h_pres P (f x)"
  shows "h_pres P (h_bind m f)"
proof (rule h_presI)
  fix s assume "P s"
  obtain r s' where ms: "m s = (r, s')" by fastforce
  have P': "P s'" using m \<open>P s\<close> ms by (rule h_presD2)
  show "P (snd (h_bind m f s))"
    by (cases r) (simp_all add: h_bind_def ms P' h_presD [OF f P'])
qed

lemma h_pres_if [pres_intros]:
  "(b \<Longrightarrow> h_pres P m) \<Longrightarrow> (\<not> b \<Longrightarrow> h_pres P n) \<Longrightarrow> h_pres P (if b then m else n)"
  by simp

lemma h_pres_option [pres_intros]:
  "(x = None \<Longrightarrow> h_pres P m) \<Longrightarrow> (\<And>y. x = Some y \<Longrightarrow> h_pres P (n y)) \<Longrightarrow>
   h_pres P (case x of None \<Rightarrow> m | Some y \<Rightarrow> n y)"
  by (cases x) auto

subsection \<open>Rows and tables\<close>

definition update_rows :: "('r \<Rightarrow> bool) \<Rightarrow> ('r \<Rightarrow> 'r) \<Rightarrow> 'r list \<Rightarrow> 'r list" where
  "update_rows p f t = map (\<lambda>r. if p r then f r else r) t"

definition delete_rows :: "('r \<Rightarrow> bool) \<Rightarrow> 'r list \<Rightarrow> 'r list" where
  "delete_rows p t = filter (\<lambda>r. \<not> p r) t"

definition has_key :: "('r \<Rightarrow> 'k) \<Rightarrow> 'k \<Rightarrow> 'r list \<Rightarrow> bool" where
  "has_key key k t \<longleftrightarrow> (\<exists>r \<in> set t. key r = k)"

lemma has_key_code [code]: "has_key key k t = list_ex (\<lambda>r. key r = k) t"
  by (auto simp: has_key_def list_ex_iff)

lemma has_key_simps [simp]:
  "has_key key k [] \<longleftrightarrow> False"
  "has_key key k (r # t) \<longleftrightarrow> key r = k \<or> has_key key k t"
  "has_key key k (t @ u) \<longleftrightarrow> has_key key k t \<or> has_key key k u"
  by (auto simp: has_key_def)

lemma has_key_iff_image: "has_key key k t \<longleftrightarrow> k \<in> key ` set t"
  by (auto simp: has_key_def)

lemma update_rows_simps [simp]:
  "update_rows p f [] = []"
  "update_rows p f (r # t) = (if p r then f r else r) # update_rows p f t"
  "update_rows p f (t @ u) = update_rows p f t @ update_rows p f u"
  "length (update_rows p f t) = length t"
  by (simp_all add: update_rows_def)

lemma set_update_rows:
  "set (update_rows p f t) = f ` {r \<in> set t. p r} \<union> {r \<in> set t. \<not> p r}"
  by (auto simp: update_rows_def)

lemma delete_rows_simps [simp]:
  "delete_rows p [] = []"
  "delete_rows p (r # t) = (if p r then delete_rows p t else r # delete_rows p t)"
  "delete_rows p (t @ u) = delete_rows p t @ delete_rows p u"
  by (simp_all add: delete_rows_def)

lemma set_delete_rows [simp]: "set (delete_rows p t) = {r \<in> set t. \<not> p r}"
  by (auto simp: delete_rows_def)

lemma map_key_update_rows:
  "(\<And>r. p r \<Longrightarrow> key (f r) = key r) \<Longrightarrow> map key (update_rows p f t) = map key t"
  by (induction t) auto

lemma has_key_update_rows:
  "(\<And>r. p r \<Longrightarrow> key (f r) = key r) \<Longrightarrow> has_key key k (update_rows p f t) = has_key key k t"
  by (induction t) auto

lemma distinct_delete_rows: "distinct (map key t) \<Longrightarrow> distinct (map key (delete_rows p t))"
  by (auto simp: delete_rows_def distinct_map_filter)

lemma update_rows_none: "(\<And>r. r \<in> set t \<Longrightarrow> \<not> p r) \<Longrightarrow> update_rows p f t = t"
  by (induction t) auto

lemma delete_rows_none: "(\<And>r. r \<in> set t \<Longrightarrow> \<not> p r) \<Longrightarrow> delete_rows p t = t"
  by (induction t) auto

lemma delete_rows_idem [simp]: "delete_rows p (delete_rows p t) = delete_rows p t"
  by (simp add: delete_rows_def)

lemma filter_delete_rows: "filter p (delete_rows p t) = []"
  by (simp add: delete_rows_def)

lemma filter_delete_other:
  "(\<And>r. p r \<Longrightarrow> \<not> q r) \<Longrightarrow> filter p (delete_rows q t) = filter p t"
  by (induction t) auto

lemma find_update_rows:
  assumes "\<And>r. p r \<Longrightarrow> q (f r) = q r"
  shows "List.find q (update_rows p f t) =
    map_option (\<lambda>r. if p r then f r else r) (List.find q t)"
  by (induction t) (auto simp: assms)

lemma find_key_None: "List.find (\<lambda>r. key r = k) t = None \<longleftrightarrow> \<not> has_key key k t"
  by (induction t) auto

lemma find_key_Some_distinct:
  assumes "distinct (map key t)"
  shows "List.find (\<lambda>r. key r = k) t = Some r \<longleftrightarrow> r \<in> set t \<and> key r = k"
  using assms by (induction t) (auto simp: image_iff)

lemma find_SomeD: "List.find p t = Some r \<Longrightarrow> r \<in> set t \<and> p r"
  by (induction t) (auto split: if_splits)

lemma find_append: "List.find p (t @ u) = (case List.find p t of None \<Rightarrow> List.find p u | Some r \<Rightarrow> Some r)"
  by (induction t) auto

lemma find_delete_rows:
  "(\<And>r. p r \<Longrightarrow> \<not> q r) \<Longrightarrow> List.find p (delete_rows q t) = List.find p t"
  by (induction t) auto

text \<open>A row replaced under its key (\<^verbatim>\<open>ON CONFLICT ... DO UPDATE\<close>).\<close>

lemma find_replaced_other:
  "key m = k \<Longrightarrow> j \<noteq> k \<Longrightarrow>
   List.find (\<lambda>r. key r = j) (update_rows (\<lambda>r. key r = k) (\<lambda>_. m) t) =
   List.find (\<lambda>r. key r = j) t"
  by (induction t) auto

lemma find_replaced_same:
  "key m = k \<Longrightarrow> List.find (\<lambda>r. key r = k) t = Some r \<Longrightarrow>
   List.find (\<lambda>r. key r = k) (update_rows (\<lambda>r. key r = k) (\<lambda>_. m) t) = Some m"
  by (induction t) (auto split: if_splits)

end
