(* ===== verification/Ids.thy ===== *)
theory Ids
  imports Prelude
begin

section \<open>Identifiers: pseudo ids, client ids, entity tags\<close>

text \<open>
  The newtypes of \<^verbatim>\<open>src/ids.rs\<close>. A Rust \<^verbatim>\<open>String\<close> is a byte string, so it is a list
  of \<open>char\<close>s here and \<^verbatim>\<open>s.len()\<close> is its length. \<open>pseudo_id\<close> keeps its constructor: the
  validated ways to build one are \<open>pseudo_id_new\<close> and \<open>pseudo_id_new_or_mixed\<close> (also the
  deserialiser), while a column read from the database is wrapped without validation.
  Random entity tags come from outside; only their shape is described.
\<close>

datatype pseudo_id = PseudoId (pid_str: string)

datatype pseudo_id_error = Invalid

definition MIXED_PSEUDO_ID :: string where
  "MIXED_PSEUDO_ID = ''mixed''"

definition is_lower_hex :: "char \<Rightarrow> bool" where
  "is_lower_hex c \<longleftrightarrow>
     (let b = (of_char c :: nat) in (48 \<le> b \<and> b \<le> 57) \<or> (97 \<le> b \<and> b \<le> 102))"

definition is_valid_pseudo_id :: "string \<Rightarrow> bool" where
  "is_valid_pseudo_id s \<longleftrightarrow> length s = 24 \<and> list_all is_lower_hex s"

definition pseudo_id_new :: "string \<Rightarrow> pseudo_id_error + pseudo_id" where
  "pseudo_id_new raw = (if is_valid_pseudo_id raw then Inr (PseudoId raw) else Inl Invalid)"

definition pseudo_id_new_or_mixed :: "string \<Rightarrow> pseudo_id_error + pseudo_id" where
  "pseudo_id_new_or_mixed raw =
     (if raw = MIXED_PSEUDO_ID \<or> is_valid_pseudo_id raw then Inr (PseudoId raw) else Inl Invalid)"

definition is_mixed :: "pseudo_id \<Rightarrow> bool" where
  "is_mixed p \<longleftrightarrow> pid_str p = MIXED_PSEUDO_ID"

text \<open>The JSON deserialiser, and the two directions of a database column.\<close>

definition pseudo_id_deserialize :: "string \<Rightarrow> pseudo_id_error + pseudo_id" where
  "pseudo_id_deserialize raw = pseudo_id_new_or_mixed raw"

definition pseudo_id_decode :: "string \<Rightarrow> pseudo_id" where
  "pseudo_id_decode s = PseudoId s"

definition pseudo_id_encode :: "pseudo_id \<Rightarrow> string" where
  "pseudo_id_encode p = pid_str p"

text \<open>\<^verbatim>\<open>FromStr\<close> validates, \<^verbatim>\<open>Display\<close> does not.\<close>

definition pseudo_id_from_str :: "string \<Rightarrow> pseudo_id_error + pseudo_id" where
  "pseudo_id_from_str s = pseudo_id_new s"

definition pseudo_id_display :: "pseudo_id \<Rightarrow> string" where
  "pseudo_id_display p = pid_str p"

type_synonym client_id = string

datatype etag = ETag (etag_str: string)

definition etag_display :: "etag \<Rightarrow> string" where
  "etag_display e = etag_str e"

definition etag_decode :: "string \<Rightarrow> etag" where
  "etag_decode s = ETag s"

definition etag_encode :: "etag \<Rightarrow> string" where
  "etag_encode e = etag_str e"

text \<open>
  The \<^verbatim>\<open>If-Match\<close> request header as \<^verbatim>\<open>if_match\<close> reads it (absent or not printable text is
  \<open>None\<close>) and the \<^verbatim>\<open>ETag\<close> response header of \<^verbatim>\<open>row_response\<close> and \<^verbatim>\<open>metadata_response\<close>.
\<close>

definition trim_matches :: "char \<Rightarrow> string \<Rightarrow> string" where
  "trim_matches c s = rev (dropWhile (\<lambda>x. x = c) (rev (dropWhile (\<lambda>x. x = c) s)))"

definition quote_char :: char where
  "quote_char = CHR 0x22"

definition if_match :: "string option \<Rightarrow> etag option" where
  "if_match h = map_option (\<lambda>s. ETag (trim_matches quote_char s)) h"

definition etag_header :: "etag \<Rightarrow> string" where
  "etag_header e = [quote_char] @ etag_str e @ [quote_char]"

definition etag_shape :: "etag \<Rightarrow> bool" where
  "etag_shape e \<longleftrightarrow> length (etag_str e) = 16 \<and> list_all is_lower_hex (etag_str e)"

subsection \<open>Lemmas\<close>

lemma mixed_not_valid [simp]: "\<not> is_valid_pseudo_id MIXED_PSEUDO_ID"
  by (simp add: is_valid_pseudo_id_def MIXED_PSEUDO_ID_def)

lemma pseudo_id_new_eq_Inr [simp]:
  "pseudo_id_new raw = Inr p \<longleftrightarrow> is_valid_pseudo_id raw \<and> p = PseudoId raw"
  by (auto simp: pseudo_id_new_def)

lemma pseudo_id_new_eq_Inl [simp]:
  "pseudo_id_new raw = Inl e \<longleftrightarrow> \<not> is_valid_pseudo_id raw"
  by (cases e) (auto simp: pseudo_id_new_def)

lemma pseudo_id_new_or_mixed_eq_Inr [simp]:
  "pseudo_id_new_or_mixed raw = Inr p \<longleftrightarrow>
     (raw = MIXED_PSEUDO_ID \<or> is_valid_pseudo_id raw) \<and> p = PseudoId raw"
  by (auto simp: pseudo_id_new_or_mixed_def)

lemma pseudo_id_new_or_mixed_eq_Inl [simp]:
  "pseudo_id_new_or_mixed raw = Inl e \<longleftrightarrow>
     raw \<noteq> MIXED_PSEUDO_ID \<and> \<not> is_valid_pseudo_id raw"
  by (cases e) (auto simp: pseudo_id_new_or_mixed_def)

lemma pseudo_id_column_roundtrip [simp]: "pseudo_id_decode (pseudo_id_encode p) = p"
  by (simp add: pseudo_id_decode_def pseudo_id_encode_def)

lemma etag_column_roundtrip [simp]: "etag_decode (etag_encode e) = e" "etag_encode (etag_decode s) = s"
  by (simp_all add: etag_decode_def etag_encode_def)

text \<open>Reading back what is displayed works for every id but the literal \<^verbatim>\<open>mixed\<close>.\<close>

lemma pseudo_id_display_roundtrip:
  "pseudo_id_new_or_mixed raw = Inr p \<Longrightarrow>
   pseudo_id_from_str (pseudo_id_display p) = (if is_mixed p then Inl Invalid else Inr p)"
  by (auto simp: pseudo_id_from_str_def pseudo_id_display_def is_mixed_def pseudo_id_new_def
      pseudo_id_new_or_mixed_def is_valid_pseudo_id_def MIXED_PSEUDO_ID_def split: if_splits)

lemma lower_hex_not_quote: "is_lower_hex c \<Longrightarrow> c \<noteq> quote_char"
  by (auto simp: is_lower_hex_def quote_char_def Let_def)

lemma lower_hex_not_slash: "is_lower_hex c \<Longrightarrow> c \<noteq> CHR ''/''"
  by (auto simp: is_lower_hex_def Let_def)

lemma valid_no_slash: "is_valid_pseudo_id s \<Longrightarrow> CHR ''/'' \<notin> set s"
  by (auto simp: is_valid_pseudo_id_def list_all_iff dest: lower_hex_not_slash)

lemma dropWhile_no_match: "\<forall>x \<in> set s. x \<noteq> c \<Longrightarrow> dropWhile (\<lambda>x. x = c) s = s"
  by (cases s) auto

lemma trim_matches_quoted:
  assumes "\<forall>x \<in> set s. x \<noteq> c"
  shows "trim_matches c ([c] @ s @ [c]) = s"
proof -
  have "dropWhile (\<lambda>x. x = c) (s @ [c]) = (if s = [] then [] else s @ [c])"
    using assms by (cases s) auto
  moreover have "dropWhile (\<lambda>x. x = c) (rev s) = rev s"
    using assms by (intro dropWhile_no_match) auto
  ultimately show ?thesis by (simp add: trim_matches_def)
qed

lemma if_match_header:
  assumes "list_all is_lower_hex (etag_str e)"
  shows "if_match (Some (etag_header e)) = Some e"
proof -
  have "\<forall>x \<in> set (etag_str e). x \<noteq> quote_char"
    using assms by (auto simp: list_all_iff dest: lower_hex_not_quote)
  then show ?thesis
    using trim_matches_quoted [of "etag_str e" quote_char]
    by (simp add: if_match_def etag_header_def)
qed

lemma if_match_None [simp]: "if_match None = None"
  by (simp add: if_match_def)

end
