(* ===== verification/Session_State.thy ===== *)
theory Session_State
  imports Prelude
begin

section \<open>The session state machine\<close>

text \<open>
  \<^verbatim>\<open>src/state.rs\<close>: the status of a session, its text form (database column and JSON), and
  the authoritative table \<open>can_transition\<close> of the transitions a \<^verbatim>\<open>PATCH\<close> may propose. The two
  edges outside the table (resume, delete cascade) belong to the session routes.
\<close>

datatype session_status =
    Recording
  | Uploaded
  | Transcribing
  | TranscribingFailed
  | Transcribed
  | Abandoned
  | Deleted

datatype unknown_status = UnknownStatus string

fun status_as_str :: "session_status \<Rightarrow> string" where
  "status_as_str Recording = ''recording''"
| "status_as_str Uploaded = ''uploaded''"
| "status_as_str Transcribing = ''transcribing''"
| "status_as_str TranscribingFailed = ''transcribing_failed''"
| "status_as_str Transcribed = ''transcribed''"
| "status_as_str Abandoned = ''abandoned''"
| "status_as_str Deleted = ''deleted''"

definition status_from_str :: "string \<Rightarrow> unknown_status + session_status" where
  "status_from_str s =
     (if s = ''recording'' then Inr Recording
      else if s = ''uploaded'' then Inr Uploaded
      else if s = ''transcribing'' then Inr Transcribing
      else if s = ''transcribing_failed'' then Inr TranscribingFailed
      else if s = ''transcribed'' then Inr Transcribed
      else if s = ''abandoned'' then Inr Abandoned
      else if s = ''deleted'' then Inr Deleted
      else Inl (UnknownStatus s))"

text \<open>The column: stored as its text, and an unknown text is a decoding error.\<close>

definition status_display :: "session_status \<Rightarrow> string" where
  "status_display st = status_as_str st"

definition status_encode :: "session_status \<Rightarrow> string" where
  "status_encode st = status_as_str st"

definition status_decode :: "string \<Rightarrow> unknown_status + session_status" where
  "status_decode s = status_from_str s"

fun can_transition :: "session_status \<Rightarrow> session_status \<Rightarrow> bool" where
  "can_transition Recording to_st = (to_st \<in> {Uploaded, Abandoned, Deleted})"
| "can_transition Uploaded to_st = (to_st \<in> {Transcribing, Abandoned, Deleted})"
| "can_transition Transcribing to_st =
     (to_st \<in> {Transcribing, Transcribed, TranscribingFailed, Deleted})"
| "can_transition TranscribingFailed to_st = (to_st \<in> {Transcribing, Deleted})"
| "can_transition Transcribed to_st = (to_st = Deleted)"
| "can_transition Abandoned to_st = (to_st = Deleted)"
| "can_transition Deleted to_st = False"

instantiation session_status :: enum
begin

definition enum_session_status :: "session_status list" where
  "enum_session_status =
     [Recording, Uploaded, Transcribing, TranscribingFailed, Transcribed, Abandoned, Deleted]"

definition enum_all_session_status :: "(session_status \<Rightarrow> bool) \<Rightarrow> bool" where
  "enum_all_session_status P \<longleftrightarrow> list_all P enum_class.enum"

definition enum_ex_session_status :: "(session_status \<Rightarrow> bool) \<Rightarrow> bool" where
  "enum_ex_session_status P \<longleftrightarrow> list_ex P enum_class.enum"

instance
proof
  show univ: "(UNIV :: session_status set) = set enum_class.enum"
    using session_status.exhaust by (auto simp: enum_session_status_def)
  show "distinct (enum_class.enum :: session_status list)"
    by (simp add: enum_session_status_def)
  fix P :: "session_status \<Rightarrow> bool"
  show "enum_class.enum_all P = Ball UNIV P"
    by (simp add: enum_all_session_status_def univ list_all_iff)
  show "enum_class.enum_ex P = Bex UNIV P"
    by (simp add: enum_ex_session_status_def univ list_ex_iff)
qed

end

lemma status_roundtrip [simp]: "status_from_str (status_as_str s) = Inr s"
  by (cases s) (simp_all add: status_from_str_def)

lemma status_from_str_eq_Inr:
  "status_from_str t = Inr s \<longleftrightarrow> t = status_as_str s"
proof
  assume "status_from_str t = Inr s"
  then show "t = status_as_str s"
    by (auto simp: status_from_str_def split: if_splits)
qed simp

text \<open>
  The \<^verbatim>\<open>CHECK\<close> of the column allows exactly the texts that decode, so a stored status is never
  unreadable: \<open>Schema\<close> keeps the status itself.
\<close>

definition status_check :: "string list" where
  "status_check =
     [''recording'', ''uploaded'', ''transcribing'', ''transcribing_failed'', ''transcribed'',
      ''abandoned'', ''deleted'']"

lemma status_column_roundtrip [simp]: "status_decode (status_encode st) = Inr st"
  by (simp add: status_decode_def status_encode_def)

lemma status_check_decodes: "s \<in> set status_check \<longleftrightarrow> (\<exists>st. status_decode s = Inr st)"
  by (auto simp: status_check_def status_decode_def status_from_str_def)

lemma status_from_str_eq_Inl:
  "status_from_str t = Inl e \<Longrightarrow> e = UnknownStatus t \<and> t \<notin> range status_as_str"
  using status_roundtrip by (force simp: status_from_str_def split: if_splits)

lemma status_as_str_inj: "status_as_str a = status_as_str b \<longleftrightarrow> a = b"
  by (metis status_roundtrip sum.inject(2))

subsection \<open>The shape of the table\<close>

lemma can_transition_Deleted [simp]:
  "can_transition s Deleted \<longleftrightarrow> s \<noteq> Deleted"
  by (cases s) auto

lemma can_transition_self: "can_transition s s \<longleftrightarrow> s = Transcribing"
  by (cases s) auto

lemma can_transition_not_into_Recording [simp]: "\<not> can_transition s Recording"
  by (cases s) auto

lemma can_transition_into:
  "can_transition s Uploaded \<longleftrightarrow> s = Recording"
  "can_transition s Transcribed \<longleftrightarrow> s = Transcribing"
  "can_transition s TranscribingFailed \<longleftrightarrow> s = Transcribing"
  "can_transition s Abandoned \<longleftrightarrow> s = Recording \<or> s = Uploaded"
  "can_transition s Transcribing \<longleftrightarrow>
     s = Uploaded \<or> s = Transcribing \<or> s = TranscribingFailed"
  by (cases s; simp)+

text \<open>All edges a session can take: the table, and the resume of an abandoned session.\<close>

definition session_edge :: "session_status \<Rightarrow> session_status \<Rightarrow> bool" where
  "session_edge s t \<longleftrightarrow> can_transition s t \<or> s = Abandoned \<and> t = Recording"

subsection \<open>Life cycles as an interface\<close>

text \<open>
  What the session routes rely on: a terminal state that every other state reaches in one step,
  and, for the table alone, a start state that no transition enters.
\<close>

locale terminal_state =
  fixes trans :: "'s \<Rightarrow> 's \<Rightarrow> bool"
    and final :: 's
  assumes final_stuck: "\<not> trans final s"
    and to_final: "s \<noteq> final \<Longrightarrow> trans s final"
begin

lemma final_iff_stuck: "s = final \<longleftrightarrow> (\<forall>t. \<not> trans s t)"
  using final_stuck to_final by blast

lemma path_from_final: "trans\<^sup>*\<^sup>* final s \<Longrightarrow> s = final"
  by (erule converse_rtranclpE) (auto simp: final_stuck)

lemma path_to_final: "trans\<^sup>*\<^sup>* s final"
  using to_final by (cases "s = final") auto

end

locale lifecycle = terminal_state trans final
  for trans :: "'s \<Rightarrow> 's \<Rightarrow> bool" and final :: 's +
  fixes start :: 's
  assumes start_not_entered: "\<not> trans s start"
    and start_neq_final: "start \<noteq> final"
begin

lemma path_into_start: "trans\<^sup>*\<^sup>* s start \<Longrightarrow> s = start"
  by (erule rtranclp.cases) (auto simp: start_not_entered)

end

interpretation session_lc: lifecycle can_transition Deleted Recording
  by unfold_locales simp_all

interpretation session_edges: terminal_state session_edge Deleted
  by unfold_locales (simp_all add: session_edge_def)

text \<open>A finished transcription is only ever deleted.\<close>

lemma session_edge_Transcribed: "session_edge Transcribed t \<longleftrightarrow> t = Deleted"
  by (simp add: session_edge_def)

lemma path_from_Transcribed: "session_edge\<^sup>*\<^sup>* Transcribed t \<Longrightarrow> t = Transcribed \<or> t = Deleted"
  by (erule converse_rtranclpE) (auto simp: session_edge_Transcribed dest: session_edges.path_from_final)

end
