(* ===== verification/Ordered_Map.thy ===== *)
theory Ordered_Map
  imports Prelude
begin

section \<open>Ordered maps\<close>

text \<open>
  Rust's \<^verbatim>\<open>BTreeMap\<close> (and serde's JSON object, which is one) as an association list with
  strictly increasing keys: iteration is the list itself, lookup is \<open>map_of\<close>, and two maps with
  the same lookups are equal.
\<close>

fun bmap_insert :: "'k::linorder \<Rightarrow> 'v \<Rightarrow> ('k \<times> 'v) list \<Rightarrow> ('k \<times> 'v) list" where
  "bmap_insert k v [] = [(k, v)]"
| "bmap_insert k v ((k', v') # m) =
     (if k = k' then (k, v) # m
      else if k < k' then (k, v) # (k', v') # m
      else (k', v') # bmap_insert k v m)"

fun bmap_extend :: "('k::linorder \<times> 'v) list \<Rightarrow> ('k \<times> 'v) list \<Rightarrow> ('k \<times> 'v) list" where
  "bmap_extend base [] = base"
| "bmap_extend base ((k, v) # kvs) = bmap_extend (bmap_insert k v base) kvs"

definition bmap_wf :: "('k::linorder \<times> 'v) list \<Rightarrow> bool" where
  "bmap_wf m \<longleftrightarrow> sorted_wrt (<) (map fst m)"

lemma map_of_bmap_insert: "map_of (bmap_insert k v m) = (map_of m)(k \<mapsto> v)"
proof (induction m)
  case Nil
  then show ?case by simp
next
  case (Cons p m)
  obtain k' v' where "p = (k', v')" by (cases p)
  with Cons show ?case by (auto simp: fun_eq_iff)
qed

lemma keys_bmap_insert: "fst ` set (bmap_insert k v m) = insert k (fst ` set m)"
  by (induction k v m rule: bmap_insert.induct) auto

lemma bmap_wf_insert: "bmap_wf m \<Longrightarrow> bmap_wf (bmap_insert k v m)"
proof (induction k v m rule: bmap_insert.induct)
  case (1 k v)
  then show ?case by (simp add: bmap_wf_def)
next
  case (2 k v k' v' m)
  have keys: "\<forall>x \<in> fst ` set (bmap_insert k v m). k' < x" if "k' < k"
    using 2(2) that by (auto simp: keys_bmap_insert bmap_wf_def)
  show ?case
  proof (cases "k = k' \<or> k < k'")
    case True
    with 2(2) show ?thesis by (auto simp: bmap_wf_def dest: less_trans)
  next
    case False
    then have "k' < k" by auto
    with 2 keys show ?thesis by (auto simp: bmap_wf_def)
  qed
qed

lemma map_of_bmap_extend:
  "distinct (map fst kvs) \<Longrightarrow> map_of (bmap_extend base kvs) = map_of base ++ map_of kvs"
proof (induction base kvs rule: bmap_extend.induct)
  case (1 base)
  then show ?case by simp
next
  case (2 base k v kvs)
  then have "k \<notin> dom (map_of kvs)" by (simp add: dom_map_of_conv_image_fst)
  then have "map_of (bmap_insert k v base) ++ map_of kvs = map_of base ++ map_of ((k, v) # kvs)"
    by (auto simp: map_of_bmap_insert fun_eq_iff map_add_def dom_def split: option.splits)
  moreover have "map_of (bmap_extend (bmap_insert k v base) kvs) =
      map_of (bmap_insert k v base) ++ map_of kvs"
    using 2 by simp
  ultimately show ?case by (simp only: bmap_extend.simps)
qed

lemma bmap_wf_extend: "bmap_wf base \<Longrightarrow> bmap_wf (bmap_extend base kvs)"
  by (induction base kvs rule: bmap_extend.induct) (auto simp: bmap_wf_insert)

lemma bmap_wf_distinct: "bmap_wf m \<Longrightarrow> distinct (map fst m)"
  by (simp add: bmap_wf_def strict_sorted_iff)

lemma bmap_wf_Nil [simp]: "bmap_wf []"
  by (simp add: bmap_wf_def)

lemma alist_from_map:
  "distinct (map fst m) \<Longrightarrow> m = map (\<lambda>k. (k, the (map_of m k))) (map fst m)"
proof (induction m)
  case Nil
  then show ?case by simp
next
  case (Cons p m)
  obtain a b where p: "p = (a, b)" by (cases p)
  have "the (map_of (p # m) x) = the (map_of m x)" if "x \<in> set (map fst m)" for x
    using Cons.prems that by (auto simp: p)
  then have "map (\<lambda>k. (k, the (map_of (p # m) k))) (map fst m) =
        map (\<lambda>k. (k, the (map_of m k))) (map fst m)"
    by (intro map_cong) simp_all
  with Cons show ?case by (simp add: p)
qed

lemma bmap_wf_eqI:
  assumes "bmap_wf m" and "bmap_wf n" and "map_of m = map_of n"
  shows "m = n"
proof -
  have "fst ` set m = fst ` set n"
    using assms(3) by (metis dom_map_of_conv_image_fst)
  then have keys: "map fst m = map fst n"
    using assms(1,2) strict_sorted_equal [of "map fst n" "map fst m"]
    by (simp add: bmap_wf_def)
  have "m = map (\<lambda>k. (k, the (map_of m k))) (map fst m)"
    using assms(1) by (intro alist_from_map bmap_wf_distinct)
  also have "\<dots> = n"
    unfolding keys assms(3)
    using assms(2) by (intro alist_from_map [symmetric] bmap_wf_distinct)
  finally show ?thesis .
qed

end
