(* ===== verification/Json.thy ===== *)
theory Json
  imports Ordered_Map "HOL-Library.List_Lexorder" "HOL-Library.Char_ord"
begin

section \<open>JSON values\<close>

text \<open>
  \<^verbatim>\<open>serde_json::Value\<close> as the service uses it. An object is serde's ordered map: an
  association list whose keys are strictly increasing (byte order), so that equal objects are
  equal values. Text that the service formats out of identifiers (\<open>JText\<close>) and serialised
  points in time (\<open>JTime\<close>) stay symbolic; both are strings on the wire. A float is the bit
  pattern of an \<^verbatim>\<open>f64\<close>: it is only ever copied.
\<close>

type_synonym f64 = "64 word"

datatype json =
    JNull
  | JBool bool
  | JInt int
  | JFloat f64
  | JStr string
  | JText message
  | JTime time
  | JArr "json list"
  | JObj "(string \<times> json) list"

type_synonym json_map = "(string \<times> json) list"

definition JUuid :: "uuid \<Rightarrow> json" where
  "JUuid u = JText [UuidText u]"

definition json_opt :: "('a \<Rightarrow> json) \<Rightarrow> 'a option \<Rightarrow> json" where
  "json_opt f x = (case x of None \<Rightarrow> JNull | Some v \<Rightarrow> f v)"

text \<open>The loop \<^verbatim>\<open>for (k, v) in patch { base.insert(k, v) }\<close>.\<close>

definition obj_extend :: "json_map \<Rightarrow> json_map \<Rightarrow> json_map" where
  "obj_extend base kvs = bmap_extend base kvs"

definition jobject :: "(string \<times> json) list \<Rightarrow> json" where
  "jobject kvs = JObj (obj_extend [] kvs)"

lemma map_of_obj_extend:
  "distinct (map fst kvs) \<Longrightarrow> map_of (obj_extend base kvs) = map_of base ++ map_of kvs"
  by (simp add: obj_extend_def map_of_bmap_extend)

lemma obj_wf_extend: "bmap_wf base \<Longrightarrow> bmap_wf (obj_extend base kvs)"
  by (simp add: obj_extend_def bmap_wf_extend)

text \<open>Objects built by the service and by a merge are well formed, at the top level.\<close>

fun json_obj_wf :: "json \<Rightarrow> bool" where
  "json_obj_wf (JObj m) = bmap_wf m"
| "json_obj_wf _ = True"

lemma jobject_wf: "json_obj_wf (jobject kvs)"
  by (simp add: jobject_def obj_wf_extend)

end
