(* ===== verification/Errors.thy ===== *)
theory Errors
  imports Ids Session_State Json
begin

section \<open>Application errors and their HTTP responses\<close>

text \<open>
  \<^verbatim>\<open>src/error.rs\<close>. A failed SQL statement is \<open>Database\<close> of what the database reports; the
  constraint names are not part of the response. \<open>app_error_response\<close> is
  \<^verbatim>\<open>IntoResponse for AppError\<close>: status code and JSON body.
\<close>

datatype db_error =
    Unique_violation string
  | Foreign_key_violation string
  | Check_violation string
  | Numeric_out_of_range
  | Cardinality_violation
  | Invalid_limit
  | Row_not_found
  | Undefined_column string
  | Interval_out_of_range

datatype app_error =
    NotFound message
  | BadRequest message
  | Unauthorized message
  | Forbidden message
  | Conflict message
  | Gone message
  | PayloadTooLarge message
  | PreconditionFailed etag
  | MissingHeader string
  | InvalidPseudoId
  | IllegalTransition string string
  | Database db_error
  | S3 message bool
  | Serde message
  | Internal message

type_synonym 'a res = "app_error + 'a"

record response =
  resp_status :: nat
  resp_body :: json

definition app_error_s3 :: "message \<Rightarrow> app_error" where
  "app_error_s3 msg = S3 msg True"

definition error_body :: "message \<Rightarrow> json" where
  "error_body m = jobject [(''error'', JText m)]"

fun app_error_response :: "app_error \<Rightarrow> response" where
  "app_error_response (NotFound m) = \<lparr>resp_status = 404, resp_body = error_body m\<rparr>"
| "app_error_response (BadRequest m) = \<lparr>resp_status = 400, resp_body = error_body m\<rparr>"
| "app_error_response (Unauthorized m) = \<lparr>resp_status = 401, resp_body = error_body m\<rparr>"
| "app_error_response (Forbidden m) = \<lparr>resp_status = 403, resp_body = error_body m\<rparr>"
| "app_error_response (Conflict m) = \<lparr>resp_status = 409, resp_body = error_body m\<rparr>"
| "app_error_response (Gone m) = \<lparr>resp_status = 410, resp_body = error_body m\<rparr>"
| "app_error_response (PayloadTooLarge m) = \<lparr>resp_status = 413, resp_body = error_body m\<rparr>"
| "app_error_response (PreconditionFailed current_etag) =
     \<lparr>resp_status = 412,
      resp_body = jobject [(''error'', JText [Lit ''if-match precondition failed'']),
                           (''current_etag'', JStr (etag_str current_etag))]\<rparr>"
| "app_error_response (MissingHeader h) =
     \<lparr>resp_status = 400, resp_body = error_body [Lit ''missing required header: '', Lit h]\<rparr>"
| "app_error_response InvalidPseudoId =
     \<lparr>resp_status = 400,
      resp_body = error_body [Lit ''invalid pseudo_id format: expected 24 hex chars'']\<rparr>"
| "app_error_response (IllegalTransition from_st to_st) =
     \<lparr>resp_status = 409,
      resp_body = error_body [Lit ''illegal transition: '', Lit from_st, Lit '' -> '', Lit to_st]\<rparr>"
| "app_error_response (Database e) =
     \<lparr>resp_status = 500, resp_body = error_body [Lit ''database error'']\<rparr>"
| "app_error_response (S3 reason retryable) =
     \<lparr>resp_status = 502,
      resp_body = jobject [(''error'', JText (Lit ''s3: '' # reason)),
                           (''retryable'', JBool retryable)]\<rparr>"
| "app_error_response (Serde m) =
     \<lparr>resp_status = 400, resp_body = error_body (Lit ''invalid json: '' # m)\<rparr>"
| "app_error_response (Internal m) =
     \<lparr>resp_status = 500, resp_body = error_body [Lit ''internal error'']\<rparr>"

text \<open>The conversions that \<^verbatim>\<open>?\<close> applies.\<close>

definition from_pseudo_id_error :: "pseudo_id_error + 'a \<Rightarrow> 'a res" where
  "from_pseudo_id_error r = (case r of Inl _ \<Rightarrow> Inl InvalidPseudoId | Inr x \<Rightarrow> Inr x)"

definition from_unknown_status :: "unknown_status + 'a \<Rightarrow> 'a res" where
  "from_unknown_status r =
     (case r of Inl (UnknownStatus s) \<Rightarrow> Inl (BadRequest [Lit ''unknown status: '', Lit s])
      | Inr x \<Rightarrow> Inr x)"

definition from_serde_error :: "message + 'a \<Rightarrow> 'a res" where
  "from_serde_error r = (case r of Inl m \<Rightarrow> Inl (Serde m) | Inr x \<Rightarrow> Inr x)"

lemma from_pseudo_id_error_eq_Inr [simp]:
  "from_pseudo_id_error r = Inr x \<longleftrightarrow> r = Inr x"
  by (auto simp: from_pseudo_id_error_def split: sum.splits)

lemma from_pseudo_id_error_simps [simp, bind_simps]:
  "from_pseudo_id_error (Inl e) = Inl InvalidPseudoId"
  "from_pseudo_id_error (Inr x) = Inr x"
  by (simp_all add: from_pseudo_id_error_def)

lemma from_unknown_status_eq_Inr [simp]:
  "from_unknown_status r = Inr x \<longleftrightarrow> r = Inr x"
  by (auto simp: from_unknown_status_def split: sum.splits unknown_status.splits)

text \<open>Every error has a 4xx or 5xx status and a JSON object with an \<^verbatim>\<open>error\<close> key.\<close>

definition client_error :: "app_error \<Rightarrow> bool" where
  "client_error e \<longleftrightarrow> resp_status (app_error_response e) < 500"

lemma app_error_status_range:
  "400 \<le> resp_status (app_error_response e) \<and> resp_status (app_error_response e) < 600"
  by (cases e) auto

lemma client_error_iff:
  "client_error e \<longleftrightarrow> (case e of Database _ \<Rightarrow> False | S3 _ _ \<Rightarrow> False | Internal _ \<Rightarrow> False | _ \<Rightarrow> True)"
  by (cases e) (simp_all add: client_error_def)

lemma error_key_present:
  "\<exists>m. resp_body (app_error_response e) = JObj m \<and> map_of m ''error'' \<noteq> None"
  by (cases e) (auto simp: error_body_def jobject_def obj_extend_def)

end
