(* ===== verification/Events.thy ===== *)
theory Events
  imports Ids Session_State
begin

section \<open>Events on the broadcast bus\<close>

text \<open>
  \<^verbatim>\<open>src/events.rs\<close>: the fourteen events with their payloads, the projections the WebSocket
  filter reads, and the stable wire name.
\<close>

record session_state_changed =
  ssc_session_id :: uuid
  ssc_guild_id :: int
  ssc_old :: session_status
  ssc_new :: session_status

record chunk_uploaded =
  cu_session_id :: uuid
  cu_guild_id :: int
  cu_pseudo_id :: pseudo_id
  cu_seq :: int
  cu_size_bytes :: int

record resource_ref =
  rr_session_id :: uuid
  rr_guild_id :: int
  rr_id :: uuid

record mute_range_ref =
  mr_session_id :: uuid
  mr_guild_id :: int
  mr_pseudo_id :: pseudo_id
  mr_range_id :: uuid

record audio_deleted =
  ad_session_id :: uuid
  ad_guild_id :: int
  ad_pseudo_id :: pseudo_id

datatype event =
    SessionStateChanged time session_state_changed
  | ChunkUploaded time chunk_uploaded
  | SegmentCreated time resource_ref
  | SegmentUpdated time resource_ref
  | SegmentDeleted time resource_ref
  | BeatCreated time resource_ref
  | BeatUpdated time resource_ref
  | BeatDeleted time resource_ref
  | SceneCreated time resource_ref
  | SceneUpdated time resource_ref
  | SceneDeleted time resource_ref
  | MuteRangeCreated time mute_range_ref
  | MuteRangeDeleted time mute_range_ref
  | AudioDeleted time audio_deleted

fun event_session_id :: "event \<Rightarrow> uuid" where
  "event_session_id (SessionStateChanged _ d) = ssc_session_id d"
| "event_session_id (ChunkUploaded _ d) = cu_session_id d"
| "event_session_id (SegmentCreated _ d) = rr_session_id d"
| "event_session_id (SegmentUpdated _ d) = rr_session_id d"
| "event_session_id (SegmentDeleted _ d) = rr_session_id d"
| "event_session_id (BeatCreated _ d) = rr_session_id d"
| "event_session_id (BeatUpdated _ d) = rr_session_id d"
| "event_session_id (BeatDeleted _ d) = rr_session_id d"
| "event_session_id (SceneCreated _ d) = rr_session_id d"
| "event_session_id (SceneUpdated _ d) = rr_session_id d"
| "event_session_id (SceneDeleted _ d) = rr_session_id d"
| "event_session_id (MuteRangeCreated _ d) = mr_session_id d"
| "event_session_id (MuteRangeDeleted _ d) = mr_session_id d"
| "event_session_id (AudioDeleted _ d) = ad_session_id d"

fun event_guild_id :: "event \<Rightarrow> int" where
  "event_guild_id (SessionStateChanged _ d) = ssc_guild_id d"
| "event_guild_id (ChunkUploaded _ d) = cu_guild_id d"
| "event_guild_id (SegmentCreated _ d) = rr_guild_id d"
| "event_guild_id (SegmentUpdated _ d) = rr_guild_id d"
| "event_guild_id (SegmentDeleted _ d) = rr_guild_id d"
| "event_guild_id (BeatCreated _ d) = rr_guild_id d"
| "event_guild_id (BeatUpdated _ d) = rr_guild_id d"
| "event_guild_id (BeatDeleted _ d) = rr_guild_id d"
| "event_guild_id (SceneCreated _ d) = rr_guild_id d"
| "event_guild_id (SceneUpdated _ d) = rr_guild_id d"
| "event_guild_id (SceneDeleted _ d) = rr_guild_id d"
| "event_guild_id (MuteRangeCreated _ d) = mr_guild_id d"
| "event_guild_id (MuteRangeDeleted _ d) = mr_guild_id d"
| "event_guild_id (AudioDeleted _ d) = ad_guild_id d"

fun event_name :: "event \<Rightarrow> string" where
  "event_name (SessionStateChanged _ _) = ''session_state_changed''"
| "event_name (ChunkUploaded _ _) = ''chunk_uploaded''"
| "event_name (SegmentCreated _ _) = ''segment_created''"
| "event_name (SegmentUpdated _ _) = ''segment_updated''"
| "event_name (SegmentDeleted _ _) = ''segment_deleted''"
| "event_name (BeatCreated _ _) = ''beat_created''"
| "event_name (BeatUpdated _ _) = ''beat_updated''"
| "event_name (BeatDeleted _ _) = ''beat_deleted''"
| "event_name (SceneCreated _ _) = ''scene_created''"
| "event_name (SceneUpdated _ _) = ''scene_updated''"
| "event_name (SceneDeleted _ _) = ''scene_deleted''"
| "event_name (MuteRangeCreated _ _) = ''mute_range_created''"
| "event_name (MuteRangeDeleted _ _) = ''mute_range_deleted''"
| "event_name (AudioDeleted _ _) = ''audio_deleted''"

end
