(* ===== verification/Schema.thy ===== *)
theory Schema
  imports Errors
begin

section \<open>The database: rows, tables and integrity constraints\<close>

text \<open>
  The row structs of \<^verbatim>\<open>src/db/*.rs\<close> and the tables of \<^verbatim>\<open>migrations/*.sql\<close> that store them. Each
  table is the list of its rows; \<open>database\<close> is the record of the tables. A statement that
  breaks a constraint fails with the database's error; \<open>db_wf\<close> states the constraints: primary
  keys, unique keys, foreign keys and checks.
\<close>

record user =
  usr_pseudo_id :: pseudo_id
  usr_is_admin :: bool
  usr_data_wiped_at :: "time option"
  usr_created_at :: time

record display_name =
  dn_pseudo_id :: pseudo_id
  dn_display_name :: string
  dn_first_seen_at :: time
  dn_last_seen_at :: time
  dn_seen_count :: int
  dn_source :: string

record session =
  ses_id :: uuid
  ses_guild_id :: int
  ses_started_at :: time
  ses_ended_at :: "time option"
  ses_abandoned_at :: "time option"
  ses_deleted_at :: "time option"
  ses_game_system :: "string option"
  ses_campaign_name :: "string option"
  ses_participant_count :: "int option"
  ses_s3_prefix :: string
  ses_status :: session_status
  ses_created_at :: time

record participant =
  par_id :: uuid
  par_session_id :: uuid
  par_pseudo_id :: pseudo_id
  par_consent_scope :: "string option"
  par_consented_at :: "time option"
  par_mid_session_join :: bool
  par_no_llm_training :: bool
  par_no_public_release :: bool
  par_data_wiped_at :: "time option"
  par_created_at :: time

record metadata_blob =
  md_session_id :: uuid
  md_blob :: json
  md_etag :: etag
  md_updated_at :: time

record chunk_row =
  ch_session_id :: uuid
  ch_pseudo_id :: pseudo_id
  ch_seq :: int
  ch_s3_key :: string
  ch_size_bytes :: int
  ch_capture_started_at :: time
  ch_duration_ms :: int
  ch_client_chunk_id :: string
  ch_created_at :: time

text \<open>
  A stored row of \<^verbatim>\<open>session_segments\<close>, \<^verbatim>\<open>session_beats\<close> or \<^verbatim>\<open>session_scenes\<close>: the columns
  the three tables share, and the natural columns of its kind of table.
\<close>

datatype natural_columns =
    SegmentColumns "string option" string "f64 option" \<comment> \<open>pseudo id, text, confidence\<close>
  | TitleSummaryColumns string string \<comment> \<open>title, summary\<close>

record pg_row =
  pg_id :: uuid
  pg_session_id :: uuid
  pg_client_id :: string
  pg_start_ms :: int
  pg_end_ms :: int
  pg_natural :: natural_columns
  pg_flags :: json
  pg_original :: "json option"
  pg_etag :: string
  pg_author_service :: string
  pg_author_user_pseudo_id :: "string option"
  pg_created_at :: time
  pg_updated_at :: time

record mute_range =
  mu_id :: uuid
  mu_session_id :: uuid
  mu_pseudo_id :: pseudo_id
  mu_start_offset_ms :: int
  mu_end_offset_ms :: int
  mu_reason :: "string option"
  mu_created_at :: time

record audit_row =
  au_id :: uuid
  au_at_ts :: time
  au_actor_service :: string
  au_actor_pseudo :: "string option"
  au_session_id :: "uuid option"
  au_resource_type :: string
  au_resource_id :: message
  au_action :: string
  au_detail :: "json option"

record service_session =
  sv_id :: uuid
  sv_service_name :: string
  sv_token_hash :: string
  sv_created_at :: time
  sv_last_seen_at :: time

record consent_token =
  ct_token :: uuid
  ct_session_id :: uuid
  ct_participant_id :: uuid
  ct_pseudo_id :: pseudo_id
  ct_created_at :: time
  ct_expires_at :: time
  ct_revoked_at :: "time option"

record database =
  t_users :: "user list"
  t_display_names :: "display_name list"
  t_sessions :: "session list"
  t_participants :: "participant list"
  t_metadata :: "metadata_blob list"
  t_chunks :: "chunk_row list"
  t_segments :: "pg_row list"
  t_beats :: "pg_row list"
  t_scenes :: "pg_row list"
  t_mute_ranges :: "mute_range list"
  t_audit_log :: "audit_row list"
  t_service_sessions :: "service_session list"
  t_consent_tokens :: "consent_token list"

type_synonym 'a dbop = "(app_error, database, 'a) tx"

definition empty_db :: database where
  "empty_db = \<lparr>t_users = [], t_display_names = [], t_sessions = [], t_participants = [],
     t_metadata = [], t_chunks = [], t_segments = [], t_beats = [], t_scenes = [],
     t_mute_ranges = [], t_audit_log = [], t_service_sessions = [], t_consent_tokens = []\<rparr>"

text \<open>A failed statement: the error the handler receives.\<close>

abbreviation db_fail :: "db_error \<Rightarrow> app_error + 'a" where
  "db_fail e \<equiv> Inl (Database e)"

text \<open>The range of an \<^verbatim>\<open>INTEGER\<close> column; arithmetic beyond it is an error in Postgres.\<close>

definition in_int4 :: "int \<Rightarrow> bool" where
  "in_int4 n \<longleftrightarrow> - (2 ^ 31) \<le> n \<and> n < 2 ^ 31"

definition in_int8 :: "int \<Rightarrow> bool" where
  "in_int8 n \<longleftrightarrow> - (2 ^ 63) \<le> n \<and> n < 2 ^ 63"

subsection \<open>Constraints\<close>

definition valid_pid :: "pseudo_id \<Rightarrow> bool" where
  "valid_pid p \<longleftrightarrow> is_valid_pseudo_id (pid_str p)"

definition chunk_pid_ok :: "pseudo_id \<Rightarrow> bool" where
  "chunk_pid_ok p \<longleftrightarrow> pid_str p = MIXED_PSEUDO_ID \<or> is_valid_pseudo_id (pid_str p)"

definition display_source_ok :: "string \<Rightarrow> bool" where
  "display_source_ok s \<longleftrightarrow> s = ''bot'' \<or> s = ''portal_override''"

definition consent_scope_ok :: "string \<Rightarrow> bool" where
  "consent_scope_ok s \<longleftrightarrow> s = ''full'' \<or> s = ''decline'' \<or> s = ''timed_out''"

definition author_ok :: "string option \<Rightarrow> bool" where
  "author_ok a \<longleftrightarrow> (case a of None \<Rightarrow> True | Some s \<Rightarrow> is_valid_pseudo_id s)"

definition chunk_stream :: "chunk_row \<Rightarrow> uuid \<times> pseudo_id" where
  "chunk_stream c = (ch_session_id c, ch_pseudo_id c)"

definition chunk_seq_key :: "chunk_row \<Rightarrow> uuid \<times> pseudo_id \<times> int" where
  "chunk_seq_key c = (ch_session_id c, ch_pseudo_id c, ch_seq c)"

definition chunk_client_key :: "chunk_row \<Rightarrow> uuid \<times> pseudo_id \<times> string" where
  "chunk_client_key c = (ch_session_id c, ch_pseudo_id c, ch_client_chunk_id c)"

definition pg_client_key :: "pg_row \<Rightarrow> uuid \<times> string" where
  "pg_client_key r = (pg_session_id r, pg_client_id r)"

definition par_unique_key :: "participant \<Rightarrow> uuid \<times> pseudo_id" where
  "par_unique_key p = (par_session_id p, par_pseudo_id p)"

definition dn_key :: "display_name \<Rightarrow> pseudo_id \<times> string" where
  "dn_key n = (dn_pseudo_id n, dn_display_name n)"

definition users_wf :: "user list \<Rightarrow> bool" where
  "users_wf us \<longleftrightarrow> distinct (map usr_pseudo_id us) \<and> (\<forall>u \<in> set us. valid_pid (usr_pseudo_id u))"

definition display_names_wf :: "user list \<Rightarrow> display_name list \<Rightarrow> bool" where
  "display_names_wf us ns \<longleftrightarrow> distinct (map dn_key ns) \<and>
     (\<forall>n \<in> set ns. has_key usr_pseudo_id (dn_pseudo_id n) us \<and> display_source_ok (dn_source n))"

definition sessions_wf :: "session list \<Rightarrow> bool" where
  "sessions_wf ss \<longleftrightarrow> distinct (map ses_id ss)"

definition participants_wf :: "user list \<Rightarrow> session list \<Rightarrow> participant list \<Rightarrow> bool" where
  "participants_wf us ss ps \<longleftrightarrow> distinct (map par_id ps) \<and> distinct (map par_unique_key ps) \<and>
     (\<forall>p \<in> set ps. has_key ses_id (par_session_id p) ss \<and>
        has_key usr_pseudo_id (par_pseudo_id p) us \<and> valid_pid (par_pseudo_id p) \<and>
        (case par_consent_scope p of None \<Rightarrow> True | Some s \<Rightarrow> consent_scope_ok s))"

definition metadata_wf :: "session list \<Rightarrow> metadata_blob list \<Rightarrow> bool" where
  "metadata_wf ss ms \<longleftrightarrow> distinct (map md_session_id ms) \<and>
     (\<forall>m \<in> set ms. has_key ses_id (md_session_id m) ss)"

definition chunks_wf :: "session list \<Rightarrow> chunk_row list \<Rightarrow> bool" where
  "chunks_wf ss cs \<longleftrightarrow> distinct (map chunk_seq_key cs) \<and> distinct (map chunk_client_key cs) \<and>
     (\<forall>c \<in> set cs. has_key ses_id (ch_session_id c) ss \<and> chunk_pid_ok (ch_pseudo_id c) \<and>
        in_int4 (ch_seq c))"

definition uniform_wf :: "session list \<Rightarrow> pg_row list \<Rightarrow> bool" where
  "uniform_wf ss rs \<longleftrightarrow> distinct (map pg_id rs) \<and> distinct (map pg_client_key rs) \<and>
     (\<forall>r \<in> set rs. has_key ses_id (pg_session_id r) ss \<and> author_ok (pg_author_user_pseudo_id r))"

definition mute_ranges_wf :: "session list \<Rightarrow> mute_range list \<Rightarrow> bool" where
  "mute_ranges_wf ss ms \<longleftrightarrow> distinct (map mu_id ms) \<and>
     (\<forall>m \<in> set ms. has_key ses_id (mu_session_id m) ss \<and> valid_pid (mu_pseudo_id m))"

definition audit_wf :: "audit_row list \<Rightarrow> bool" where
  "audit_wf rows \<longleftrightarrow> distinct (map au_id rows)"

definition service_sessions_wf :: "service_session list \<Rightarrow> bool" where
  "service_sessions_wf vs \<longleftrightarrow> distinct (map sv_id vs) \<and> distinct (map sv_token_hash vs)"

definition consent_tokens_wf ::
    "user list \<Rightarrow> session list \<Rightarrow> participant list \<Rightarrow> consent_token list \<Rightarrow> bool" where
  "consent_tokens_wf us ss ps ts \<longleftrightarrow> distinct (map ct_token ts) \<and>
     (\<forall>t \<in> set ts. has_key ses_id (ct_session_id t) ss \<and>
        has_key par_id (ct_participant_id t) ps \<and> has_key usr_pseudo_id (ct_pseudo_id t) us)"

definition db_wf :: "database \<Rightarrow> bool" where
  "db_wf d \<longleftrightarrow> users_wf (t_users d) \<and> display_names_wf (t_users d) (t_display_names d) \<and>
     sessions_wf (t_sessions d) \<and>
     participants_wf (t_users d) (t_sessions d) (t_participants d) \<and>
     metadata_wf (t_sessions d) (t_metadata d) \<and> chunks_wf (t_sessions d) (t_chunks d) \<and>
     uniform_wf (t_sessions d) (t_segments d) \<and> uniform_wf (t_sessions d) (t_beats d) \<and>
     uniform_wf (t_sessions d) (t_scenes d) \<and> mute_ranges_wf (t_sessions d) (t_mute_ranges d) \<and>
     audit_wf (t_audit_log d) \<and> service_sessions_wf (t_service_sessions d) \<and>
     consent_tokens_wf (t_users d) (t_sessions d) (t_participants d) (t_consent_tokens d)"

lemmas table_wf_defs = users_wf_def display_names_wf_def sessions_wf_def participants_wf_def
  metadata_wf_def chunks_wf_def uniform_wf_def mute_ranges_wf_def audit_wf_def
  service_sessions_wf_def consent_tokens_wf_def

lemma db_wf_empty: "db_wf empty_db"
  by (simp add: db_wf_def empty_db_def table_wf_defs)

text \<open>
  A table that refers to another only needs the keys of that one to stay: the foreign keys
  survive when the referenced table grows or its rows change outside their key.
\<close>

definition keys_grow :: "('r \<Rightarrow> 'k) \<Rightarrow> 'r list \<Rightarrow> 'r list \<Rightarrow> bool" where
  "keys_grow key t t' \<longleftrightarrow> (\<forall>k. has_key key k t \<longrightarrow> has_key key k t')"

lemma keys_grow_refl [simp]: "keys_grow key t t"
  by (simp add: keys_grow_def)

lemma keys_grow_append [simp]: "keys_grow key t (t @ u)"
  by (simp add: keys_grow_def)

lemma keys_grow_update:
  "(\<And>r. p r \<Longrightarrow> key (f r) = key r) \<Longrightarrow> keys_grow key t (update_rows p f t)"
  by (simp add: keys_grow_def has_key_update_rows)

lemma keys_growD: "keys_grow key t t' \<Longrightarrow> has_key key k t \<Longrightarrow> has_key key k t'"
  by (simp add: keys_grow_def)

lemma users_grow_wf:
  assumes "keys_grow usr_pseudo_id us us'"
  shows "display_names_wf us ns \<Longrightarrow> display_names_wf us' ns"
    and "participants_wf us ss ps \<Longrightarrow> participants_wf us' ss ps"
    and "consent_tokens_wf us ss ps ts \<Longrightarrow> consent_tokens_wf us' ss ps ts"
  using assms by (auto simp: table_wf_defs dest: keys_growD)

lemma sessions_grow_wf:
  assumes "keys_grow ses_id ss ss'"
  shows "participants_wf us ss ps \<Longrightarrow> participants_wf us ss' ps"
    and "metadata_wf ss ms \<Longrightarrow> metadata_wf ss' ms"
    and "chunks_wf ss cs \<Longrightarrow> chunks_wf ss' cs"
    and "uniform_wf ss rs \<Longrightarrow> uniform_wf ss' rs"
    and "mute_ranges_wf ss mus \<Longrightarrow> mute_ranges_wf ss' mus"
    and "consent_tokens_wf us ss ps ts \<Longrightarrow> consent_tokens_wf us ss' ps ts"
  using assms by (auto simp: table_wf_defs dest: keys_growD)

lemma participants_grow_wf:
  assumes "keys_grow par_id ps ps'"
  shows "consent_tokens_wf us ss ps ts \<Longrightarrow> consent_tokens_wf us ss ps' ts"
  using assms by (auto simp: table_wf_defs dest: keys_growD)

text \<open>One lemma per table: the rest of the database keeps its constraints.\<close>

lemma db_wf_users:
  "db_wf d \<Longrightarrow> users_wf us \<Longrightarrow> keys_grow usr_pseudo_id (t_users d) us \<Longrightarrow>
   db_wf (d\<lparr>t_users := us\<rparr>)"
  by (auto simp: db_wf_def intro: users_grow_wf)

lemma db_wf_sessions:
  "db_wf d \<Longrightarrow> sessions_wf ss \<Longrightarrow> keys_grow ses_id (t_sessions d) ss \<Longrightarrow>
   db_wf (d\<lparr>t_sessions := ss\<rparr>)"
  by (auto simp: db_wf_def intro: sessions_grow_wf)

lemma db_wf_participants:
  "db_wf d \<Longrightarrow> participants_wf (t_users d) (t_sessions d) ps \<Longrightarrow>
   keys_grow par_id (t_participants d) ps \<Longrightarrow> db_wf (d\<lparr>t_participants := ps\<rparr>)"
  by (auto simp: db_wf_def intro: participants_grow_wf)

lemma db_wf_leaf_tables:
  "db_wf d \<Longrightarrow> display_names_wf (t_users d) ns \<Longrightarrow> db_wf (d\<lparr>t_display_names := ns\<rparr>)"
  "db_wf d \<Longrightarrow> metadata_wf (t_sessions d) ms \<Longrightarrow> db_wf (d\<lparr>t_metadata := ms\<rparr>)"
  "db_wf d \<Longrightarrow> chunks_wf (t_sessions d) cs \<Longrightarrow> db_wf (d\<lparr>t_chunks := cs\<rparr>)"
  "db_wf d \<Longrightarrow> uniform_wf (t_sessions d) rs \<Longrightarrow> db_wf (d\<lparr>t_segments := rs\<rparr>)"
  "db_wf d \<Longrightarrow> uniform_wf (t_sessions d) rs \<Longrightarrow> db_wf (d\<lparr>t_beats := rs\<rparr>)"
  "db_wf d \<Longrightarrow> uniform_wf (t_sessions d) rs \<Longrightarrow> db_wf (d\<lparr>t_scenes := rs\<rparr>)"
  "db_wf d \<Longrightarrow> mute_ranges_wf (t_sessions d) mus \<Longrightarrow> db_wf (d\<lparr>t_mute_ranges := mus\<rparr>)"
  "db_wf d \<Longrightarrow> audit_wf au \<Longrightarrow> db_wf (d\<lparr>t_audit_log := au\<rparr>)"
  "db_wf d \<Longrightarrow> service_sessions_wf vs \<Longrightarrow> db_wf (d\<lparr>t_service_sessions := vs\<rparr>)"
  "db_wf d \<Longrightarrow> consent_tokens_wf (t_users d) (t_sessions d) (t_participants d) ts \<Longrightarrow>
   db_wf (d\<lparr>t_consent_tokens := ts\<rparr>)"
  by (simp_all add: db_wf_def)

lemma db_wfD:
  assumes "db_wf d"
  shows "users_wf (t_users d)" "display_names_wf (t_users d) (t_display_names d)"
    "sessions_wf (t_sessions d)"
    "participants_wf (t_users d) (t_sessions d) (t_participants d)"
    "metadata_wf (t_sessions d) (t_metadata d)" "chunks_wf (t_sessions d) (t_chunks d)"
    "uniform_wf (t_sessions d) (t_segments d)" "uniform_wf (t_sessions d) (t_beats d)"
    "uniform_wf (t_sessions d) (t_scenes d)" "mute_ranges_wf (t_sessions d) (t_mute_ranges d)"
    "audit_wf (t_audit_log d)" "service_sessions_wf (t_service_sessions d)"
    "consent_tokens_wf (t_users d) (t_sessions d) (t_participants d) (t_consent_tokens d)"
  using assms by (simp_all add: db_wf_def)

end
