(* ===== verification/Db_Audit.thy ===== *)
theory Db_Audit
  imports Schema
begin

section \<open>The audit log\<close>

text \<open>
  \<^verbatim>\<open>src/db/audit_log.rs\<close>: an append-only table. The database supplies the row id
  (\<^verbatim>\<open>gen_random_uuid()\<close>) and the time (\<^verbatim>\<open>NOW()\<close>); both are arguments here.
\<close>

record audit_entry =
  en_actor_service :: string
  en_actor_pseudo :: "string option"
  en_session_id :: "uuid option"
  en_resource_type :: string
  en_resource_id :: message
  en_action :: string
  en_detail :: "json option"

definition audit_row_of :: "uuid \<Rightarrow> time \<Rightarrow> audit_entry \<Rightarrow> audit_row" where
  "audit_row_of aid now e =
     \<lparr>au_id = aid, au_at_ts = now, au_actor_service = en_actor_service e,
      au_actor_pseudo = en_actor_pseudo e, au_session_id = en_session_id e,
      au_resource_type = en_resource_type e, au_resource_id = en_resource_id e,
      au_action = en_action e, au_detail = en_detail e\<rparr>"

definition audit_append :: "uuid \<Rightarrow> time \<Rightarrow> audit_entry \<Rightarrow> unit dbop" where
  "audit_append aid now e d =
     (if has_key au_id aid (t_audit_log d)
      then db_fail (Unique_violation ''audit_log_pkey'')
      else Inr ((), d\<lparr>t_audit_log := t_audit_log d @ [audit_row_of aid now e]\<rparr>))"

definition audit_append_tx :: "uuid \<Rightarrow> time \<Rightarrow> audit_entry \<Rightarrow> unit dbop" where
  "audit_append_tx aid now e d =
     (if has_key au_id aid (t_audit_log d)
      then db_fail (Unique_violation ''audit_log_pkey'')
      else Inr ((), d\<lparr>t_audit_log := t_audit_log d @ [audit_row_of aid now e]\<rparr>))"

record query_filter =
  qf_session_id :: "uuid option"
  qf_resource_type :: "string option"
  qf_since :: "time option"
  qf_limit :: "int option"

definition opt_matches :: "'a option \<Rightarrow> ('a \<Rightarrow> bool) \<Rightarrow> bool" where
  "opt_matches x p \<longleftrightarrow> (case x of None \<Rightarrow> True | Some v \<Rightarrow> p v)"

definition audit_query :: "query_filter \<Rightarrow> database \<Rightarrow> audit_row list res" where
  "audit_query f d =
     (let rows = filter (\<lambda>r. opt_matches (qf_session_id f) (\<lambda>s. au_session_id r = Some s) \<and>
                             opt_matches (qf_resource_type f) (\<lambda>t. au_resource_type r = t) \<and>
                             opt_matches (qf_since f) (\<lambda>t. t \<le> au_at_ts r)) (t_audit_log d);
          sorted = sort_key (\<lambda>r. - au_at_ts r) rows;
          lim = (case qf_limit f of None \<Rightarrow> 200 | Some n \<Rightarrow> n)
      in if lim < 0 then db_fail Invalid_limit else Inr (take (nat lim) sorted))"

subsection \<open>Lemmas\<close>

lemma opt_matches_simps [simp]:
  "opt_matches None p" "opt_matches (Some v) p \<longleftrightarrow> p v"
  by (simp_all add: opt_matches_def)

lemma audit_append_tx_eq: "audit_append_tx = audit_append"
  by (intro ext) (simp add: audit_append_tx_def audit_append_def)

lemma audit_append_eq_Inr:
  "audit_append aid now e d = Inr (u, d') \<longleftrightarrow>
     \<not> has_key au_id aid (t_audit_log d) \<and>
     d' = d\<lparr>t_audit_log := t_audit_log d @ [audit_row_of aid now e]\<rparr>"
  by (auto simp: audit_append_def)

lemma audit_append_wf: "tx_pres db_wf (audit_append aid now e)"
  by (rule tx_presI)
    (auto simp: audit_append_eq_Inr audit_wf_def audit_row_of_def has_key_iff_image
      intro!: db_wf_leaf_tables dest: db_wfD)

lemma audit_append_tx_wf: "tx_pres db_wf (audit_append_tx aid now e)"
  by (simp add: audit_append_tx_eq audit_append_wf)

lemmas audit_pres = audit_append_wf audit_append_tx_wf

text \<open>The query returns rows of the log only, newest first, at most as many as asked.\<close>

lemma audit_query_sound:
  assumes "audit_query f d = Inr rows"
  shows "set rows \<subseteq> set (t_audit_log d)"
    and "sorted_wrt (\<lambda>a b. au_at_ts b \<le> au_at_ts a) rows"
    and "int (length rows) \<le> (case qf_limit f of None \<Rightarrow> 200 | Some n \<Rightarrow> n)"
proof -
  obtain xs lim where rows: "rows = take (nat lim) (sort_key (\<lambda>r. - au_at_ts r) xs)"
    and xs: "set xs \<subseteq> set (t_audit_log d)"
    and lim: "lim = (case qf_limit f of None \<Rightarrow> 200 | Some n \<Rightarrow> n)" "0 \<le> lim"
    using assms by (auto simp: audit_query_def Let_def split: if_splits)
  show "set rows \<subseteq> set (t_audit_log d)"
    using xs set_take_subset unfolding rows by fastforce
  have "sorted (map (\<lambda>r. - au_at_ts r) (sort_key (\<lambda>r. - au_at_ts r) xs))"
    by (rule sorted_sort_key)
  then have "sorted_wrt (\<lambda>a b. au_at_ts b \<le> au_at_ts a) (sort_key (\<lambda>r. - au_at_ts r) xs)"
    by (simp add: sorted_map)
  then show "sorted_wrt (\<lambda>a b. au_at_ts b \<le> au_at_ts a) rows"
    unfolding rows by (rule sorted_wrt_take)
  show "int (length rows) \<le> (case qf_limit f of None \<Rightarrow> 200 | Some n \<Rightarrow> n)"
    using lim by (simp add: rows)
qed

end
