(* ===== verification/Db_Users.thy ===== *)
theory Db_Users
  imports Schema
begin

section \<open>Users and their display names\<close>

text \<open>
  \<^verbatim>\<open>src/db/users.rs\<close> and \<^verbatim>\<open>src/db/display_names.rs\<close>. A check constraint is evaluated before
  the conflict arbitration of an upsert, as Postgres does. \<^verbatim>\<open>ORDER BY\<close> is a stable sort; rows
  the statement does not order stay in insertion order.
\<close>

definition user_default :: "time \<Rightarrow> pseudo_id \<Rightarrow> bool \<Rightarrow> user" where
  "user_default now p admin =
     \<lparr>usr_pseudo_id = p, usr_is_admin = admin, usr_data_wiped_at = None, usr_created_at = now\<rparr>"

definition find_user :: "pseudo_id \<Rightarrow> database \<Rightarrow> user option" where
  "find_user p d = List.find (\<lambda>u. usr_pseudo_id u = p) (t_users d)"

definition users_upsert :: "time \<Rightarrow> pseudo_id \<Rightarrow> user dbop" where
  "users_upsert now p d =
     (if \<not> valid_pid p then db_fail (Check_violation ''users_pseudo_id_check'')
      else case find_user p d of
        Some u \<Rightarrow> Inr (u, d)
      | None \<Rightarrow> let u = user_default now p False in Inr (u, d\<lparr>t_users := t_users d @ [u]\<rparr>))"

definition users_get :: "pseudo_id \<Rightarrow> database \<Rightarrow> user res" where
  "users_get p d =
     ok_or (NotFound [Lit ''user '', Lit (pid_str p), Lit '' not found'']) (find_user p d)"

definition users_list_all :: "database \<Rightarrow> user list" where
  "users_list_all d = sort_key (\<lambda>u. - usr_created_at u) (t_users d)"

definition users_set_admin :: "time \<Rightarrow> pseudo_id \<Rightarrow> bool \<Rightarrow> user dbop" where
  "users_set_admin now p admin d =
     (if \<not> valid_pid p then db_fail (Check_violation ''users_pseudo_id_check'')
      else case find_user p d of
        Some u \<Rightarrow> Inr (u\<lparr>usr_is_admin := admin\<rparr>,
          d\<lparr>t_users := update_rows (\<lambda>v. usr_pseudo_id v = p) (\<lambda>v. v\<lparr>usr_is_admin := admin\<rparr>)
              (t_users d)\<rparr>)
      | None \<Rightarrow> let u = user_default now p admin in Inr (u, d\<lparr>t_users := t_users d @ [u]\<rparr>))"

subsection \<open>Display names\<close>

definition find_display_name :: "pseudo_id \<Rightarrow> string \<Rightarrow> database \<Rightarrow> display_name option" where
  "find_display_name p name d = List.find (\<lambda>n. dn_key n = (p, name)) (t_display_names d)"

definition display_names_upsert ::
    "time \<Rightarrow> pseudo_id \<Rightarrow> string \<Rightarrow> string \<Rightarrow> display_name dbop" where
  "display_names_upsert now p name src d =
     (if \<not> (src = ''bot'' \<or> src = ''portal_override'') then
        Inl (BadRequest [Lit ''invalid source: '', Lit src,
          Lit '' (expected 'bot' or 'portal_override')''])
      else case find_display_name p name d of
        Some n \<Rightarrow>
          (if \<not> in_int4 (dn_seen_count n + 1) then db_fail Numeric_out_of_range
           else let n' = n\<lparr>dn_last_seen_at := now, dn_seen_count := dn_seen_count n + 1\<rparr>
                in Inr (n', d\<lparr>t_display_names := update_rows (\<lambda>m. dn_key m = (p, name)) (\<lambda>_. n')
                     (t_display_names d)\<rparr>))
      | None \<Rightarrow>
          (if \<not> has_key usr_pseudo_id p (t_users d)
           then db_fail (Foreign_key_violation ''user_display_names_pseudo_id_fkey'')
           else let n = \<lparr>dn_pseudo_id = p, dn_display_name = name, dn_first_seen_at = now,
                         dn_last_seen_at = now, dn_seen_count = 1, dn_source = src\<rparr>
                in Inr (n, d\<lparr>t_display_names := t_display_names d @ [n]\<rparr>)))"

definition display_names_list :: "pseudo_id \<Rightarrow> database \<Rightarrow> display_name list" where
  "display_names_list p d =
     sort_key (\<lambda>n. - dn_last_seen_at n) (filter (\<lambda>n. dn_pseudo_id n = p) (t_display_names d))"

subsection \<open>Admin views\<close>

record admin_user_list_item =
  ai_pseudo_id :: pseudo_id
  ai_is_admin :: bool
  ai_data_wiped_at :: "time option"
  ai_created_at :: time
  ai_latest_display_name :: "string option"
  ai_session_count :: int
  ai_last_active_at :: "time option"
  ai_has_consent_on_file :: bool

text \<open>The participations of a user joined with their sessions.\<close>

definition participations :: "pseudo_id \<Rightarrow> database \<Rightarrow> (participant \<times> session) list" where
  "participations p d =
     [(q, s). q \<leftarrow> t_participants d, par_pseudo_id q = p,
              s \<leftarrow> t_sessions d, ses_id s = par_session_id q]"

definition max_time :: "time list \<Rightarrow> time option" where
  "max_time ts = (case ts of [] \<Rightarrow> None | t # us \<Rightarrow> Some (fold max us t))"

definition admin_item :: "database \<Rightarrow> user \<Rightarrow> admin_user_list_item" where
  "admin_item d u =
     (let ps = participations (usr_pseudo_id u) d in
      \<lparr>ai_pseudo_id = usr_pseudo_id u, ai_is_admin = usr_is_admin u,
       ai_data_wiped_at = usr_data_wiped_at u, ai_created_at = usr_created_at u,
       ai_latest_display_name =
         (case display_names_list (usr_pseudo_id u) d of
            [] \<Rightarrow> None | n # _ \<Rightarrow> Some (dn_display_name n)),
       ai_session_count = int (length (remdups (map (\<lambda>(q, s). par_session_id q) ps))),
       ai_last_active_at = max_time (map (\<lambda>(q, s). ses_started_at s) ps),
       ai_has_consent_on_file = list_ex (\<lambda>(q, s). par_consent_scope q \<noteq> None) ps\<rparr>)"

definition users_list_all_with_details :: "database \<Rightarrow> admin_user_list_item list" where
  "users_list_all_with_details d =
     sort_key (\<lambda>i. (if ai_last_active_at i = None then 1 else 0) :: nat)
       (sort_key (\<lambda>i. case ai_last_active_at i of None \<Rightarrow> 0 | Some t \<Rightarrow> - t)
         (sort_key (\<lambda>i. - ai_created_at i) (map (admin_item d) (t_users d))))"

record participated_session =
  ps_session_id :: uuid
  ps_campaign_name :: "string option"
  ps_title :: "string option"
  ps_started_at :: time
  ps_ended_at :: "time option"
  ps_status :: string
  ps_consent_scope :: "string option"
  ps_data_wiped_at :: "time option"

definition users_list_sessions_for_user ::
    "pseudo_id \<Rightarrow> database \<Rightarrow> participated_session list" where
  "users_list_sessions_for_user p d =
     sort_key (\<lambda>r. - ps_started_at r)
       (map (\<lambda>(q, s). \<lparr>ps_session_id = ses_id s, ps_campaign_name = ses_campaign_name s,
                 ps_title = None, ps_started_at = ses_started_at s, ps_ended_at = ses_ended_at s,
                 ps_status = status_as_str (ses_status s),
                 ps_consent_scope = par_consent_scope q,
                 ps_data_wiped_at = par_data_wiped_at q\<rparr>) (participations p d))"

subsection \<open>Lemmas\<close>

lemma find_user_None: "find_user p d = None \<longleftrightarrow> \<not> has_key usr_pseudo_id p (t_users d)"
  unfolding find_user_def by (rule find_key_None)

lemma find_user_Some: "find_user p d = Some u \<Longrightarrow> u \<in> set (t_users d) \<and> usr_pseudo_id u = p"
  unfolding find_user_def by (auto dest: find_SomeD)

lemma users_wf_append:
  "users_wf us \<Longrightarrow> valid_pid (usr_pseudo_id u) \<Longrightarrow> \<not> has_key usr_pseudo_id (usr_pseudo_id u) us \<Longrightarrow>
   users_wf (us @ [u])"
  by (auto simp: users_wf_def has_key_iff_image)

lemma users_wf_update:
  assumes "users_wf us" and "\<And>u. usr_pseudo_id (f u) = usr_pseudo_id u"
  shows "users_wf (update_rows p f us)"
  using assms by (auto simp: users_wf_def set_update_rows map_key_update_rows)

lemma users_upsert_wf: "tx_pres db_wf (users_upsert now p)"
proof (rule tx_presI)
  fix d u d' assume wf: "db_wf d" and ok: "users_upsert now p d = Inr (u, d')"
  show "db_wf d'"
  proof (cases "find_user p d")
    case None
    have "users_wf (t_users d @ [user_default now p False])"
      using ok None wf by (intro users_wf_append)
        (auto simp: users_upsert_def find_user_None user_default_def dest: db_wfD split: if_splits)
    with ok None wf show ?thesis
      by (auto simp: users_upsert_def Let_def intro!: db_wf_users split: if_splits)
  next
    case (Some v)
    with ok wf show ?thesis by (auto simp: users_upsert_def split: if_splits)
  qed
qed

lemma users_set_admin_wf: "tx_pres db_wf (users_set_admin now p admin)"
proof (rule tx_presI)
  fix d u d' assume wf: "db_wf d" and ok: "users_set_admin now p admin d = Inr (u, d')"
  show "db_wf d'"
  proof (cases "find_user p d")
    case None
    have "users_wf (t_users d @ [user_default now p admin])"
      using ok None wf by (intro users_wf_append)
        (auto simp: users_set_admin_def find_user_None user_default_def dest: db_wfD
          split: if_splits)
    with ok None wf show ?thesis
      by (auto simp: users_set_admin_def Let_def intro!: db_wf_users split: if_splits)
  next
    case (Some v)
    with ok wf show ?thesis
      by (auto simp: users_set_admin_def dest: db_wfD split: if_splits
          intro!: db_wf_users users_wf_update keys_grow_update)
  qed
qed

lemma users_upsert_idem:
  assumes "users_upsert now p d = Inr (u, d')"
  shows "users_upsert now' p d' = Inr (u, d')"
  using assms
  by (auto simp: users_upsert_def Let_def find_user_def find_append user_default_def
      split: if_splits option.splits)

lemma users_upsert_get:
  assumes "users_upsert now p d = Inr (u, d')"
  shows "users_get p d' = Inr u"
  using assms
  by (auto simp: users_upsert_def users_get_def Let_def find_user_def find_append user_default_def
      split: if_splits option.splits)

lemma users_set_admin_get:
  assumes "users_set_admin now p admin d = Inr (u, d')"
  shows "users_get p d' = Inr u" and "usr_is_admin u = admin"
  using assms
  by (auto simp: users_set_admin_def users_get_def Let_def find_user_def find_append
      user_default_def find_update_rows split: if_splits option.splits dest: find_SomeD)

lemma dn_key_simps [simp]: "dn_key n = (p, name) \<longleftrightarrow> dn_pseudo_id n = p \<and> dn_display_name n = name"
  by (auto simp: dn_key_def)

lemma display_names_upsert_wf: "tx_pres db_wf (display_names_upsert now p name src)"
proof (rule tx_presI)
  fix d n d' assume wf: "db_wf d" and ok: "display_names_upsert now p name src d = Inr (n, d')"
  note wfs = db_wfD(2) [OF wf]
  show "db_wf d'"
  proof (cases "find_display_name p name d")
    case None
    have "\<not> has_key dn_key (p, name) (t_display_names d)"
      using None unfolding find_display_name_def by (rule find_key_None [THEN iffD1])
    with ok None wf wfs show ?thesis
      by (auto simp: display_names_upsert_def Let_def display_names_wf_def display_source_ok_def
          has_key_iff_image dn_key_def intro!: db_wf_leaf_tables split: if_splits)
  next
    case (Some m)
    then have m: "m \<in> set (t_display_names d)" "dn_key m = (p, name)"
      unfolding find_display_name_def by (auto dest!: find_SomeD)
    define n' where "n' = m\<lparr>dn_last_seen_at := now, dn_seen_count := dn_seen_count m + 1\<rparr>"
    define t' where "t' = update_rows (\<lambda>m. dn_key m = (p, name)) (\<lambda>_. n') (t_display_names d)"
    have "map dn_key t' = map dn_key (t_display_names d)"
      unfolding t'_def using m by (intro map_key_update_rows) (auto simp: n'_def dn_key_def)
    then have "display_names_wf (t_users d) t'"
      using wfs m by (auto simp: display_names_wf_def t'_def set_update_rows n'_def)
    moreover have "d' = d\<lparr>t_display_names := t'\<rparr>"
      using ok Some by (auto simp: display_names_upsert_def Let_def t'_def n'_def split: if_splits)
    ultimately show ?thesis using wf by (auto intro: db_wf_leaf_tables)
  qed
qed

end
