(* ===== verification/Db_Sessions.thy ===== *)
theory Db_Sessions
  imports Schema Db_Audit
begin

section \<open>The sessions table\<close>

text \<open>
  \<^verbatim>\<open>src/db/sessions.rs\<close>. \<open>sessions_get_in_tx\<close> is the same read as \<open>sessions_get\<close> (it also
  takes the row lock, which has no effect on one request run alone). \<open>sessions_update_status\<close>
  stamps \<^verbatim>\<open>abandoned_at\<close> and \<^verbatim>\<open>deleted_at\<close> and does not check the transition.
\<close>

record create_session =
  cs_id :: uuid
  cs_guild_id :: int
  cs_started_at :: time
  cs_game_system :: "string option"
  cs_campaign_name :: "string option"
  cs_s3_prefix :: string

definition find_session :: "uuid \<Rightarrow> database \<Rightarrow> session option" where
  "find_session i d = List.find (\<lambda>s. ses_id s = i) (t_sessions d)"

definition session_not_found :: "uuid \<Rightarrow> app_error" where
  "session_not_found i = NotFound [Lit ''session '', UuidText i, Lit '' not found'']"

definition sessions_create :: "time \<Rightarrow> create_session \<Rightarrow> session dbop" where
  "sessions_create now c d =
     (if has_key ses_id (cs_id c) (t_sessions d)
      then db_fail (Unique_violation ''sessions_pkey'')
      else let s = \<lparr>ses_id = cs_id c, ses_guild_id = cs_guild_id c,
                    ses_started_at = cs_started_at c, ses_ended_at = None,
                    ses_abandoned_at = None, ses_deleted_at = None,
                    ses_game_system = cs_game_system c, ses_campaign_name = cs_campaign_name c,
                    ses_participant_count = None, ses_s3_prefix = cs_s3_prefix c,
                    ses_status = Recording, ses_created_at = now\<rparr>
           in Inr (s, d\<lparr>t_sessions := t_sessions d @ [s]\<rparr>))"

definition sessions_get :: "uuid \<Rightarrow> database \<Rightarrow> session res" where
  "sessions_get i d = ok_or (session_not_found i) (find_session i d)"

definition sessions_get_in_tx :: "uuid \<Rightarrow> session dbop" where
  "sessions_get_in_tx i d =
     (case find_session i d of None \<Rightarrow> Inl (session_not_found i) | Some s \<Rightarrow> Inr (s, d))"

record list_filter =
  lf_status :: "string option"
  lf_guild_id :: "int option"
  lf_limit :: "int option"
  lf_offset :: "int option"

definition parse_status_filter :: "string option \<Rightarrow> session_status option res" where
  "parse_status_filter x =
     (case x of None \<Rightarrow> Inr None
      | Some s \<Rightarrow> bind_res (from_unknown_status (status_from_str s)) (\<lambda>st. Inr (Some st)))"

definition sessions_list :: "list_filter \<Rightarrow> database \<Rightarrow> session list res" where
  "sessions_list f d =
     bind_res (parse_status_filter (lf_status f)) (\<lambda>status_parsed.
       let rows = filter (\<lambda>s. opt_matches status_parsed (\<lambda>st. ses_status s = st) \<and>
                              opt_matches (lf_guild_id f) (\<lambda>g. ses_guild_id s = g)) (t_sessions d);
           sorted = sort_key (\<lambda>s. - ses_started_at s) rows;
           lim = (case lf_limit f of None \<Rightarrow> 100 | Some n \<Rightarrow> n);
           off = (case lf_offset f of None \<Rightarrow> 0 | Some n \<Rightarrow> n)
       in if lim < 0 \<or> off < 0 then db_fail Invalid_limit
          else Inr (take (nat lim) (drop (nat off) sorted)))"

text \<open>\<^verbatim>\<open>UPDATE sessions SET ... WHERE id = $1 RETURNING *\<close> with \<^verbatim>\<open>fetch_one\<close>.\<close>

definition sessions_update :: "uuid \<Rightarrow> (session \<Rightarrow> session) \<Rightarrow> session dbop" where
  "sessions_update i f d =
     (case find_session i d of
        None \<Rightarrow> db_fail Row_not_found
      | Some s \<Rightarrow> Inr (f s, d\<lparr>t_sessions := update_rows (\<lambda>s. ses_id s = i) f (t_sessions d)\<rparr>))"

definition set_status :: "time \<Rightarrow> session_status \<Rightarrow> session \<Rightarrow> session" where
  "set_status now st s =
     s\<lparr>ses_status := st,
       ses_abandoned_at := (if st = Abandoned then Some now else ses_abandoned_at s),
       ses_deleted_at := (if st = Deleted then Some now else ses_deleted_at s)\<rparr>"

definition sessions_update_status :: "time \<Rightarrow> uuid \<Rightarrow> session_status \<Rightarrow> session dbop" where
  "sessions_update_status now i st = sessions_update i (set_status now st)"

definition set_fields :: "time option option \<Rightarrow> int option option \<Rightarrow> session \<Rightarrow> session" where
  "set_fields ended_at participant_count s =
     s\<lparr>ses_ended_at := (case ended_at of Some v \<Rightarrow> v | None \<Rightarrow> ses_ended_at s),
       ses_participant_count :=
         (case participant_count of Some v \<Rightarrow> v | None \<Rightarrow> ses_participant_count s)\<rparr>"

definition sessions_patch_fields ::
    "uuid \<Rightarrow> time option option \<Rightarrow> int option option \<Rightarrow> session dbop" where
  "sessions_patch_fields i ended_at participant_count =
     sessions_update i (set_fields ended_at participant_count)"

definition set_resumed :: "session \<Rightarrow> session" where
  "set_resumed s = s\<lparr>ses_status := Recording, ses_abandoned_at := None\<rparr>"

definition sessions_resume_from_abandoned :: "uuid \<Rightarrow> session dbop" where
  "sessions_resume_from_abandoned i = sessions_update i set_resumed"

record session_summary =
  sm_session_id :: uuid
  sm_chunk_count :: int
  sm_participant_count :: int
  sm_duration_ms :: int
  sm_segment_count :: int
  sm_beat_count :: int
  sm_scene_count :: int
  sm_mute_range_count :: int
  sm_no_llm_training :: bool
  sm_no_public_release :: bool

definition count_rows :: "('r \<Rightarrow> bool) \<Rightarrow> 'r list \<Rightarrow> int" where
  "count_rows p t = int (length (filter p t))"

definition sessions_summary :: "uuid \<Rightarrow> database \<Rightarrow> session_summary" where
  "sessions_summary i d =
     \<lparr>sm_session_id = i,
      sm_chunk_count = count_rows (\<lambda>c. ch_session_id c = i) (t_chunks d),
      sm_participant_count = count_rows (\<lambda>p. par_session_id p = i) (t_participants d),
      sm_duration_ms =
        sum_list (map ch_duration_ms (filter (\<lambda>c. ch_session_id c = i) (t_chunks d))),
      sm_segment_count = count_rows (\<lambda>r. pg_session_id r = i) (t_segments d),
      sm_beat_count = count_rows (\<lambda>r. pg_session_id r = i) (t_beats d),
      sm_scene_count = count_rows (\<lambda>r. pg_session_id r = i) (t_scenes d),
      sm_mute_range_count = count_rows (\<lambda>m. mu_session_id m = i) (t_mute_ranges d),
      sm_no_llm_training =
        list_ex (\<lambda>p. par_session_id p = i \<and> par_no_llm_training p) (t_participants d),
      sm_no_public_release =
        list_ex (\<lambda>p. par_session_id p = i \<and> par_no_public_release p) (t_participants d)\<rparr>"

text \<open>\<^verbatim>\<open>guild_id_for_session\<close> of the route modules.\<close>

definition guild_id_for_session :: "uuid \<Rightarrow> database \<Rightarrow> int res" where
  "guild_id_for_session i d =
     ok_or (session_not_found i) (map_option ses_guild_id (find_session i d))"

subsection \<open>Lemmas\<close>

lemma find_session_None: "find_session i d = None \<longleftrightarrow> \<not> has_key ses_id i (t_sessions d)"
  unfolding find_session_def by (rule find_key_None)

lemma find_session_SomeD: "find_session i d = Some s \<Longrightarrow> s \<in> set (t_sessions d) \<and> ses_id s = i"
  unfolding find_session_def by (auto dest: find_SomeD)

lemma find_session_has_key: "find_session i d = Some s \<Longrightarrow> has_key ses_id i (t_sessions d)"
  using find_session_None [of i d] by auto

lemma find_session_cong [simp]:
  "find_session i (d\<lparr>t_users := us\<rparr>) = find_session i d"
  "find_session i (d\<lparr>t_participants := ps\<rparr>) = find_session i d"
  "find_session i (d\<lparr>t_metadata := ms\<rparr>) = find_session i d"
  "find_session i (d\<lparr>t_chunks := cs\<rparr>) = find_session i d"
  "find_session i (d\<lparr>t_segments := rs\<rparr>) = find_session i d"
  "find_session i (d\<lparr>t_beats := rs\<rparr>) = find_session i d"
  "find_session i (d\<lparr>t_scenes := rs\<rparr>) = find_session i d"
  "find_session i (d\<lparr>t_mute_ranges := mus\<rparr>) = find_session i d"
  "find_session i (d\<lparr>t_audit_log := au\<rparr>) = find_session i d"
  "find_session i (d\<lparr>t_consent_tokens := ts\<rparr>) = find_session i d"
  by (simp_all add: find_session_def)

lemma sessions_get_in_tx_eq_Inr [simp]:
  "sessions_get_in_tx i d = Inr (s, d') \<longleftrightarrow> find_session i d = Some s \<and> d' = d"
  by (auto simp: sessions_get_in_tx_def split: option.splits)

lemma sessions_update_eq_Inr:
  "sessions_update i f d = Inr (s', d') \<longleftrightarrow>
     (\<exists>s. find_session i d = Some s \<and> s' = f s \<and>
          d' = d\<lparr>t_sessions := update_rows (\<lambda>s. ses_id s = i) f (t_sessions d)\<rparr>)"
  by (auto simp: sessions_update_def split: option.splits)

lemma find_session_update:
  assumes "\<And>s. ses_id (f s) = ses_id s"
  shows "find_session j (d\<lparr>t_sessions := update_rows (\<lambda>s. ses_id s = i) f (t_sessions d)\<rparr>) =
     map_option (\<lambda>s. if j = i then f s else s) (find_session j d)"
proof -
  have "map_option (\<lambda>s. if ses_id s = i then f s else s) (find_session j d) =
        map_option (\<lambda>s. if j = i then f s else s) (find_session j d)"
    by (cases "find_session j d") (auto dest: find_session_SomeD)
  then show ?thesis using assms by (simp add: find_session_def find_update_rows)
qed

lemma set_functions_id [simp]:
  "ses_id (set_status now st s) = ses_id s"
  "ses_id (set_fields e p s) = ses_id s"
  "ses_id (set_resumed s) = ses_id s"
  by (simp_all add: set_status_def set_fields_def set_resumed_def)

lemma set_functions_guild [simp]:
  "ses_guild_id (set_status now st s) = ses_guild_id s"
  "ses_guild_id (set_fields e p s) = ses_guild_id s"
  "ses_guild_id (set_resumed s) = ses_guild_id s"
  by (simp_all add: set_status_def set_fields_def set_resumed_def)

lemma set_functions_status [simp]:
  "ses_status (set_status now st s) = st"
  "ses_status (set_fields e p s) = ses_status s"
  "ses_status (set_resumed s) = Recording"
  by (simp_all add: set_status_def set_fields_def set_resumed_def)

lemma sessions_create_wf: "tx_pres db_wf (sessions_create now c)"
  by (rule tx_presI)
    (auto simp: sessions_create_def Let_def sessions_wf_def has_key_iff_image
      intro!: db_wf_sessions dest: db_wfD split: if_splits)

lemma sessions_update_wf:
  assumes "\<And>s. ses_id (f s) = ses_id s"
  shows "tx_pres db_wf (sessions_update i f)"
  using assms
  by (intro tx_presI)
    (auto simp: sessions_update_eq_Inr sessions_wf_def map_key_update_rows
      intro!: db_wf_sessions keys_grow_update dest: db_wfD)

lemma sessions_get_in_tx_wf: "tx_pres db_wf (sessions_get_in_tx i)"
  by (rule tx_presI) simp

lemma sessions_pres:
  "tx_pres db_wf (sessions_create now c)"
  "tx_pres db_wf (sessions_get_in_tx i)"
  "tx_pres db_wf (sessions_update_status now i st)"
  "tx_pres db_wf (sessions_patch_fields i e p)"
  "tx_pres db_wf (sessions_resume_from_abandoned i)"
  by (simp_all add: sessions_create_wf sessions_get_in_tx_wf sessions_update_wf
      sessions_update_status_def sessions_patch_fields_def sessions_resume_from_abandoned_def)

text \<open>
  The time stamps agree with the status, in every row: an abandoned session carries the time
  of its abandonment (so the fallback of the resume check is never taken), and a session has a
  deletion time exactly when it is a tombstone.
\<close>

definition stamps_ok :: "session \<Rightarrow> bool" where
  "stamps_ok s \<longleftrightarrow> (ses_status s = Abandoned \<longrightarrow> ses_abandoned_at s \<noteq> None) \<and>
     (ses_deleted_at s \<noteq> None \<longrightarrow> ses_status s = Deleted) \<and>
     (ses_status s = Deleted \<longrightarrow> ses_deleted_at s \<noteq> None)"

lemma stamps_ok_set_fields [simp]: "stamps_ok (set_fields e p s) = stamps_ok s"
  by (simp add: stamps_ok_def set_fields_def)

lemma stamps_ok_set_status:
  "stamps_ok s \<Longrightarrow> ses_status s \<noteq> Deleted \<or> st = Deleted \<Longrightarrow> stamps_ok (set_status now st s)"
  by (auto simp: stamps_ok_def set_status_def)

lemma stamps_ok_set_resumed:
  "stamps_ok s \<Longrightarrow> ses_status s \<noteq> Deleted \<Longrightarrow> stamps_ok (set_resumed s)"
  by (auto simp: stamps_ok_def set_resumed_def)

lemma count_rows_simps [simp]:
  "count_rows p [] = 0"
  "count_rows p (r # t) = (if p r then 1 else 0) + count_rows p t"
  "count_rows p (t @ u) = count_rows p t + count_rows p u"
  by (simp_all add: count_rows_def)

lemma count_rows_delete [simp]: "count_rows p (delete_rows p t) = 0"
  by (simp add: count_rows_def filter_delete_rows)

end
