(* ===== verification/Db_Participants.thy ===== *)
theory Db_Participants
  imports Schema Db_Users
begin

section \<open>Session participants\<close>

text \<open>
  \<^verbatim>\<open>src/db/participants.rs\<close>. The ids the database generates are arguments: one for
  \<open>participants_add\<close>, a supply indexed by the row for the batch. An upsert that meets the same
  key twice in one statement fails (\<open>Cardinality_violation\<close>), as \<^verbatim>\<open>ON CONFLICT DO UPDATE\<close> does.
\<close>

record add_participant =
  ap_pseudo_id :: pseudo_id
  ap_mid_session_join :: bool

definition find_participant :: "uuid \<Rightarrow> database \<Rightarrow> participant option" where
  "find_participant i d = List.find (\<lambda>p. par_id p = i) (t_participants d)"

definition participant_not_found :: "uuid \<Rightarrow> app_error" where
  "participant_not_found i = NotFound [Lit ''participant '', UuidText i, Lit '' not found'']"

definition new_participant :: "time \<Rightarrow> uuid \<Rightarrow> uuid \<Rightarrow> add_participant \<Rightarrow> participant" where
  "new_participant now new_id sid a =
     \<lparr>par_id = new_id, par_session_id = sid, par_pseudo_id = ap_pseudo_id a,
      par_consent_scope = None, par_consented_at = None,
      par_mid_session_join = ap_mid_session_join a, par_no_llm_training = False,
      par_no_public_release = False, par_data_wiped_at = None, par_created_at = now\<rparr>"

text \<open>One row of \<^verbatim>\<open>INSERT INTO session_participants ... ON CONFLICT DO UPDATE\<close>.\<close>

definition participant_upsert_row ::
    "time \<Rightarrow> uuid \<Rightarrow> uuid \<Rightarrow> add_participant \<Rightarrow> participant dbop" where
  "participant_upsert_row now new_id sid a d =
     (if \<not> valid_pid (ap_pseudo_id a)
      then db_fail (Check_violation ''session_participants_pseudo_id_check'')
      else case List.find (\<lambda>p. par_unique_key p = (sid, ap_pseudo_id a)) (t_participants d) of
        Some p \<Rightarrow>
          (let p' = p\<lparr>par_mid_session_join := ap_mid_session_join a\<rparr>
           in Inr (p', d\<lparr>t_participants :=
                update_rows (\<lambda>q. par_unique_key q = (sid, ap_pseudo_id a)) (\<lambda>_. p')
                  (t_participants d)\<rparr>))
      | None \<Rightarrow>
          (if has_key par_id new_id (t_participants d)
           then db_fail (Unique_violation ''session_participants_pkey'')
           else if \<not> has_key ses_id sid (t_sessions d)
           then db_fail (Foreign_key_violation ''session_participants_session_id_fkey'')
           else if \<not> has_key usr_pseudo_id (ap_pseudo_id a) (t_users d)
           then db_fail (Foreign_key_violation ''session_participants_pseudo_id_fkey'')
           else let p = new_participant now new_id sid a
                in Inr (p, d\<lparr>t_participants := t_participants d @ [p]\<rparr>)))"

definition participants_add :: "time \<Rightarrow> uuid \<Rightarrow> uuid \<Rightarrow> add_participant \<Rightarrow> participant dbop" where
  "participants_add now new_id sid a =
     tx_bind (users_upsert now (ap_pseudo_id a)) (\<lambda>_. participant_upsert_row now new_id sid a)"

text \<open>\<^verbatim>\<open>INSERT INTO users SELECT unnest(...) ON CONFLICT DO NOTHING\<close>.\<close>

fun seed_users :: "time \<Rightarrow> pseudo_id list \<Rightarrow> unit dbop" where
  "seed_users now [] = tx_return ()"
| "seed_users now (p # ps) = tx_bind (users_upsert now p) (\<lambda>_. seed_users now ps)"

fun participant_upsert_rows ::
    "time \<Rightarrow> (nat \<Rightarrow> uuid) \<Rightarrow> nat \<Rightarrow> uuid \<Rightarrow> pseudo_id list \<Rightarrow> add_participant list \<Rightarrow>
     participant list dbop" where
  "participant_upsert_rows now new_id k sid seen [] = tx_return []"
| "participant_upsert_rows now new_id k sid seen (a # as) =
     (if ap_pseudo_id a \<in> set seen then tx_fail (Database Cardinality_violation)
      else tx_bind (participant_upsert_row now (new_id k) sid a) (\<lambda>p.
           tx_bind (participant_upsert_rows now new_id (Suc k) sid (ap_pseudo_id a # seen) as)
             (\<lambda>ps. tx_return (p # ps))))"

definition participants_add_many ::
    "time \<Rightarrow> (nat \<Rightarrow> uuid) \<Rightarrow> uuid \<Rightarrow> add_participant list \<Rightarrow> participant list dbop" where
  "participants_add_many now new_id sid inputs =
     (if inputs = [] then tx_return []
      else tx_bind (seed_users now (map ap_pseudo_id inputs)) (\<lambda>_.
           participant_upsert_rows now new_id 0 sid [] inputs))"

definition participants_list :: "uuid \<Rightarrow> database \<Rightarrow> participant list" where
  "participants_list sid d =
     sort_key par_created_at (filter (\<lambda>p. par_session_id p = sid) (t_participants d))"

definition participants_get :: "uuid \<Rightarrow> database \<Rightarrow> participant res" where
  "participants_get i d = ok_or (participant_not_found i) (find_participant i d)"

text \<open>\<^verbatim>\<open>UPDATE session_participants SET ... WHERE id = $1 RETURNING *\<close>.\<close>

definition participants_update :: "uuid \<Rightarrow> (participant \<Rightarrow> participant) \<Rightarrow> participant dbop" where
  "participants_update i f d =
     (case find_participant i d of
        None \<Rightarrow> Inl (participant_not_found i)
      | Some p \<Rightarrow>
          Inr (f p, d\<lparr>t_participants := update_rows (\<lambda>p. par_id p = i) f (t_participants d)\<rparr>))"

record update_consent =
  uc_consent_scope :: string
  uc_consented_at :: "time option"

definition set_consent :: "time \<Rightarrow> update_consent \<Rightarrow> participant \<Rightarrow> participant" where
  "set_consent now c p =
     p\<lparr>par_consent_scope := Some (uc_consent_scope c),
       par_consented_at := Some (case uc_consented_at c of Some t \<Rightarrow> t | None \<Rightarrow> now)\<rparr>"

definition participants_update_consent :: "time \<Rightarrow> uuid \<Rightarrow> update_consent \<Rightarrow> participant dbop" where
  "participants_update_consent now i c =
     (if \<not> (uc_consent_scope c = ''full'' \<or> uc_consent_scope c = ''decline'' \<or>
             uc_consent_scope c = ''timed_out'')
      then tx_fail (BadRequest [Lit ''invalid consent_scope: '', Lit (uc_consent_scope c)])
      else participants_update i (set_consent now c))"

record update_license =
  ul_no_llm_training :: "bool option"
  ul_no_public_release :: "bool option"

definition set_license :: "update_license \<Rightarrow> participant \<Rightarrow> participant" where
  "set_license l p =
     p\<lparr>par_no_llm_training :=
         (case ul_no_llm_training l of Some b \<Rightarrow> b | None \<Rightarrow> par_no_llm_training p),
       par_no_public_release :=
         (case ul_no_public_release l of Some b \<Rightarrow> b | None \<Rightarrow> par_no_public_release p)\<rparr>"

definition participants_update_license :: "uuid \<Rightarrow> update_license \<Rightarrow> participant dbop" where
  "participants_update_license i l = participants_update i (set_license l)"

definition participants_mark_wiped :: "time \<Rightarrow> uuid \<Rightarrow> pseudo_id \<Rightarrow> unit dbop" where
  "participants_mark_wiped now sid p d =
     Inr ((), d\<lparr>t_participants :=
       update_rows (\<lambda>q. par_session_id q = sid \<and> par_pseudo_id q = p)
         (\<lambda>q. q\<lparr>par_data_wiped_at := Some now\<rparr>) (t_participants d)\<rparr>)"

text \<open>
  \<^verbatim>\<open>DELETE FROM session_participants WHERE session_id = $1\<close> of the session delete; the consent
  tokens of the rows go with them (\<^verbatim>\<open>ON DELETE CASCADE\<close>).
\<close>

definition participants_delete_for_session :: "uuid \<Rightarrow> unit dbop" where
  "participants_delete_for_session sid d =
     (let gone = map par_id (filter (\<lambda>p. par_session_id p = sid) (t_participants d))
      in Inr ((), d\<lparr>t_participants := delete_rows (\<lambda>p. par_session_id p = sid) (t_participants d),
                    t_consent_tokens :=
                      delete_rows (\<lambda>t. ct_participant_id t \<in> set gone) (t_consent_tokens d)\<rparr>))"

subsection \<open>Lemmas\<close>

lemma find_participant_SomeD:
  "find_participant i d = Some p \<Longrightarrow> p \<in> set (t_participants d) \<and> par_id p = i"
  unfolding find_participant_def by (auto dest: find_SomeD)

lemma find_participant_None:
  "find_participant i d = None \<longleftrightarrow> \<not> has_key par_id i (t_participants d)"
  unfolding find_participant_def by (rule find_key_None)

lemma par_unique_key_simps [simp]:
  "par_unique_key p = (sid, pid) \<longleftrightarrow> par_session_id p = sid \<and> par_pseudo_id p = pid"
  by (auto simp: par_unique_key_def)

lemma participants_update_eq_Inr:
  "participants_update i f d = Inr (p', d') \<longleftrightarrow>
     (\<exists>p. find_participant i d = Some p \<and> p' = f p \<and>
          d' = d\<lparr>t_participants := update_rows (\<lambda>p. par_id p = i) f (t_participants d)\<rparr>)"
  by (auto simp: participants_update_def split: option.splits)

text \<open>An update that keeps the keys and a legal scope keeps the constraints.\<close>

definition keeps_participant :: "(participant \<Rightarrow> participant) \<Rightarrow> bool" where
  "keeps_participant f \<longleftrightarrow> (\<forall>p. par_id (f p) = par_id p \<and> par_session_id (f p) = par_session_id p \<and>
     par_pseudo_id (f p) = par_pseudo_id p \<and>
     (case par_consent_scope (f p) of
        None \<Rightarrow> True | Some s \<Rightarrow> consent_scope_ok s \<or> par_consent_scope p = Some s))"

lemma participants_wf_update:
  assumes "participants_wf us ss ps" and f: "keeps_participant f"
  shows "participants_wf us ss (update_rows q f ps)"
proof -
  have keys: "map par_id (update_rows q f ps) = map par_id ps"
    "map par_unique_key (update_rows q f ps) = map par_unique_key ps"
    using f by (auto intro!: map_key_update_rows simp: keeps_participant_def par_unique_key_def)
  have scope: "case par_consent_scope (f p) of None \<Rightarrow> True | Some s \<Rightarrow> consent_scope_ok s"
    if "p \<in> set ps" for p
    using f assms(1) that unfolding keeps_participant_def participants_wf_def
    by (cases "par_consent_scope (f p)") (auto dest!: spec [of _ p] bspec [of _ _ p])
  show ?thesis
    using assms keys scope
    by (auto simp: participants_wf_def set_update_rows keeps_participant_def)
qed

lemma db_wf_participants_update:
  assumes "db_wf d" and f: "keeps_participant f"
  shows "db_wf (d\<lparr>t_participants := update_rows q f (t_participants d)\<rparr>)"
proof (rule db_wf_participants [OF assms(1)])
  show "participants_wf (t_users d) (t_sessions d) (update_rows q f (t_participants d))"
    using assms by (auto intro: participants_wf_update dest: db_wfD)
  show "keys_grow par_id (t_participants d) (update_rows q f (t_participants d))"
    using f by (intro keys_grow_update) (simp add: keeps_participant_def)
qed

lemma participants_update_wf:
  "keeps_participant f \<Longrightarrow> tx_pres db_wf (participants_update i f)"
  by (rule tx_presI) (auto simp: participants_update_eq_Inr intro: db_wf_participants_update)

lemma participants_update_consent_wf: "tx_pres db_wf (participants_update_consent now i c)"
  unfolding participants_update_consent_def
  by (auto intro!: pres_intros participants_update_wf
      simp: keeps_participant_def set_consent_def consent_scope_ok_def)

lemma participants_update_license_wf: "tx_pres db_wf (participants_update_license i l)"
  unfolding participants_update_license_def
  by (auto intro!: participants_update_wf split: option.splits
      simp: keeps_participant_def set_license_def)

lemma participants_mark_wiped_wf: "tx_pres db_wf (participants_mark_wiped now sid p)"
  by (rule tx_presI)
    (auto simp: participants_mark_wiped_def keeps_participant_def split: option.splits
      intro!: db_wf_participants_update)

lemma participant_upsert_row_wf: "tx_pres db_wf (participant_upsert_row now new_id sid a)"
proof (rule tx_presI)
  fix d p d' assume wf: "db_wf d" and ok: "participant_upsert_row now new_id sid a d = Inr (p, d')"
  show "db_wf d'"
  proof (cases "List.find (\<lambda>p. par_unique_key p = (sid, ap_pseudo_id a)) (t_participants d)")
    case None
    then have "\<not> has_key par_unique_key (sid, ap_pseudo_id a) (t_participants d)"
      by (rule find_key_None [THEN iffD1])
    with ok None wf db_wfD(4) [OF wf] show ?thesis
      by (auto simp: participant_upsert_row_def Let_def participants_wf_def has_key_iff_image
          new_participant_def par_unique_key_def
          intro!: db_wf_participants split: if_splits)
  next
    case (Some q)
    then have q: "q \<in> set (t_participants d)" "par_unique_key q = (sid, ap_pseudo_id a)"
      by (auto dest!: find_SomeD)
    have same: "r = q" if "r \<in> set (t_participants d)" "par_unique_key r = (sid, ap_pseudo_id a)" for r
      using db_wfD(4) [OF wf] q that unfolding participants_wf_def distinct_map
      by (metis inj_onD)
    have "update_rows (\<lambda>q. par_unique_key q = (sid, ap_pseudo_id a))
            (\<lambda>_. q\<lparr>par_mid_session_join := ap_mid_session_join a\<rparr>) (t_participants d) =
          update_rows (\<lambda>q. par_unique_key q = (sid, ap_pseudo_id a))
            (\<lambda>r. r\<lparr>par_mid_session_join := ap_mid_session_join a\<rparr>) (t_participants d)"
      unfolding update_rows_def using same by (intro map_cong) auto
    moreover have "keeps_participant (\<lambda>r. r\<lparr>par_mid_session_join := ap_mid_session_join a\<rparr>)"
      by (auto simp: keeps_participant_def split: option.splits)
    ultimately show ?thesis
      using ok Some wf
      by (auto simp: participant_upsert_row_def Let_def split: if_splits
          intro: db_wf_participants_update)
  qed
qed

lemma participants_add_wf: "tx_pres db_wf (participants_add now new_id sid a)"
  unfolding participants_add_def
  by (intro pres_intros users_upsert_wf participant_upsert_row_wf)

lemma seed_users_wf: "tx_pres db_wf (seed_users now ps)"
  by (induction ps) (auto intro!: pres_intros users_upsert_wf)

lemma participant_upsert_rows_wf:
  "tx_pres db_wf (participant_upsert_rows now new_id k sid seen as)"
  by (induction as arbitrary: k seen) (auto intro!: pres_intros participant_upsert_row_wf)

lemma participants_add_many_wf: "tx_pres db_wf (participants_add_many now new_id sid inputs)"
  unfolding participants_add_many_def
  by (intro pres_intros seed_users_wf participant_upsert_rows_wf)

lemma participants_delete_for_session_wf: "tx_pres db_wf (participants_delete_for_session sid)"
proof (rule tx_presI)
  fix d u d' assume wf: "db_wf d" and ok: "participants_delete_for_session sid d = Inr (u, d')"
  let ?gone = "map par_id (filter (\<lambda>p. par_session_id p = sid) (t_participants d))"
  have "participants_wf (t_users d) (t_sessions d)
      (delete_rows (\<lambda>p. par_session_id p = sid) (t_participants d))"
    using db_wfD(4) [OF wf] by (auto simp: participants_wf_def distinct_delete_rows)
  moreover have "consent_tokens_wf (t_users d) (t_sessions d)
      (delete_rows (\<lambda>p. par_session_id p = sid) (t_participants d))
      (delete_rows (\<lambda>t. ct_participant_id t \<in> set ?gone) (t_consent_tokens d))"
    using db_wfD(13) [OF wf]
    by (auto simp: consent_tokens_wf_def distinct_delete_rows has_key_iff_image image_iff)
  ultimately show "db_wf d'"
    using wf ok by (auto simp: participants_delete_for_session_def Let_def db_wf_def)
qed

lemmas participants_pres = participants_add_wf participants_add_many_wf
  participants_update_consent_wf participants_update_license_wf participants_mark_wiped_wf
  participants_delete_for_session_wf

end
