(* ===== verification/Db_Chunks.thy ===== *)
theory Db_Chunks
  imports Schema
begin

section \<open>Chunk metadata\<close>

text \<open>
  \<^verbatim>\<open>src/db/chunks.rs\<close>. The chunks of one \<open>stream\<close> (a session and a speaker) carry a
  server-assigned \<open>seq\<close>, computed by the insert itself as one more than the largest in the
  stream, in \<^verbatim>\<open>INTEGER\<close> arithmetic. \<open>chunks_set_s3_key\<close> is the \<^verbatim>\<open>UPDATE\<close> the upload route
  runs after the object is stored.
\<close>

definition in_stream :: "uuid \<Rightarrow> pseudo_id \<Rightarrow> chunk_row \<Rightarrow> bool" where
  "in_stream sid p c \<longleftrightarrow> ch_session_id c = sid \<and> ch_pseudo_id c = p"

definition stream_rows :: "uuid \<Rightarrow> pseudo_id \<Rightarrow> database \<Rightarrow> chunk_row list" where
  "stream_rows sid p d = filter (in_stream sid p) (t_chunks d)"

definition chunks_lookup_by_client_id ::
    "uuid \<Rightarrow> pseudo_id \<Rightarrow> string \<Rightarrow> database \<Rightarrow> chunk_row option" where
  "chunks_lookup_by_client_id sid p cid d =
     List.find (\<lambda>c. in_stream sid p c \<and> ch_client_chunk_id c = cid) (t_chunks d)"

text \<open>\<^verbatim>\<open>COALESCE((SELECT MAX(seq) ...), -1) + 1\<close>.\<close>

definition max_seq :: "chunk_row list \<Rightarrow> int option" where
  "max_seq cs = (case cs of [] \<Rightarrow> None | c # cs' \<Rightarrow> Some (fold max (map ch_seq cs') (ch_seq c)))"

definition next_seq :: "uuid \<Rightarrow> pseudo_id \<Rightarrow> database \<Rightarrow> int" where
  "next_seq sid p d = (case max_seq (stream_rows sid p d) of None \<Rightarrow> -1 | Some m \<Rightarrow> m) + 1"

definition chunks_insert ::
    "time \<Rightarrow> uuid \<Rightarrow> pseudo_id \<Rightarrow> string \<Rightarrow> int \<Rightarrow> time \<Rightarrow> int \<Rightarrow> string \<Rightarrow> chunk_row dbop" where
  "chunks_insert now sid p s3_key size_bytes capture_started_at duration_ms cid d =
     (let seq = next_seq sid p d;
          c = \<lparr>ch_session_id = sid, ch_pseudo_id = p, ch_seq = seq, ch_s3_key = s3_key,
               ch_size_bytes = size_bytes, ch_capture_started_at = capture_started_at,
               ch_duration_ms = duration_ms, ch_client_chunk_id = cid, ch_created_at = now\<rparr>
      in if \<not> in_int4 seq then db_fail Numeric_out_of_range
         else if \<not> chunk_pid_ok p then db_fail (Check_violation ''session_chunks_pseudo_id_check'')
         else if has_key chunk_seq_key (sid, p, seq) (t_chunks d)
         then db_fail (Unique_violation ''session_chunks_pkey'')
         else if has_key chunk_client_key (sid, p, cid) (t_chunks d)
         then db_fail (Unique_violation ''session_chunks_client_chunk_id_key'')
         else if \<not> has_key ses_id sid (t_sessions d)
         then db_fail (Foreign_key_violation ''session_chunks_session_id_fkey'')
         else Inr (c, d\<lparr>t_chunks := t_chunks d @ [c]\<rparr>))"

definition chunks_set_s3_key :: "string \<Rightarrow> uuid \<Rightarrow> pseudo_id \<Rightarrow> int \<Rightarrow> unit dbop" where
  "chunks_set_s3_key s3_key sid p seq d =
     Inr ((), d\<lparr>t_chunks := update_rows (\<lambda>c. in_stream sid p c \<and> ch_seq c = seq)
                  (\<lambda>c. c\<lparr>ch_s3_key := s3_key\<rparr>) (t_chunks d)\<rparr>)"

definition chunks_list :: "uuid \<Rightarrow> pseudo_id \<Rightarrow> database \<Rightarrow> chunk_row list" where
  "chunks_list sid p d = sort_key ch_seq (stream_rows sid p d)"

definition chunks_get :: "uuid \<Rightarrow> pseudo_id \<Rightarrow> int \<Rightarrow> database \<Rightarrow> chunk_row res" where
  "chunks_get sid p seq d =
     ok_or (NotFound [Lit ''chunk '', IntText seq, Lit '' not found for session '', UuidText sid,
                      Lit '' / '', Lit (pid_str p)])
       (List.find (\<lambda>c. in_stream sid p c \<and> ch_seq c = seq) (t_chunks d))"

definition chunks_delete_for_session :: "uuid \<Rightarrow> string list dbop" where
  "chunks_delete_for_session sid d =
     Inr (map ch_s3_key (filter (\<lambda>c. ch_session_id c = sid) (t_chunks d)),
          d\<lparr>t_chunks := delete_rows (\<lambda>c. ch_session_id c = sid) (t_chunks d)\<rparr>)"

definition chunks_delete_for_participant :: "uuid \<Rightarrow> pseudo_id \<Rightarrow> string list dbop" where
  "chunks_delete_for_participant sid p d =
     Inr (map ch_s3_key (stream_rows sid p d),
          d\<lparr>t_chunks := delete_rows (in_stream sid p) (t_chunks d)\<rparr>)"

subsection \<open>Streams without gaps\<close>

text \<open>
  The sequence numbers of every stream are \<open>0, 1, \<dots>\<close> in insertion order: no gap, no repeat,
  starting again at 0 after the stream has been wiped.
\<close>

definition streams_gapless :: "chunk_row list \<Rightarrow> bool" where
  "streams_gapless cs \<longleftrightarrow>
     (\<forall>sid p. let s = filter (in_stream sid p) cs in map ch_seq s = map int [0..<length s])"

lemma streams_gaplessD:
  "streams_gapless cs \<Longrightarrow> filter (in_stream sid p) cs = s \<Longrightarrow> map ch_seq s = map int [0..<length s]"
  by (auto simp: streams_gapless_def Let_def)

lemma fold_max_upt: "fold max (map int [1..<Suc n]) (0 :: int) = int n"
  by (induction n) (auto simp: max_def)

lemma max_seq_gapless:
  assumes "map ch_seq cs = map int [0..<length cs]"
  shows "max_seq cs = (if cs = [] then None else Some (int (length cs) - 1))"
proof (cases cs)
  case Nil
  then show ?thesis by (simp add: max_seq_def)
next
  case (Cons c cs')
  have "map ch_seq (c # cs') = map int (0 # [1..<Suc (length cs')])"
    using assms by (simp only: Cons length_Cons upt_conv_Cons) (simp add: upt_conv_Cons)
  then have "ch_seq c = 0" and "map ch_seq cs' = map int [1..<Suc (length cs')]"
    by simp_all
  then show ?thesis
    using fold_max_upt [of "length cs'"] by (simp add: max_seq_def Cons)
qed

lemma next_seq_gapless:
  assumes "streams_gapless (t_chunks d)"
  shows "next_seq sid p d = int (length (stream_rows sid p d))"
proof -
  have "map ch_seq (stream_rows sid p d) = map int [0..<length (stream_rows sid p d)]"
    using assms streams_gaplessD stream_rows_def by metis
  from max_seq_gapless [OF this] show ?thesis
    by (cases "stream_rows sid p d") (simp_all add: next_seq_def)
qed

lemma chunks_insert_eq_Inr:
  "chunks_insert now sid p k sz cap dur cid d = Inr (c, d') \<longleftrightarrow>
     in_int4 (next_seq sid p d) \<and> chunk_pid_ok p \<and>
     \<not> has_key chunk_seq_key (sid, p, next_seq sid p d) (t_chunks d) \<and>
     \<not> has_key chunk_client_key (sid, p, cid) (t_chunks d) \<and> has_key ses_id sid (t_sessions d) \<and>
     c = \<lparr>ch_session_id = sid, ch_pseudo_id = p, ch_seq = next_seq sid p d, ch_s3_key = k,
          ch_size_bytes = sz, ch_capture_started_at = cap, ch_duration_ms = dur,
          ch_client_chunk_id = cid, ch_created_at = now\<rparr> \<and>
     d' = d\<lparr>t_chunks := t_chunks d @ [c]\<rparr>"
  by (auto simp: chunks_insert_def Let_def)

text \<open>A row added at the end keeps the numbers gapless exactly if it has the next number of its stream.\<close>

lemma streams_gapless_snoc:
  assumes g: "streams_gapless cs" and c: "in_stream sid p c"
  shows "streams_gapless (cs @ [c]) \<longleftrightarrow> ch_seq c = int (length (filter (in_stream sid p) cs))"
    (is "_ \<longleftrightarrow> ?next")
proof
  assume "streams_gapless (cs @ [c])"
  from streams_gaplessD [OF this refl, of sid p] show ?next
    using streams_gaplessD [OF g refl, of sid p] c by simp
next
  assume next': ?next
  have "map ch_seq (filter (in_stream sid' p') (cs @ [c])) =
      map int [0..<length (filter (in_stream sid' p') (cs @ [c]))]" for sid' p'
  proof (cases "in_stream sid' p' c")
    case True
    with c have "sid' = sid" "p' = p" by (simp_all add: in_stream_def)
    with streams_gaplessD [OF g refl, of sid p] next' c show ?thesis by simp
  next
    case False
    with streams_gaplessD [OF g refl, of sid' p'] show ?thesis by simp
  qed
  then show "streams_gapless (cs @ [c])" by (simp add: streams_gapless_def Let_def)
qed

lemma streams_gapless_next:
  assumes g: "streams_gapless (t_chunks d)"
    and c: "ch_seq c = next_seq (ch_session_id c) (ch_pseudo_id c) d"
  shows "streams_gapless (t_chunks d @ [c])"
  using streams_gapless_snoc [OF g, of "ch_session_id c" "ch_pseudo_id c"] c
  by (simp add: next_seq_gapless [OF g] in_stream_def stream_rows_def)

lemma chunks_insert_gapless:
  assumes g: "streams_gapless (t_chunks d)"
    and ok: "chunks_insert now sid p k sz cap dur cid d = Inr (c, d')"
  shows "streams_gapless (t_chunks d')"
proof -
  have "in_stream sid p c" using ok by (simp add: chunks_insert_eq_Inr in_stream_def)
  with streams_gapless_snoc [OF g this] next_seq_gapless [OF g, of sid p] ok show ?thesis
    by (simp add: chunks_insert_eq_Inr stream_rows_def)
qed

lemma streams_gapless_update:
  assumes "streams_gapless cs" and "\<And>c. chunk_seq_key (f c) = chunk_seq_key c"
  shows "streams_gapless (update_rows q f cs)"
proof -
  have f: "in_stream sid p (f c) = in_stream sid p c" "ch_seq (f c) = ch_seq c" for sid p c
    using assms(2) [of c] by (auto simp: chunk_seq_key_def in_stream_def)
  have "map ch_seq (filter (in_stream sid p) (update_rows q f cs)) =
        map ch_seq (filter (in_stream sid p) cs)" for sid p
    by (induction cs) (auto simp: f)
  moreover from this have "length (filter (in_stream sid p) (update_rows q f cs)) =
        length (filter (in_stream sid p) cs)" for sid p
    by (metis length_map)
  ultimately show ?thesis using assms(1) by (simp add: streams_gapless_def Let_def)
qed

lemma streams_gapless_delete:
  assumes g: "streams_gapless cs"
    and q: "\<And>c c'. chunk_stream c = chunk_stream c' \<Longrightarrow> q c = q c'"
  shows "streams_gapless (delete_rows q cs)"
proof -
  have "map ch_seq (filter (in_stream sid p) (delete_rows q cs)) =
      map int [0..<length (filter (in_stream sid p) (delete_rows q cs))]" for sid p
  proof (cases "\<exists>c \<in> set cs. in_stream sid p c \<and> q c")
    case True
    then obtain c where c: "in_stream sid p c" "q c" by blast
    have "q c'" if "in_stream sid p c'" for c'
      using q [of c' c] c that by (auto simp: in_stream_def chunk_stream_def)
    then have "filter (in_stream sid p) (delete_rows q cs) = []"
      by (auto simp: delete_rows_def filter_empty_conv)
    then show ?thesis by simp
  next
    case False
    then have "filter (in_stream sid p) (delete_rows q cs) = filter (in_stream sid p) cs"
      by (auto simp: delete_rows_def intro!: filter_cong)
    then show ?thesis using streams_gaplessD [OF g refl, of sid p] by simp
  qed
  then show ?thesis by (simp add: streams_gapless_def Let_def)
qed

subsection \<open>Streams in order\<close>

text \<open>
  Weaker, and true of every run: in every stream the numbers are not negative and grow from row to
  row.
\<close>

definition streams_rising :: "chunk_row list \<Rightarrow> bool" where
  "streams_rising cs \<longleftrightarrow> (\<forall>sid p. sorted_wrt (<) (map ch_seq (filter (in_stream sid p) cs))) \<and>
     (\<forall>c \<in> set cs. 0 \<le> ch_seq c)"

lemma max_seq_ge: "c \<in> set cs \<Longrightarrow> \<exists>m. max_seq cs = Some m \<and> ch_seq c \<le> m"
  by (cases cs) (auto simp: max_seq_def Max.set_eq_fold [symmetric])

lemma next_seq_above: "c \<in> set (stream_rows sid p d) \<Longrightarrow> ch_seq c < next_seq sid p d"
  using max_seq_ge [of c "stream_rows sid p d"] by (auto simp: next_seq_def)

lemma next_seq_nonneg: "streams_rising (t_chunks d) \<Longrightarrow> 0 \<le> next_seq sid p d"
proof (cases "stream_rows sid p d")
  case (Cons c cs)
  assume "streams_rising (t_chunks d)"
  moreover have c: "c \<in> set (stream_rows sid p d)" by (simp add: Cons)
  then have "c \<in> set (t_chunks d)" by (simp add: stream_rows_def)
  ultimately show ?thesis using next_seq_above [OF c] by (fastforce simp: streams_rising_def)
qed (simp add: next_seq_def max_seq_def)

lemma streams_rising_snoc:
  assumes "streams_rising cs" and "0 \<le> ch_seq c"
    and "\<And>r. r \<in> set cs \<Longrightarrow> chunk_stream r = chunk_stream c \<Longrightarrow> ch_seq r < ch_seq c"
  shows "streams_rising (cs @ [c])"
  using assms by (auto simp: streams_rising_def sorted_wrt_append in_stream_def chunk_stream_def)

lemma streams_rising_next:
  assumes "streams_rising (t_chunks d)" and "ch_seq c = next_seq (ch_session_id c) (ch_pseudo_id c) d"
  shows "streams_rising (t_chunks d @ [c])"
  using assms next_seq_nonneg [OF assms(1)] next_seq_above [of _ "ch_session_id c" "ch_pseudo_id c" d]
  by (intro streams_rising_snoc)
    (auto simp: stream_rows_def in_stream_def chunk_stream_def)

lemma streams_rising_delete: "streams_rising cs \<Longrightarrow> streams_rising (delete_rows q cs)"
proof -
  have "filter (in_stream sid p) (delete_rows q cs) =
      filter (\<lambda>c. \<not> q c) (filter (in_stream sid p) cs)" for sid p
    by (auto simp: delete_rows_def intro!: filter_cong)
  then show "streams_rising cs \<Longrightarrow> ?thesis"
    unfolding streams_rising_def by (simp add: sorted_wrt_map sorted_wrt_filter del: filter_filter)
qed

lemma gapless_rising:
  assumes "streams_gapless cs"
  shows "streams_rising cs"
proof -
  have seqs: "map ch_seq (filter (in_stream sid p) cs) =
      map int [0..<length (filter (in_stream sid p) cs)]" for sid p
    using streams_gaplessD [OF assms refl] .
  have "0 \<le> ch_seq c" if "c \<in> set cs" for c
  proof -
    have "c \<in> set (filter (in_stream (ch_session_id c) (ch_pseudo_id c)) cs)"
      using that by (simp add: in_stream_def)
    then have "ch_seq c \<in> set (map ch_seq (filter (in_stream (ch_session_id c) (ch_pseudo_id c)) cs))"
      by simp
    then show ?thesis unfolding seqs by auto
  qed
  moreover have "sorted_wrt (<) (map int [0..<n])" for n by (simp add: sorted_wrt_map)
  ultimately show ?thesis unfolding streams_rising_def seqs by blast
qed

subsection \<open>Constraints\<close>

lemma chunks_insert_wf: "tx_pres db_wf (chunks_insert now sid p k sz cap dur cid)"
  by (rule tx_presI)
    (auto simp: chunks_insert_eq_Inr chunks_wf_def has_key_iff_image chunk_seq_key_def
      chunk_client_key_def intro!: db_wf_leaf_tables dest: db_wfD(6))

lemma chunks_wf_update_key:
  "chunks_wf ss cs \<Longrightarrow> chunks_wf ss (update_rows q (\<lambda>c. c\<lparr>ch_s3_key := k\<rparr>) cs)"
  by (auto simp: chunks_wf_def set_update_rows map_key_update_rows chunk_seq_key_def
      chunk_client_key_def)

lemma chunks_set_s3_key_wf: "tx_pres db_wf (chunks_set_s3_key k sid p n)"
  by (rule tx_presI)
    (auto simp: chunks_set_s3_key_def intro!: db_wf_leaf_tables chunks_wf_update_key
      dest: db_wfD(6))

lemma chunks_wf_delete: "chunks_wf ss cs \<Longrightarrow> chunks_wf ss (delete_rows q cs)"
  by (auto simp: chunks_wf_def distinct_delete_rows)

lemma chunks_delete_wf:
  "tx_pres db_wf (chunks_delete_for_session sid)"
  "tx_pres db_wf (chunks_delete_for_participant sid p)"
  by (auto intro!: tx_presI db_wf_leaf_tables chunks_wf_delete dest: db_wfD(6)
      simp: chunks_delete_for_session_def chunks_delete_for_participant_def)

lemmas chunks_pres = chunks_insert_wf chunks_set_s3_key_wf chunks_delete_wf

text \<open>The lookup finds exactly the row inserted under a client chunk id.\<close>

lemma lookup_iff_has_key:
  "chunks_lookup_by_client_id sid p cid d = None \<longleftrightarrow>
     \<not> has_key chunk_client_key (sid, p, cid) (t_chunks d)"
proof -
  have "(\<lambda>c. in_stream sid p c \<and> ch_client_chunk_id c = cid) =
        (\<lambda>c. chunk_client_key c = (sid, p, cid))"
    by (auto simp: in_stream_def chunk_client_key_def)
  then show ?thesis by (simp add: chunks_lookup_by_client_id_def find_key_None)
qed

lemma lookup_SomeD:
  "chunks_lookup_by_client_id sid p cid d = Some c \<Longrightarrow>
   c \<in> set (t_chunks d) \<and> in_stream sid p c \<and> ch_client_chunk_id c = cid"
  unfolding chunks_lookup_by_client_id_def by (auto dest: find_SomeD)

end
