(* ===== verification/Db_Metadata.thy ===== *)
theory Db_Metadata
  imports Schema
begin

section \<open>The session metadata blob\<close>

text \<open>
  \<^verbatim>\<open>src/db/metadata.rs\<close>: one JSON document per session under an entity tag. Tags drawn by
  \<^verbatim>\<open>ETag::new_random\<close> are arguments. \<open>metadata_shallow_merge\<close> is one transaction: it compares
  the expected tag with the current one (a fresh random tag where no document exists), merges
  the top-level keys and stores the result under a new tag. The row it reads stays locked (\<^verbatim>\<open>FOR UPDATE\<close>)
  until it ends; \<open>Versioned\<close> splits it there and shows what the lock is good for.
\<close>

definition find_metadata :: "uuid \<Rightarrow> database \<Rightarrow> metadata_blob option" where
  "find_metadata sid d = List.find (\<lambda>m. md_session_id m = sid) (t_metadata d)"

definition metadata_get :: "uuid \<Rightarrow> database \<Rightarrow> metadata_blob res" where
  "metadata_get sid d =
     ok_or (NotFound [Lit ''metadata for session '', UuidText sid, Lit '' not found''])
       (find_metadata sid d)"

definition metadata_get_opt :: "uuid \<Rightarrow> database \<Rightarrow> metadata_blob option" where
  "metadata_get_opt sid d = find_metadata sid d"

text \<open>\<^verbatim>\<open>INSERT ... ON CONFLICT (session_id) DO UPDATE\<close>.\<close>

definition metadata_upsert :: "time \<Rightarrow> uuid \<Rightarrow> json \<Rightarrow> etag \<Rightarrow> metadata_blob dbop" where
  "metadata_upsert now sid blob tag d =
     (let m = \<lparr>md_session_id = sid, md_blob = blob, md_etag = tag, md_updated_at = now\<rparr>
      in case find_metadata sid d of
        Some _ \<Rightarrow>
          Inr (m, d\<lparr>t_metadata := update_rows (\<lambda>r. md_session_id r = sid) (\<lambda>_. m)
                      (t_metadata d)\<rparr>)
      | None \<Rightarrow>
          (if \<not> has_key ses_id sid (t_sessions d)
           then db_fail (Foreign_key_violation ''session_metadata_session_id_fkey'')
           else Inr (m, d\<lparr>t_metadata := t_metadata d @ [m]\<rparr>)))"

definition metadata_replace :: "time \<Rightarrow> etag \<Rightarrow> uuid \<Rightarrow> json \<Rightarrow> metadata_blob dbop" where
  "metadata_replace now tag sid blob = metadata_upsert now sid blob tag"

definition merge_shallow :: "json \<Rightarrow> json \<Rightarrow> json res" where
  "merge_shallow base patch =
     bind_res
       (case base of
          JObj m \<Rightarrow> Inr m
        | JNull \<Rightarrow> Inr []
        | _ \<Rightarrow> Inl (BadRequest [Lit
            ''existing metadata blob is not an object -- cannot shallow-merge'']))
       (\<lambda>base_obj. bind_res
          (case patch of
             JObj m \<Rightarrow> Inr m
           | _ \<Rightarrow> Inl (BadRequest [Lit ''patch body must be a JSON object'']))
          (\<lambda>patch_obj. Inr (JObj (obj_extend base_obj patch_obj))))"

text \<open>The tag check shared by the two \<^verbatim>\<open>If-Match\<close> paths.\<close>

definition check_expected :: "etag option \<Rightarrow> etag \<Rightarrow> unit res" where
  "check_expected expected current =
     (case expected of None \<Rightarrow> Inr ()
      | Some e \<Rightarrow> if e \<noteq> current then Inl (PreconditionFailed current) else Inr ())"

definition metadata_shallow_merge ::
    "time \<Rightarrow> etag \<Rightarrow> etag \<Rightarrow> uuid \<Rightarrow> etag option \<Rightarrow> json \<Rightarrow> metadata_blob dbop" where
  "metadata_shallow_merge now tag0 tag1 sid expected patch =
     tx_bind (tx_get (find_metadata sid)) (\<lambda>existing.
       let (base, current) =
         (case existing of Some r \<Rightarrow> (md_blob r, md_etag r) | None \<Rightarrow> (JObj [], tag0))
       in tx_bind (tx_lift (check_expected expected current)) (\<lambda>_.
          tx_bind (tx_lift (merge_shallow base patch)) (\<lambda>merged.
          metadata_upsert now sid merged tag1)))"

definition metadata_delete_for_session :: "uuid \<Rightarrow> unit dbop" where
  "metadata_delete_for_session sid d =
     Inr ((), d\<lparr>t_metadata := delete_rows (\<lambda>m. md_session_id m = sid) (t_metadata d)\<rparr>)"

subsection \<open>Lemmas\<close>

lemma find_metadata_None:
  "find_metadata sid d = None \<longleftrightarrow> \<not> has_key md_session_id sid (t_metadata d)"
  unfolding find_metadata_def by (rule find_key_None)

lemma check_expected_eq_Inr [simp]:
  "check_expected expected current = Inr u \<longleftrightarrow> expected = None \<or> expected = Some current"
  by (auto simp: check_expected_def split: option.splits)

lemma check_expected_stale:
  "e \<noteq> current \<Longrightarrow> check_expected (Some e) current = Inl (PreconditionFailed current)"
  by (simp add: check_expected_def)

lemma metadata_upsert_wf: "tx_pres db_wf (metadata_upsert now sid blob tag)"
proof (rule tx_presI)
  fix d m d' assume wf: "db_wf d" and ok: "metadata_upsert now sid blob tag d = Inr (m, d')"
  note mwf = db_wfD(5) [OF wf]
  show "db_wf d'"
  proof (cases "find_metadata sid d")
    case None
    then have "\<not> has_key md_session_id sid (t_metadata d)"
      by (simp add: find_metadata_None)
    with ok None wf mwf show ?thesis
      by (auto simp: metadata_upsert_def Let_def metadata_wf_def has_key_iff_image
          intro!: db_wf_leaf_tables split: if_splits)
  next
    case (Some r)
    then have r: "r \<in> set (t_metadata d)" "md_session_id r = sid"
      by (auto simp: find_metadata_def dest: find_SomeD)
    define m0 where "m0 = \<lparr>md_session_id = sid, md_blob = blob, md_etag = tag, md_updated_at = now\<rparr>"
    have "metadata_wf (t_sessions d)
        (update_rows (\<lambda>r. md_session_id r = sid) (\<lambda>_. m0) (t_metadata d))"
      using mwf r by (auto simp: metadata_wf_def set_update_rows map_key_update_rows m0_def)
    with ok Some wf show ?thesis
      by (auto simp: metadata_upsert_def Let_def m0_def intro!: db_wf_leaf_tables)
  qed
qed

lemma metadata_upsert_get:
  assumes "metadata_upsert now sid blob tag d = Inr (m, d')"
  shows "find_metadata sid d' = Some m" and "md_blob m = blob" and "md_etag m = tag"
    and "j \<noteq> sid \<Longrightarrow> find_metadata j d' = find_metadata j d"
  using assms
  by (auto simp: metadata_upsert_def Let_def find_metadata_def find_append
      find_replaced_same find_replaced_other split: option.splits if_splits)

lemma metadata_replace_wf: "tx_pres db_wf (metadata_replace now tag sid blob)"
  by (simp add: metadata_replace_def metadata_upsert_wf)

lemma metadata_shallow_merge_wf:
  "tx_pres db_wf (metadata_shallow_merge now tag0 tag1 sid expected patch)"
  unfolding metadata_shallow_merge_def
  by (auto intro!: pres_intros metadata_upsert_wf split: prod.splits)

lemma metadata_delete_wf: "tx_pres db_wf (metadata_delete_for_session sid)"
  by (rule tx_presI)
    (auto simp: metadata_delete_for_session_def metadata_wf_def distinct_delete_rows
      intro!: db_wf_leaf_tables dest: db_wfD(5))

lemmas metadata_pres = metadata_replace_wf metadata_shallow_merge_wf metadata_delete_wf

text \<open>The merge is the right-biased union of the two maps, and nothing else succeeds.\<close>

lemma merge_shallow_objects:
  "merge_shallow (JObj b) (JObj p) = Inr (JObj (obj_extend b p))"
  by (simp add: merge_shallow_def)

lemma merge_shallow_eq_Inr:
  "merge_shallow base patch = Inr r \<longleftrightarrow>
     (\<exists>b p. (base = JObj b \<or> base = JNull \<and> b = []) \<and> patch = JObj p \<and> r = JObj (obj_extend b p))"
  by (cases base; cases patch) (auto simp: merge_shallow_def)

end
