(* ===== verification/Db_Uniform.thy ===== *)
theory Db_Uniform
  imports Schema Db_Audit Db_Metadata
begin

section \<open>Uniform CRUD for segments, beats and scenes\<close>

text \<open>
  \<^verbatim>\<open>src/db/uniform.rs\<close>: one module for three tables, selected by a \<open>resource_table\<close>. A stored
  row is a \<open>pg_row\<close> (the columns of its table); \<open>row_from_pg\<close> decodes it into the outward
  \<open>uniform_row\<close> and validates the pseudo ids it finds, so that an insert whose row does not
  decode is rolled back with the transaction. Row ids and entity tags are drawn outside and
  arrive as a supply indexed by the row.
\<close>

datatype text_shape = Segment | TitleSummary

datatype resource_table = SEGMENTS | BEATS | SCENES

fun rt_table :: "resource_table \<Rightarrow> string" where
  "rt_table SEGMENTS = ''session_segments''"
| "rt_table BEATS = ''session_beats''"
| "rt_table SCENES = ''session_scenes''"

fun rt_shape :: "resource_table \<Rightarrow> text_shape" where
  "rt_shape SEGMENTS = Segment"
| "rt_shape BEATS = TitleSummary"
| "rt_shape SCENES = TitleSummary"

fun rt_resource_type :: "resource_table \<Rightarrow> string" where
  "rt_resource_type SEGMENTS = ''segment''"
| "rt_resource_type BEATS = ''beat''"
| "rt_resource_type SCENES = ''scene''"

fun uniform_table :: "resource_table \<Rightarrow> database \<Rightarrow> pg_row list" where
  "uniform_table SEGMENTS d = t_segments d"
| "uniform_table BEATS d = t_beats d"
| "uniform_table SCENES d = t_scenes d"

fun set_uniform_table :: "resource_table \<Rightarrow> pg_row list \<Rightarrow> database \<Rightarrow> database" where
  "set_uniform_table SEGMENTS rs d = d\<lparr>t_segments := rs\<rparr>"
| "set_uniform_table BEATS rs d = d\<lparr>t_beats := rs\<rparr>"
| "set_uniform_table SCENES rs d = d\<lparr>t_scenes := rs\<rparr>"

record uniform_row =
  un_id :: uuid
  un_session_id :: uuid
  un_client_id :: client_id
  un_pseudo_id :: "pseudo_id option"
  un_start_ms :: int
  un_end_ms :: int
  un_text :: "string option"
  un_title :: "string option"
  un_summary :: "string option"
  un_confidence :: "f64 option"
  un_flags :: json
  un_original :: "json option"
  un_etag :: etag
  un_author_service :: string
  un_author_user_pseudo_id :: "pseudo_id option"
  un_created_at :: time
  un_updated_at :: time

record create_input =
  ci_client_id :: client_id
  ci_start_ms :: int
  ci_end_ms :: int
  ci_pseudo_id :: "pseudo_id option"
  ci_text :: "string option"
  ci_title :: "string option"
  ci_summary :: "string option"
  ci_confidence :: "f64 option"
  ci_flags :: "json option"
  ci_original :: "json option"
  ci_author_user_pseudo_id :: "pseudo_id option"

record bulk_result =
  br_inserted :: "uniform_row list"
  br_deduplicated_client_ids :: "client_id list"

record patch_input =
  pi_text :: "string option"
  pi_title :: "string option"
  pi_summary :: "string option"
  pi_confidence :: "f64 option option"
  pi_start_ms :: "int option"
  pi_end_ms :: "int option"
  pi_flags :: "json option"
  pi_author_user_pseudo_id :: "pseudo_id option"

definition unwrap_or :: "'a \<Rightarrow> 'a option \<Rightarrow> 'a" where
  "unwrap_or y x = (case x of None \<Rightarrow> y | Some v \<Rightarrow> v)"

subsection \<open>Decoding a stored row\<close>

definition decode_opt_pid :: "string option \<Rightarrow> pseudo_id option res" where
  "decode_opt_pid x =
     (case x of None \<Rightarrow> Inr None
      | Some s \<Rightarrow> bind_res (from_pseudo_id_error (pseudo_id_new s)) (\<lambda>p. Inr (Some p)))"

text \<open>The natural columns as \<^verbatim>\<open>row_from_pg\<close> reads them for a shape: an absent column is \<open>None\<close>.\<close>

fun natural_pseudo :: "text_shape \<Rightarrow> natural_columns \<Rightarrow> string option" where
  "natural_pseudo Segment (SegmentColumns p t c) = p"
| "natural_pseudo _ _ = None"

fun natural_fields ::
    "text_shape \<Rightarrow> natural_columns \<Rightarrow>
     string option \<times> string option \<times> string option \<times> f64 option" where
  "natural_fields Segment (SegmentColumns p t c) = (Some t, None, None, c)"
| "natural_fields TitleSummary (TitleSummaryColumns ti su) = (None, Some ti, Some su, None)"
| "natural_fields _ _ = (None, None, None, None)"

definition row_from_pg :: "resource_table \<Rightarrow> pg_row \<Rightarrow> uniform_row res" where
  "row_from_pg rt r =
     bind_res (decode_opt_pid (natural_pseudo (rt_shape rt) (pg_natural r))) (\<lambda>pid.
     bind_res (decode_opt_pid (pg_author_user_pseudo_id r)) (\<lambda>author.
       let (te, ti, su, co) = natural_fields (rt_shape rt) (pg_natural r)
       in Inr \<lparr>un_id = pg_id r, un_session_id = pg_session_id r, un_client_id = pg_client_id r,
               un_pseudo_id = pid, un_start_ms = pg_start_ms r, un_end_ms = pg_end_ms r,
               un_text = te, un_title = ti, un_summary = su, un_confidence = co,
               un_flags = pg_flags r, un_original = pg_original r, un_etag = ETag (pg_etag r),
               un_author_service = pg_author_service r, un_author_user_pseudo_id = author,
               un_created_at = pg_created_at r, un_updated_at = pg_updated_at r\<rparr>))"

subsection \<open>Bulk insert\<close>

fun validate_inputs :: "resource_table \<Rightarrow> create_input list \<Rightarrow> unit res" where
  "validate_inputs rt [] = Inr ()"
| "validate_inputs rt (i # is) =
     (if rt_shape rt = Segment \<and> ci_text i = None then
        Inl (BadRequest [Lit ''segments require `text` (client_id='', Lit (ci_client_id i), Lit '')''])
      else if rt_shape rt = TitleSummary \<and> ci_title i = None then
        Inl (BadRequest [Lit (rt_resource_type rt), Lit '' rows require `title` (client_id='',
                         Lit (ci_client_id i), Lit '')''])
      else if ci_end_ms i < ci_start_ms i then
        Inl (BadRequest [Lit ''end_ms < start_ms (client_id='', Lit (ci_client_id i), Lit '')''])
      else validate_inputs rt is)"

definition pg_row_of ::
    "resource_table \<Rightarrow> time \<Rightarrow> uuid \<Rightarrow> uuid \<Rightarrow> string \<Rightarrow> create_input \<Rightarrow> etag \<Rightarrow> pg_row" where
  "pg_row_of rt now new_id sid author_service inp tag =
     \<lparr>pg_id = new_id, pg_session_id = sid, pg_client_id = ci_client_id inp,
      pg_start_ms = ci_start_ms inp, pg_end_ms = ci_end_ms inp,
      pg_natural =
        (case rt_shape rt of
           Segment \<Rightarrow> SegmentColumns (map_option pid_str (ci_pseudo_id inp))
                        (unwrap_or '''' (ci_text inp)) (ci_confidence inp)
         | TitleSummary \<Rightarrow> TitleSummaryColumns (unwrap_or '''' (ci_title inp))
                             (unwrap_or '''' (ci_summary inp))),
      pg_flags = unwrap_or (JObj []) (ci_flags inp), pg_original = ci_original inp,
      pg_etag = etag_str tag, pg_author_service = author_service,
      pg_author_user_pseudo_id = map_option pid_str (ci_author_user_pseudo_id inp),
      pg_created_at = now, pg_updated_at = now\<rparr>"

definition uniform_insert_pg :: "resource_table \<Rightarrow> pg_row \<Rightarrow> pg_row dbop" where
  "uniform_insert_pg rt r d =
     (if \<not> author_ok (pg_author_user_pseudo_id r)
      then db_fail (Check_violation (rt_table rt @ ''_author_user_pseudo_id_check''))
      else if has_key pg_id (pg_id r) (uniform_table rt d)
      then db_fail (Unique_violation (rt_table rt @ ''_pkey''))
      else if has_key pg_client_key (pg_client_key r) (uniform_table rt d)
      then db_fail (Unique_violation (rt_table rt @ ''_session_id_client_id_key''))
      else if \<not> has_key ses_id (pg_session_id r) (t_sessions d)
      then db_fail (Foreign_key_violation (rt_table rt @ ''_session_id_fkey''))
      else Inr (r, set_uniform_table rt (uniform_table rt d @ [r]) d))"

definition insert_row_in_tx ::
    "resource_table \<Rightarrow> time \<Rightarrow> uuid \<Rightarrow> uuid \<Rightarrow> string \<Rightarrow> create_input \<Rightarrow> etag \<Rightarrow>
     uniform_row dbop" where
  "insert_row_in_tx rt now new_id sid author_service inp tag =
     tx_bind (uniform_insert_pg rt (pg_row_of rt now new_id sid author_service inp tag))
       (\<lambda>r. tx_lift (row_from_pg rt r))"

fun insert_rows ::
    "resource_table \<Rightarrow> time \<Rightarrow> (nat \<Rightarrow> uuid) \<Rightarrow> (nat \<Rightarrow> etag) \<Rightarrow> nat \<Rightarrow> uuid \<Rightarrow> string \<Rightarrow>
     create_input list \<Rightarrow> uniform_row list dbop" where
  "insert_rows rt now new_id tags k sid svc [] = tx_return []"
| "insert_rows rt now new_id tags k sid svc (i # is) =
     tx_bind (insert_row_in_tx rt now (new_id k) sid svc i (tags k)) (\<lambda>row.
     tx_bind (insert_rows rt now new_id tags (Suc k) sid svc is) (\<lambda>rows.
     tx_return (row # rows)))"

definition existing_client_ids ::
    "resource_table \<Rightarrow> uuid \<Rightarrow> client_id list \<Rightarrow> database \<Rightarrow> client_id list" where
  "existing_client_ids rt sid submitted d =
     map pg_client_id
       (filter (\<lambda>r. pg_session_id r = sid \<and> pg_client_id r \<in> set submitted) (uniform_table rt d))"

definition uniform_bulk_insert ::
    "resource_table \<Rightarrow> time \<Rightarrow> (nat \<Rightarrow> uuid) \<Rightarrow> (nat \<Rightarrow> etag) \<Rightarrow> uuid \<Rightarrow> string \<Rightarrow>
     create_input list \<Rightarrow> bulk_result dbop" where
  "uniform_bulk_insert rt now new_id tags sid author_service inputs =
     (if inputs = [] then tx_return \<lparr>br_inserted = [], br_deduplicated_client_ids = []\<rparr>
      else
        tx_bind (tx_lift (validate_inputs rt inputs)) (\<lambda>_.
        tx_bind (tx_get (existing_client_ids rt sid (map ci_client_id inputs))) (\<lambda>existing.
        tx_bind (insert_rows rt now new_id tags 0 sid author_service
                   (filter (\<lambda>i. ci_client_id i \<notin> set existing) inputs)) (\<lambda>inserted.
        tx_return \<lparr>br_inserted = inserted, br_deduplicated_client_ids = existing\<rparr>))))"

subsection \<open>Get, list, patch, delete\<close>

definition row_not_found :: "resource_table \<Rightarrow> uuid \<Rightarrow> app_error" where
  "row_not_found rt i =
     NotFound [Lit (rt_resource_type rt), Lit '' '', UuidText i, Lit '' not found'']"

definition find_pg :: "resource_table \<Rightarrow> uuid \<Rightarrow> database \<Rightarrow> pg_row option" where
  "find_pg rt i d = List.find (\<lambda>r. pg_id r = i) (uniform_table rt d)"

definition uniform_get :: "resource_table \<Rightarrow> uuid \<Rightarrow> database \<Rightarrow> uniform_row res" where
  "uniform_get rt i d =
     bind_res (ok_or (row_not_found rt i) (find_pg rt i d)) (row_from_pg rt)"

fun collect_rows :: "resource_table \<Rightarrow> pg_row list \<Rightarrow> uniform_row list res" where
  "collect_rows rt [] = Inr []"
| "collect_rows rt (r # rs) =
     bind_res (row_from_pg rt r) (\<lambda>u. bind_res (collect_rows rt rs) (\<lambda>us. Inr (u # us)))"

text \<open>
  The statement names the column \<^verbatim>\<open>pseudo_id\<close> for every table; only \<^verbatim>\<open>session_segments\<close> has it,
  and Postgres rejects a statement with an unknown column before it runs.
\<close>

definition has_pseudo_id_column :: "resource_table \<Rightarrow> bool" where
  "has_pseudo_id_column rt \<longleftrightarrow> rt = SEGMENTS"

definition uniform_list_by_session ::
    "resource_table \<Rightarrow> uuid \<Rightarrow> pseudo_id option \<Rightarrow> int option \<Rightarrow> database \<Rightarrow>
     uniform_row list res" where
  "uniform_list_by_session rt sid pid since_ms d =
     (if \<not> has_pseudo_id_column rt then db_fail (Undefined_column ''pseudo_id'')
      else collect_rows rt
        (sort_key pg_start_ms (sort_key pg_id
          (filter (\<lambda>r. pg_session_id r = sid \<and>
              opt_matches pid (\<lambda>p. natural_pseudo Segment (pg_natural r) = Some (pid_str p)) \<and>
              opt_matches since_ms (\<lambda>t. t \<le> pg_start_ms r)) (uniform_table rt d)))))"

definition apply_patch :: "resource_table \<Rightarrow> patch_input \<Rightarrow> uniform_row \<Rightarrow> uniform_row" where
  "apply_patch rt p existing =
     (let out = existing\<lparr>un_start_ms := unwrap_or (un_start_ms existing) (pi_start_ms p),
                         un_end_ms := unwrap_or (un_end_ms existing) (pi_end_ms p),
                         un_flags := unwrap_or (un_flags existing) (pi_flags p)\<rparr>
      in case rt_shape rt of
        Segment \<Rightarrow>
          out\<lparr>un_text := (case pi_text p of Some t \<Rightarrow> Some t | None \<Rightarrow> un_text out),
              un_confidence := unwrap_or (un_confidence out) (pi_confidence p)\<rparr>
      | TitleSummary \<Rightarrow>
          out\<lparr>un_title := (case pi_title p of Some t \<Rightarrow> Some t | None \<Rightarrow> un_title out),
              un_summary := (case pi_summary p of Some t \<Rightarrow> Some t | None \<Rightarrow> un_summary out)\<rparr>)"

text \<open>The columns the \<^verbatim>\<open>UPDATE\<close> of \<^verbatim>\<open>patch\<close> writes.\<close>

fun update_natural :: "text_shape \<Rightarrow> uniform_row \<Rightarrow> natural_columns \<Rightarrow> natural_columns" where
  "update_natural Segment u (SegmentColumns p _ _) =
     SegmentColumns p (unwrap_or '''' (un_text u)) (un_confidence u)"
| "update_natural TitleSummary u (TitleSummaryColumns _ _) =
     TitleSummaryColumns (unwrap_or '''' (un_title u)) (unwrap_or '''' (un_summary u))"
| "update_natural _ u n = n"

definition update_pg ::
    "resource_table \<Rightarrow> time \<Rightarrow> etag \<Rightarrow> uniform_row \<Rightarrow> pseudo_id option \<Rightarrow> pg_row \<Rightarrow> pg_row" where
  "update_pg rt now tag patched author r =
     r\<lparr>pg_start_ms := un_start_ms patched, pg_end_ms := un_end_ms patched,
       pg_natural := update_natural (rt_shape rt) patched (pg_natural r),
       pg_flags := un_flags patched, pg_etag := etag_str tag,
       pg_author_user_pseudo_id :=
         (case author of Some p \<Rightarrow> Some (pid_str p) | None \<Rightarrow> pg_author_user_pseudo_id r),
       pg_updated_at := now\<rparr>"

definition uniform_update_pg ::
    "resource_table \<Rightarrow> uuid \<Rightarrow> (pg_row \<Rightarrow> pg_row) \<Rightarrow> pg_row dbop" where
  "uniform_update_pg rt i f d =
     (case find_pg rt i d of
        None \<Rightarrow> db_fail Row_not_found
      | Some r \<Rightarrow>
          (if \<not> author_ok (pg_author_user_pseudo_id (f r))
           then db_fail (Check_violation (rt_table rt @ ''_author_user_pseudo_id_check''))
           else Inr (f r, set_uniform_table rt
                  (update_rows (\<lambda>r. pg_id r = i) f (uniform_table rt d)) d)))"

definition uniform_patch ::
    "resource_table \<Rightarrow> time \<Rightarrow> etag \<Rightarrow> uuid \<Rightarrow> etag option \<Rightarrow> patch_input \<Rightarrow>
     uniform_row dbop" where
  "uniform_patch rt now new_etag i expected p =
     tx_bind (\<lambda>d. case find_pg rt i d of None \<Rightarrow> Inl (row_not_found rt i) | Some r \<Rightarrow> Inr (r, d))
       (\<lambda>existing.
     tx_bind (tx_lift (row_from_pg rt existing)) (\<lambda>existing_row.
     tx_bind (tx_lift (check_expected expected (un_etag existing_row))) (\<lambda>_.
     tx_bind (uniform_update_pg rt i
                (update_pg rt now new_etag (apply_patch rt p existing_row)
                   (pi_author_user_pseudo_id p))) (\<lambda>r.
     tx_lift (row_from_pg rt r)))))"

text \<open>
  \<^verbatim>\<open>DELETE ... RETURNING *\<close> commits on its own; a row that does not decode is still deleted.
\<close>

definition uniform_delete ::
    "resource_table \<Rightarrow> uuid \<Rightarrow> (app_error, database, uniform_row) handler" where
  "uniform_delete rt i d =
     (case find_pg rt i d of
        None \<Rightarrow> (Inl (row_not_found rt i), d)
      | Some r \<Rightarrow> (row_from_pg rt r,
          set_uniform_table rt (delete_rows (\<lambda>r. pg_id r = i) (uniform_table rt d)) d))"

definition uniform_delete_all_for_session :: "resource_table \<Rightarrow> uuid \<Rightarrow> int dbop" where
  "uniform_delete_all_for_session rt sid d =
     (let p = (\<lambda>r. pg_session_id r = sid)
      in Inr (int (length (filter p (uniform_table rt d))),
              set_uniform_table rt (delete_rows p (uniform_table rt d)) d))"

definition of_participant :: "uuid \<Rightarrow> pseudo_id \<Rightarrow> pg_row \<Rightarrow> bool" where
  "of_participant sid pid r \<longleftrightarrow>
     pg_session_id r = sid \<and> natural_pseudo Segment (pg_natural r) = Some (pid_str pid)"

definition uniform_delete_for_participant_segments :: "uuid \<Rightarrow> pseudo_id \<Rightarrow> int dbop" where
  "uniform_delete_for_participant_segments sid pid d =
     Inr (int (length (filter (of_participant sid pid) (t_segments d))),
          d\<lparr>t_segments := delete_rows (of_participant sid pid) (t_segments d)\<rparr>)"

subsection \<open>The three tables\<close>

lemma uniform_table_set [simp]:
  "uniform_table rt' (set_uniform_table rt rs d) = (if rt' = rt then rs else uniform_table rt' d)"
  by (cases rt; cases rt') simp_all

lemma set_uniform_table_other [simp]:
  "t_users (set_uniform_table rt rs d) = t_users d"
  "t_sessions (set_uniform_table rt rs d) = t_sessions d"
  "t_participants (set_uniform_table rt rs d) = t_participants d"
  "t_metadata (set_uniform_table rt rs d) = t_metadata d"
  "t_chunks (set_uniform_table rt rs d) = t_chunks d"
  "t_mute_ranges (set_uniform_table rt rs d) = t_mute_ranges d"
  "t_audit_log (set_uniform_table rt rs d) = t_audit_log d"
  "t_consent_tokens (set_uniform_table rt rs d) = t_consent_tokens d"
  by (cases rt; simp)+

lemma uniform_table_wf: "db_wf d \<Longrightarrow> uniform_wf (t_sessions d) (uniform_table rt d)"
  by (cases rt) (auto dest: db_wfD)

lemma db_wf_set_uniform:
  "db_wf d \<Longrightarrow> uniform_wf (t_sessions d) rs \<Longrightarrow> db_wf (set_uniform_table rt rs d)"
  by (cases rt) (auto intro: db_wf_leaf_tables)

lemma uniform_wf_delete: "uniform_wf ss rs \<Longrightarrow> uniform_wf ss (delete_rows q rs)"
  by (auto simp: uniform_wf_def distinct_delete_rows)

lemma uniform_insert_pg_eq_Inr:
  "uniform_insert_pg rt r d = Inr (r', d') \<longleftrightarrow>
     author_ok (pg_author_user_pseudo_id r) \<and> \<not> has_key pg_id (pg_id r) (uniform_table rt d) \<and>
     \<not> has_key pg_client_key (pg_client_key r) (uniform_table rt d) \<and>
     has_key ses_id (pg_session_id r) (t_sessions d) \<and> r' = r \<and>
     d' = set_uniform_table rt (uniform_table rt d @ [r]) d"
  by (auto simp: uniform_insert_pg_def)

lemma uniform_insert_pg_wf: "tx_pres db_wf (uniform_insert_pg rt r)"
proof (rule tx_presI)
  fix d r' d' assume wf: "db_wf d" and ok: "uniform_insert_pg rt r d = Inr (r', d')"
  have "uniform_wf (t_sessions d) (uniform_table rt d @ [r])"
    using uniform_table_wf [OF wf, of rt] ok
    by (auto simp: uniform_insert_pg_eq_Inr uniform_wf_def has_key_iff_image)
  with wf ok show "db_wf d'" by (auto simp: uniform_insert_pg_eq_Inr intro: db_wf_set_uniform)
qed

lemma insert_row_in_tx_wf: "tx_pres db_wf (insert_row_in_tx rt now i sid svc inp tag)"
  unfolding insert_row_in_tx_def by (intro pres_intros uniform_insert_pg_wf)

lemma insert_rows_wf: "tx_pres db_wf (insert_rows rt now ids tags k sid svc is)"
  by (induction "is" arbitrary: k) (auto intro!: pres_intros insert_row_in_tx_wf)

lemma uniform_bulk_insert_wf: "tx_pres db_wf (uniform_bulk_insert rt now ids tags sid svc inputs)"
  unfolding uniform_bulk_insert_def by (intro pres_intros insert_rows_wf)

lemma find_pg_SomeD: "find_pg rt i d = Some r \<Longrightarrow> r \<in> set (uniform_table rt d) \<and> pg_id r = i"
  unfolding find_pg_def by (auto dest: find_SomeD)

lemma find_pg_Some_iff:
  "db_wf d \<Longrightarrow> find_pg rt i d = Some r \<longleftrightarrow> r \<in> set (uniform_table rt d) \<and> pg_id r = i"
  unfolding find_pg_def
  by (rule find_key_Some_distinct) (simp add: uniform_table_wf [unfolded uniform_wf_def])

lemma update_pg_keys [simp]:
  "pg_id (update_pg rt now tag u a r) = pg_id r"
  "pg_session_id (update_pg rt now tag u a r) = pg_session_id r"
  "pg_client_id (update_pg rt now tag u a r) = pg_client_id r"
  "pg_client_key (update_pg rt now tag u a r) = pg_client_key r"
  "pg_etag (update_pg rt now tag u a r) = etag_str tag"
  "pg_original (update_pg rt now tag u a r) = pg_original r"
  by (simp_all add: update_pg_def pg_client_key_def)

lemma uniform_update_pg_eq_Inr:
  "uniform_update_pg rt i f d = Inr (r', d') \<longleftrightarrow>
     (\<exists>r. find_pg rt i d = Some r \<and> author_ok (pg_author_user_pseudo_id (f r)) \<and> r' = f r \<and>
        d' = set_uniform_table rt (update_rows (\<lambda>r. pg_id r = i) f (uniform_table rt d)) d)"
  by (auto simp: uniform_update_pg_def split: option.splits)

lemma uniform_update_pg_wf:
  assumes f: "\<And>r. pg_id (f r) = pg_id r" "\<And>r. pg_client_key (f r) = pg_client_key r"
  shows "tx_pres db_wf (uniform_update_pg rt i f)"
proof (rule tx_presI)
  fix d r' d' assume wf: "db_wf d" and ok: "uniform_update_pg rt i f d = Inr (r', d')"
  from ok obtain r where r: "find_pg rt i d = Some r" "author_ok (pg_author_user_pseudo_id (f r))"
    and d': "d' = set_uniform_table rt (update_rows (\<lambda>r. pg_id r = i) f (uniform_table rt d)) d"
    by (auto simp: uniform_update_pg_eq_Inr)
  have only: "q = r" if "q \<in> set (uniform_table rt d)" "pg_id q = i" for q
    using r(1) that find_pg_Some_iff [OF wf] by (metis option.inject)
  have sess: "pg_session_id (f q) = pg_session_id q" for q
    using f(2) [of q] by (simp add: pg_client_key_def)
  have "uniform_wf (t_sessions d) (update_rows (\<lambda>r. pg_id r = i) f (uniform_table rt d))"
    using uniform_table_wf [OF wf, of rt] r(2) f only
    by (auto simp: uniform_wf_def map_key_update_rows set_update_rows sess)
  with wf show "db_wf d'" unfolding d' by (rule db_wf_set_uniform)
qed

lemma uniform_patch_wf: "tx_pres db_wf (uniform_patch rt now tag i expected p)"
proof -
  have "tx_pres db_wf (\<lambda>d. case find_pg rt i d of None \<Rightarrow> Inl (row_not_found rt i)
                         | Some r \<Rightarrow> Inr (r, d))"
    by (rule tx_presI) (auto split: option.splits)
  then show ?thesis
    unfolding uniform_patch_def by (intro pres_intros uniform_update_pg_wf) simp_all
qed

lemma uniform_delete_wf: "h_pres db_wf (uniform_delete rt i)"
  by (rule h_presI)
    (auto simp: uniform_delete_def split: option.splits
      intro!: db_wf_set_uniform uniform_wf_delete uniform_table_wf)

lemma uniform_delete_all_wf: "tx_pres db_wf (uniform_delete_all_for_session rt sid)"
  by (rule tx_presI)
    (auto simp: uniform_delete_all_for_session_def Let_def
      intro!: db_wf_set_uniform uniform_wf_delete uniform_table_wf)

lemma uniform_delete_for_participant_wf:
  "tx_pres db_wf (uniform_delete_for_participant_segments sid pid)"
  by (rule tx_presI)
    (auto simp: uniform_delete_for_participant_segments_def
      intro!: db_wf_leaf_tables uniform_wf_delete dest: db_wfD(7))

lemmas uniform_pres = uniform_bulk_insert_wf uniform_patch_wf uniform_delete_all_wf
  uniform_delete_for_participant_wf

subsection \<open>Decoding\<close>

lemma decode_opt_pid_eq_Inr:
  "decode_opt_pid x = Inr y \<longleftrightarrow> author_ok x \<and> y = map_option PseudoId x"
  by (cases x) (auto simp: decode_opt_pid_def author_ok_def bind_res_eq_Inr)

lemma row_from_pg_eq_Inr:
  "(\<exists>u. row_from_pg rt r = Inr u) \<longleftrightarrow>
     author_ok (natural_pseudo (rt_shape rt) (pg_natural r)) \<and>
     author_ok (pg_author_user_pseudo_id r)"
  by (auto simp: row_from_pg_def bind_res_eq_Inr decode_opt_pid_eq_Inr split: prod.splits)

lemma row_from_pg_fields:
  assumes "row_from_pg rt r = Inr u"
  shows "un_id u = pg_id r" "un_session_id u = pg_session_id r" "un_client_id u = pg_client_id r"
    "un_start_ms u = pg_start_ms r" "un_end_ms u = pg_end_ms r" "un_etag u = ETag (pg_etag r)"
    "un_flags u = pg_flags r" "un_original u = pg_original r"
    "un_author_service u = pg_author_service r"
    "un_author_user_pseudo_id u = map_option PseudoId (pg_author_user_pseudo_id r)"
  using assms
  by (auto simp: row_from_pg_def bind_res_eq_Inr decode_opt_pid_eq_Inr split: prod.splits)

text \<open>Every stored row decodes: what the reads rely on and every write keeps.\<close>

definition rows_decode :: "resource_table \<Rightarrow> pg_row list \<Rightarrow> bool" where
  "rows_decode rt rs \<longleftrightarrow> (\<forall>r \<in> set rs. \<exists>u. row_from_pg rt r = Inr u)"

definition all_rows_decode :: "database \<Rightarrow> bool" where
  "all_rows_decode d \<longleftrightarrow> (\<forall>rt. rows_decode rt (uniform_table rt d))"

lemma all_rows_decode_set:
  "all_rows_decode d \<Longrightarrow> rows_decode rt rs \<Longrightarrow> all_rows_decode (set_uniform_table rt rs d)"
  by (auto simp: all_rows_decode_def)

lemma insert_row_in_tx_eq_Inr:
  "insert_row_in_tx rt now i sid svc inp tag d = Inr (u, d') \<longleftrightarrow>
     uniform_insert_pg rt (pg_row_of rt now i sid svc inp tag) d =
       Inr (pg_row_of rt now i sid svc inp tag, d') \<and>
     row_from_pg rt (pg_row_of rt now i sid svc inp tag) = Inr u"
  by (auto simp: insert_row_in_tx_def tx_bind_eq_Inr uniform_insert_pg_eq_Inr)

lemma insert_row_decode: "tx_pres all_rows_decode (insert_row_in_tx rt now i sid svc inp tag)"
proof (rule tx_presI)
  fix d u d' assume dec: "all_rows_decode d"
    and ok: "insert_row_in_tx rt now i sid svc inp tag d = Inr (u, d')"
  let ?r = "pg_row_of rt now i sid svc inp tag"
  have "rows_decode rt (uniform_table rt d @ [?r])"
    using dec ok by (auto simp: all_rows_decode_def rows_decode_def insert_row_in_tx_eq_Inr)
  then show "all_rows_decode d'"
    using dec ok
    by (auto simp: insert_row_in_tx_eq_Inr uniform_insert_pg_eq_Inr intro: all_rows_decode_set)
qed

lemma insert_rows_decode: "tx_pres all_rows_decode (insert_rows rt now ids tags k sid svc is)"
  by (induction "is" arbitrary: k) (auto intro!: pres_intros insert_row_decode)

lemma uniform_bulk_insert_decode:
  "tx_pres all_rows_decode (uniform_bulk_insert rt now ids tags sid svc inputs)"
  unfolding uniform_bulk_insert_def by (intro pres_intros insert_rows_decode)

lemma rows_decode_delete: "rows_decode rt rs \<Longrightarrow> rows_decode rt (delete_rows q rs)"
  by (auto simp: rows_decode_def)

lemma all_rows_decodeD: "all_rows_decode d \<Longrightarrow> rows_decode rt (uniform_table rt d)"
  by (simp add: all_rows_decode_def)

lemma uniform_delete_decode:
  "h_pres all_rows_decode (uniform_delete rt i)"
  "tx_pres all_rows_decode (uniform_delete_all_for_session rt sid)"
  by (auto intro!: h_presI tx_presI all_rows_decode_set rows_decode_delete all_rows_decodeD
      simp: uniform_delete_def uniform_delete_all_for_session_def Let_def split: option.splits)

lemma uniform_delete_for_participant_decode:
  "tx_pres all_rows_decode (uniform_delete_for_participant_segments sid pid)"
proof (rule tx_presI)
  fix d n d' assume dec: "all_rows_decode d"
    and ok: "uniform_delete_for_participant_segments sid pid d = Inr (n, d')"
  have "d' = set_uniform_table SEGMENTS
      (delete_rows (of_participant sid pid) (uniform_table SEGMENTS d)) d"
    using ok by (auto simp: uniform_delete_for_participant_segments_def)
  then show "all_rows_decode d'"
    using all_rows_decode_set [OF dec rows_decode_delete [OF all_rows_decodeD [OF dec]]] by metis
qed

end
