(* ===== verification/Db_Mute.thy ===== *)
theory Db_Mute
  imports Schema
begin

section \<open>Mute ranges\<close>

text \<open>\<^verbatim>\<open>src/db/mute_ranges.rs\<close>: time overlays per participant, checked on creation.\<close>

record create_mute_range =
  cm_start_offset_ms :: int
  cm_end_offset_ms :: int
  cm_reason :: "string option"

definition of_speaker :: "uuid \<Rightarrow> pseudo_id \<Rightarrow> mute_range \<Rightarrow> bool" where
  "of_speaker sid p m \<longleftrightarrow> mu_session_id m = sid \<and> mu_pseudo_id m = p"

definition mute_ranges_create ::
    "time \<Rightarrow> uuid \<Rightarrow> uuid \<Rightarrow> pseudo_id \<Rightarrow> create_mute_range \<Rightarrow> mute_range dbop" where
  "mute_ranges_create now new_id sid p c d =
     (if cm_end_offset_ms c < cm_start_offset_ms c
      then Inl (BadRequest [Lit ''end_offset_ms < start_offset_ms''])
      else if \<not> valid_pid p then db_fail (Check_violation ''mute_ranges_pseudo_id_check'')
      else if has_key mu_id new_id (t_mute_ranges d)
      then db_fail (Unique_violation ''mute_ranges_pkey'')
      else if \<not> has_key ses_id sid (t_sessions d)
      then db_fail (Foreign_key_violation ''mute_ranges_session_id_fkey'')
      else let m = \<lparr>mu_id = new_id, mu_session_id = sid, mu_pseudo_id = p,
                    mu_start_offset_ms = cm_start_offset_ms c,
                    mu_end_offset_ms = cm_end_offset_ms c, mu_reason = cm_reason c,
                    mu_created_at = now\<rparr>
           in Inr (m, d\<lparr>t_mute_ranges := t_mute_ranges d @ [m]\<rparr>))"

definition mute_ranges_list :: "uuid \<Rightarrow> pseudo_id \<Rightarrow> database \<Rightarrow> mute_range list" where
  "mute_ranges_list sid p d =
     sort_key mu_start_offset_ms (filter (of_speaker sid p) (t_mute_ranges d))"

definition mute_ranges_delete_one :: "uuid \<Rightarrow> pseudo_id \<Rightarrow> uuid \<Rightarrow> mute_range dbop" where
  "mute_ranges_delete_one sid p range_id d =
     (case List.find (\<lambda>m. mu_id m = range_id \<and> of_speaker sid p m) (t_mute_ranges d) of
        None \<Rightarrow> Inl (NotFound [Lit ''mute range '', UuidText range_id, Lit '' not found''])
      | Some m \<Rightarrow>
          Inr (m, d\<lparr>t_mute_ranges :=
            delete_rows (\<lambda>m. mu_id m = range_id \<and> of_speaker sid p m) (t_mute_ranges d)\<rparr>))"

definition mute_ranges_delete_for_session :: "uuid \<Rightarrow> int dbop" where
  "mute_ranges_delete_for_session sid d =
     (let q = (\<lambda>m. mu_session_id m = sid)
      in Inr (int (length (filter q (t_mute_ranges d))),
              d\<lparr>t_mute_ranges := delete_rows q (t_mute_ranges d)\<rparr>))"

definition mute_ranges_delete_for_participant :: "uuid \<Rightarrow> pseudo_id \<Rightarrow> int dbop" where
  "mute_ranges_delete_for_participant sid p d =
     Inr (int (length (filter (of_speaker sid p) (t_mute_ranges d))),
          d\<lparr>t_mute_ranges := delete_rows (of_speaker sid p) (t_mute_ranges d)\<rparr>)"

definition mutes_ordered :: "mute_range list \<Rightarrow> bool" where
  "mutes_ordered ms \<longleftrightarrow> (\<forall>m \<in> set ms. mu_start_offset_ms m \<le> mu_end_offset_ms m)"

subsection \<open>Lemmas\<close>

lemma mute_ranges_create_wf: "tx_pres db_wf (mute_ranges_create now new_id sid p c)"
  by (rule tx_presI)
    (auto simp: mute_ranges_create_def Let_def mute_ranges_wf_def has_key_iff_image
      intro!: db_wf_leaf_tables dest: db_wfD(10) split: if_splits)

lemma mute_ranges_wf_delete: "mute_ranges_wf ss ms \<Longrightarrow> mute_ranges_wf ss (delete_rows q ms)"
  by (auto simp: mute_ranges_wf_def distinct_delete_rows)

lemma mute_ranges_delete_wf:
  "tx_pres db_wf (mute_ranges_delete_one sid p i)"
  "tx_pres db_wf (mute_ranges_delete_for_session sid)"
  "tx_pres db_wf (mute_ranges_delete_for_participant sid p)"
  by (auto intro!: tx_presI db_wf_leaf_tables mute_ranges_wf_delete dest: db_wfD(10)
      simp: mute_ranges_delete_one_def mute_ranges_delete_for_session_def Let_def
        mute_ranges_delete_for_participant_def split: option.splits)

lemmas mute_pres = mute_ranges_create_wf mute_ranges_delete_wf

lemma mutes_ordered_create:
  "mutes_ordered (t_mute_ranges d) \<Longrightarrow> mute_ranges_create now i sid p c d = Inr (m, d') \<Longrightarrow>
   mutes_ordered (t_mute_ranges d')"
  by (auto simp: mute_ranges_create_def Let_def mutes_ordered_def split: if_splits)

lemma mutes_ordered_delete: "mutes_ordered ms \<Longrightarrow> mutes_ordered (delete_rows q ms)"
  by (auto simp: mutes_ordered_def)

end
