(* ===== verification/Db_Service.thy ===== *)
theory Db_Service
  imports Schema
begin

section \<open>Service sessions\<close>

text \<open>
  \<^verbatim>\<open>src/db/service_sessions.rs\<close>: one row per authenticated caller, keyed by the hash of its
  token. The reap window is a \<^verbatim>\<open>Duration\<close> in whole seconds (\<^verbatim>\<open>u64\<close>), bound as \<^verbatim>\<open>i64\<close> (the cast
  reinterprets the word) and turned into an interval, whose microseconds must fit 64 bits.
\<close>

type_synonym u64 = "64 word"

definition window_us :: "u64 \<Rightarrow> int" where
  "window_us secs = sint secs * 1000000"

definition interval_ok :: "u64 \<Rightarrow> bool" where
  "interval_ok secs \<longleftrightarrow> in_int8 (window_us secs)"

definition service_sessions_insert ::
    "time \<Rightarrow> uuid \<Rightarrow> string \<Rightarrow> string \<Rightarrow> service_session dbop" where
  "service_sessions_insert now new_id name hash d =
     (case List.find (\<lambda>v. sv_token_hash v = hash) (t_service_sessions d) of
        Some v \<Rightarrow>
          (let v' = v\<lparr>sv_last_seen_at := now\<rparr>
           in Inr (v', d\<lparr>t_service_sessions :=
                update_rows (\<lambda>w. sv_token_hash w = hash) (\<lambda>w. w\<lparr>sv_last_seen_at := now\<rparr>)
                  (t_service_sessions d)\<rparr>))
      | None \<Rightarrow>
          (if has_key sv_id new_id (t_service_sessions d)
           then db_fail (Unique_violation ''service_sessions_pkey'')
           else let v = \<lparr>sv_id = new_id, sv_service_name = name, sv_token_hash = hash,
                         sv_created_at = now, sv_last_seen_at = now\<rparr>
                in Inr (v, d\<lparr>t_service_sessions := t_service_sessions d @ [v]\<rparr>)))"

definition alive :: "time \<Rightarrow> u64 \<Rightarrow> service_session \<Rightarrow> bool" where
  "alive now reap v \<longleftrightarrow> now - window_us reap < sv_last_seen_at v"

definition service_sessions_lookup_alive ::
    "time \<Rightarrow> string \<Rightarrow> u64 \<Rightarrow> database \<Rightarrow> string option res" where
  "service_sessions_lookup_alive now hash reap d =
     (if \<not> interval_ok reap then db_fail Interval_out_of_range
      else Inr (map_option sv_service_name
             (List.find (\<lambda>v. sv_token_hash v = hash \<and> alive now reap v) (t_service_sessions d))))"

definition service_sessions_touch :: "time \<Rightarrow> string \<Rightarrow> bool dbop" where
  "service_sessions_touch now hash d =
     Inr (has_key sv_token_hash hash (t_service_sessions d),
          d\<lparr>t_service_sessions := update_rows (\<lambda>v. sv_token_hash v = hash)
              (\<lambda>v. v\<lparr>sv_last_seen_at := now\<rparr>) (t_service_sessions d)\<rparr>)"

definition stale :: "time \<Rightarrow> u64 \<Rightarrow> service_session \<Rightarrow> bool" where
  "stale now window v \<longleftrightarrow> sv_last_seen_at v < now - window_us window"

definition service_sessions_reap_stale :: "time \<Rightarrow> u64 \<Rightarrow> int dbop" where
  "service_sessions_reap_stale now window d =
     (if \<not> interval_ok window then db_fail Interval_out_of_range
      else Inr (int (length (filter (stale now window) (t_service_sessions d))),
             d\<lparr>t_service_sessions := delete_rows (stale now window) (t_service_sessions d)\<rparr>))"

subsection \<open>Lemmas\<close>

lemma service_sessions_wf_update:
  assumes "service_sessions_wf vs"
    and "\<And>v. sv_id (f v) = sv_id v" and "\<And>v. sv_token_hash (f v) = sv_token_hash v"
  shows "service_sessions_wf (update_rows q f vs)"
  using assms by (simp add: service_sessions_wf_def map_key_update_rows)

lemma service_sessions_insert_wf: "tx_pres db_wf (service_sessions_insert now i name hash)"
proof (rule tx_presI)
  fix d v d' assume wf: "db_wf d" and ok: "service_sessions_insert now i name hash d = Inr (v, d')"
  show "db_wf d'"
  proof (cases "List.find (\<lambda>v. sv_token_hash v = hash) (t_service_sessions d)")
    case None
    then have "\<not> has_key sv_token_hash hash (t_service_sessions d)"
      by (rule find_key_None [THEN iffD1])
    with ok None wf db_wfD(12) [OF wf] show ?thesis
      by (auto simp: service_sessions_insert_def Let_def service_sessions_wf_def has_key_iff_image
          intro!: db_wf_leaf_tables split: if_splits)
  next
    case (Some w)
    with ok wf db_wfD(12) [OF wf] show ?thesis
      by (auto simp: service_sessions_insert_def Let_def
          intro!: db_wf_leaf_tables service_sessions_wf_update)
  qed
qed

lemma service_sessions_touch_wf: "tx_pres db_wf (service_sessions_touch now hash)"
  by (rule tx_presI)
    (auto simp: service_sessions_touch_def intro!: db_wf_leaf_tables service_sessions_wf_update
      dest: db_wfD(12))

lemma service_sessions_reap_wf: "tx_pres db_wf (service_sessions_reap_stale now w)"
  by (rule tx_presI)
    (auto simp: service_sessions_reap_stale_def service_sessions_wf_def distinct_delete_rows
      intro!: db_wf_leaf_tables dest: db_wfD(12) split: if_splits)

lemmas service_pres = service_sessions_insert_wf service_sessions_touch_wf service_sessions_reap_wf

lemma alive_not_stale: "alive now w v \<Longrightarrow> \<not> stale now w v"
  by (simp add: alive_def stale_def)

lemma reap_keeps_alive:
  assumes "service_sessions_reap_stale now w d = Inr (n, d')"
  shows "service_sessions_lookup_alive now hash w d' = service_sessions_lookup_alive now hash w d"
proof -
  have "List.find (\<lambda>v. sv_token_hash v = hash \<and> alive now w v)
      (delete_rows (stale now w) (t_service_sessions d)) =
    List.find (\<lambda>v. sv_token_hash v = hash \<and> alive now w v) (t_service_sessions d)"
    by (rule find_delete_rows) (auto dest: alive_not_stale)
  then show ?thesis
    using assms
    by (auto simp: service_sessions_reap_stale_def service_sessions_lookup_alive_def
        split: if_splits)
qed

end
