(* ===== verification/Db_Consent.thy ===== *)
theory Db_Consent
  imports Db_Sessions Db_Participants
begin

section \<open>Consent tokens\<close>

text \<open>
  \<^verbatim>\<open>src/db/consent_tokens.rs\<close>: a token opens one participant's consent to whoever holds its
  URL, for 30 days or until revoked. The three foreign keys are checked one by one; nothing ties
  the participant to the session or to the pseudo id of the token.
\<close>

record consent_token_with_context =
  cx_token :: consent_token
  cx_session :: session
  cx_participant :: participant

definition token_lifetime :: int where
  "token_lifetime = 30 * 86400 * 1000000"

definition consent_tokens_create ::
    "time \<Rightarrow> uuid \<Rightarrow> uuid \<Rightarrow> uuid \<Rightarrow> pseudo_id \<Rightarrow> consent_token dbop" where
  "consent_tokens_create now new_token sid participant_id p d =
     (if has_key ct_token new_token (t_consent_tokens d)
      then db_fail (Unique_violation ''consent_tokens_pkey'')
      else if \<not> has_key ses_id sid (t_sessions d)
      then db_fail (Foreign_key_violation ''consent_tokens_session_id_fkey'')
      else if \<not> has_key par_id participant_id (t_participants d)
      then db_fail (Foreign_key_violation ''consent_tokens_participant_id_fkey'')
      else if \<not> has_key usr_pseudo_id p (t_users d)
      then db_fail (Foreign_key_violation ''consent_tokens_pseudo_id_fkey'')
      else let t = \<lparr>ct_token = new_token, ct_session_id = sid, ct_participant_id = participant_id,
                    ct_pseudo_id = p, ct_created_at = now, ct_expires_at = now + token_lifetime,
                    ct_revoked_at = None\<rparr>
           in Inr (t, d\<lparr>t_consent_tokens := t_consent_tokens d @ [t]\<rparr>))"

definition token_valid :: "time \<Rightarrow> consent_token \<Rightarrow> bool" where
  "token_valid now t \<longleftrightarrow> ct_revoked_at t = None \<and> now < ct_expires_at t"

text \<open>\<^verbatim>\<open>fetch_one\<close>: no row is an error of the database layer.\<close>

definition fetch_one :: "'a option \<Rightarrow> 'a res" where
  "fetch_one x = ok_or (Database Row_not_found) x"

definition consent_tokens_validate ::
    "time \<Rightarrow> uuid \<Rightarrow> database \<Rightarrow> consent_token_with_context option res" where
  "consent_tokens_validate now tok d =
     (case List.find (\<lambda>t. ct_token t = tok \<and> token_valid now t) (t_consent_tokens d) of
        None \<Rightarrow> Inr None
      | Some ct \<Rightarrow>
          bind_res (fetch_one (find_session (ct_session_id ct) d)) (\<lambda>s.
          bind_res (fetch_one (find_participant (ct_participant_id ct) d)) (\<lambda>p.
          Inr (Some \<lparr>cx_token = ct, cx_session = s, cx_participant = p\<rparr>))))"

definition consent_tokens_revoke :: "time \<Rightarrow> uuid \<Rightarrow> unit dbop" where
  "consent_tokens_revoke now tok d =
     Inr ((), d\<lparr>t_consent_tokens := update_rows (\<lambda>t. ct_token t = tok)
                  (\<lambda>t. t\<lparr>ct_revoked_at := Some now\<rparr>) (t_consent_tokens d)\<rparr>)"

subsection \<open>Lemmas\<close>

lemma fetch_one_eq_Inr [simp]: "fetch_one x = Inr v \<longleftrightarrow> x = Some v"
  by (simp add: fetch_one_def)

lemma consent_tokens_create_wf: "tx_pres db_wf (consent_tokens_create now i sid pa p)"
  by (rule tx_presI)
    (auto simp: consent_tokens_create_def Let_def consent_tokens_wf_def has_key_iff_image
      intro!: db_wf_leaf_tables dest: db_wfD(13) split: if_splits)

lemma consent_tokens_wf_revoke:
  "consent_tokens_wf us ss ps ts \<Longrightarrow>
   consent_tokens_wf us ss ps (update_rows q (\<lambda>t. t\<lparr>ct_revoked_at := x\<rparr>) ts)"
  by (auto simp: consent_tokens_wf_def set_update_rows map_key_update_rows)

lemma consent_tokens_revoke_wf: "tx_pres db_wf (consent_tokens_revoke now tok)"
  by (rule tx_presI)
    (auto simp: consent_tokens_revoke_def intro!: db_wf_leaf_tables consent_tokens_wf_revoke
      dest: db_wfD(13))

lemmas consent_pres = consent_tokens_create_wf consent_tokens_revoke_wf

text \<open>Under the foreign keys, a valid token always finds its context.\<close>

lemma consent_tokens_validate_total:
  assumes wf: "db_wf d"
  shows "\<exists>r. consent_tokens_validate now tok d = Inr r"
proof (cases "List.find (\<lambda>t. ct_token t = tok \<and> token_valid now t) (t_consent_tokens d)")
  case None
  then show ?thesis by (simp add: consent_tokens_validate_def)
next
  case (Some ct)
  then have ct: "ct \<in> set (t_consent_tokens d)" by (auto dest: find_SomeD)
  with db_wfD(13) [OF wf]
  have "has_key ses_id (ct_session_id ct) (t_sessions d)"
    and "has_key par_id (ct_participant_id ct) (t_participants d)"
    by (auto simp: consent_tokens_wf_def)
  then obtain s p where "find_session (ct_session_id ct) d = Some s"
    and "find_participant (ct_participant_id ct) d = Some p"
    using find_session_None [of "ct_session_id ct" d]
      find_participant_None [of "ct_participant_id ct" d] by blast
  with Some show ?thesis by (simp add: consent_tokens_validate_def fetch_one_def)
qed

lemma validate_SomeD:
  assumes "consent_tokens_validate now tok d = Inr (Some cx)"
  shows "ct_token (cx_token cx) = tok" "token_valid now (cx_token cx)"
    "cx_token cx \<in> set (t_consent_tokens d)"
    "find_session (ct_session_id (cx_token cx)) d = Some (cx_session cx)"
    "find_participant (ct_participant_id (cx_token cx)) d = Some (cx_participant cx)"
  using assms
  by (auto simp: consent_tokens_validate_def bind_res_eq_Inr split: option.splits dest: find_SomeD)

end
