(* ===== verification/Metrics.thy ===== *)
theory Metrics
  imports Ordered_Map "HOL-Library.List_Lexorder" "HOL-Library.Char_ord" "HOL-Library.Word" Complex_Main
begin

section \<open>The metrics registry\<close>

text \<open>
  \<^verbatim>\<open>src/metrics.rs\<close>: counters, gauges and fixed-bucket histograms in ordered maps. Atomic
  additions wrap (\<open>64 word\<close>). An observed duration is an exact rational; the product with
  \<open>10\<^sup>9\<close> is truncated and clamped as Rust's \<^verbatim>\<open>as u64\<close> does, while the rounding of the
  floating-point product itself is not modelled. \<open>render\<close> keeps the lines of the exposition
  format as values, leaving the printing of numbers out.
\<close>

type_synonym counter_value = "64 word"

record histogram =
  h_buckets_upper :: "rat list"
  h_buckets_count :: "counter_value list"
  h_sum_nanos :: counter_value
  h_count :: counter_value

record metrics =
  m_counters :: "(string \<times> counter_value) list"
  m_gauges :: "(string \<times> int) list"
  m_histograms :: "(string \<times> histogram) list"

definition metrics_new :: metrics where
  "metrics_new = \<lparr>m_counters = [], m_gauges = [], m_histograms = []\<rparr>"

definition DEFAULT_UPPERS :: "rat list" where
  "DEFAULT_UPPERS = [5 / 1000, 10 / 1000, 25 / 1000, 50 / 1000, 1 / 10, 25 / 100, 5 / 10, 1,
     25 / 10, 5, 10]"

definition histogram_new :: "rat list \<Rightarrow> histogram" where
  "histogram_new uppers =
     \<lparr>h_buckets_upper = uppers, h_buckets_count = map (\<lambda>_. 0) uppers, h_sum_nanos = 0,
      h_count = 0\<rparr>"

text \<open>The cast \<^verbatim>\<open>as u64\<close> saturates at both ends.\<close>

definition as_u64 :: "int \<Rightarrow> counter_value" where
  "as_u64 n = (if n < 0 then 0 else if n \<ge> 2 ^ 64 then - 1 else of_int n)"

definition nanos_of :: "rat \<Rightarrow> counter_value" where
  "nanos_of seconds = as_u64 \<lfloor>seconds * 1000000000\<rfloor>"

definition histogram_observe :: "rat \<Rightarrow> histogram \<Rightarrow> histogram" where
  "histogram_observe seconds h =
     h\<lparr>h_sum_nanos := h_sum_nanos h + nanos_of seconds,
       h_count := h_count h + 1,
       h_buckets_count :=
         map (\<lambda>(upper, c). if seconds \<le> upper then c + 1 else c)
           (zip (h_buckets_upper h) (h_buckets_count h))\<rparr>"

definition inc_counter :: "string \<Rightarrow> counter_value \<Rightarrow> metrics \<Rightarrow> metrics" where
  "inc_counter name by_n m =
     (case map_of (m_counters m) name of
        Some c \<Rightarrow> m\<lparr>m_counters := bmap_insert name (c + by_n) (m_counters m)\<rparr>
      | None \<Rightarrow> m\<lparr>m_counters := bmap_insert name (0 + by_n) (m_counters m)\<rparr>)"

definition set_gauge :: "string \<Rightarrow> int \<Rightarrow> metrics \<Rightarrow> metrics" where
  "set_gauge name v m = m\<lparr>m_gauges := bmap_insert name v (m_gauges m)\<rparr>"

definition observe_histogram :: "string \<Rightarrow> rat \<Rightarrow> metrics \<Rightarrow> metrics" where
  "observe_histogram name seconds m =
     (let h = (case map_of (m_histograms m) name of
                 Some h \<Rightarrow> h | None \<Rightarrow> histogram_new DEFAULT_UPPERS)
      in m\<lparr>m_histograms := bmap_insert name (histogram_observe seconds h) (m_histograms m)\<rparr>)"

datatype metric_line =
    TypeLine string string
  | CounterLine string counter_value
  | GaugeLine string int
  | BucketLine string "rat option" counter_value \<comment> \<open>\<open>None\<close> is the bucket \<open>+Inf\<close>\<close>
  | SumLine string rat
  | CountLine string counter_value

fun render_buckets ::
    "string \<Rightarrow> counter_value \<Rightarrow> rat list \<Rightarrow> counter_value list \<Rightarrow> metric_line list" where
  "render_buckets name cumulative (u # us) (c # cs) =
     BucketLine name (Some u) (cumulative + c) # render_buckets name (cumulative + c) us cs"
| "render_buckets name cumulative _ _ = []"

definition render_histogram :: "string \<Rightarrow> histogram \<Rightarrow> metric_line list" where
  "render_histogram name h =
     [TypeLine name ''histogram''] @
     render_buckets name 0 (h_buckets_upper h) (h_buckets_count h) @
     [BucketLine name None (h_count h),
      SumLine name (of_int (uint (h_sum_nanos h)) / 1000000000),
      CountLine name (h_count h)]"

definition render :: "metrics \<Rightarrow> metric_line list" where
  "render m =
     concat (map (\<lambda>(n, v). [TypeLine n ''counter'', CounterLine n v]) (m_counters m)) @
     concat (map (\<lambda>(n, v). [TypeLine n ''gauge'', GaugeLine n v]) (m_gauges m)) @
     concat (map (\<lambda>(n, h). render_histogram n h) (m_histograms m))"

definition metrics_wf :: "metrics \<Rightarrow> bool" where
  "metrics_wf m \<longleftrightarrow> bmap_wf (m_counters m) \<and> bmap_wf (m_gauges m) \<and> bmap_wf (m_histograms m)"

definition counter :: "string \<Rightarrow> metrics \<Rightarrow> counter_value" where
  "counter name m = (case map_of (m_counters m) name of None \<Rightarrow> 0 | Some c \<Rightarrow> c)"

subsection \<open>Lemmas\<close>

lemma metrics_wf_ops:
  "metrics_wf metrics_new"
  "metrics_wf m \<Longrightarrow> metrics_wf (inc_counter name n m)"
  "metrics_wf m \<Longrightarrow> metrics_wf (set_gauge name v m)"
  "metrics_wf m \<Longrightarrow> metrics_wf (observe_histogram name s m)"
  by (auto simp: metrics_wf_def metrics_new_def inc_counter_def set_gauge_def
      observe_histogram_def Let_def bmap_wf_insert split: option.splits)

lemma counter_inc: "counter name' (inc_counter name n m) =
    (if name' = name then counter name m + n else counter name' m)"
  by (auto simp: counter_def inc_counter_def map_of_bmap_insert split: option.splits)

lemma counter_other_ops [simp]:
  "counter n (set_gauge name v m) = counter n m"
  "counter n (observe_histogram name s m) = counter n m"
  by (simp_all add: counter_def set_gauge_def observe_histogram_def Let_def)

lemma gauge_set: "map_of (m_gauges (set_gauge name v m)) name' =
    (if name' = name then Some v else map_of (m_gauges m) name')"
  by (simp add: set_gauge_def map_of_bmap_insert)

text \<open>What the buckets of a histogram count after a run of observations.\<close>

fun observe_all :: "rat list \<Rightarrow> histogram \<Rightarrow> histogram" where
  "observe_all [] h = h"
| "observe_all (s # ss) h = observe_all ss (histogram_observe s h)"

lemma observe_all_upper [simp]: "h_buckets_upper (observe_all ss h) = h_buckets_upper h"
  by (induction ss arbitrary: h) (auto simp: histogram_observe_def)

lemma map2_buckets:
  "length us = length cs \<Longrightarrow>
   map (\<lambda>(u, c). if s \<le> u then c + 1 else c) (zip us (map f us)) =
   map (\<lambda>u. if s \<le> u then f u + 1 else f u) us"
  by (induction us cs rule: list_induct2) auto

lemma observe_all_from:
  assumes "h_buckets_upper h = us" and "h_buckets_count h = map f us"
  shows "h_buckets_count (observe_all ss h) =
    map (\<lambda>u. f u + of_nat (length (filter (\<lambda>s. s \<le> u) ss))) us"
  using assms
proof (induction ss arbitrary: h f)
  case Nil
  then show ?case by simp
next
  case (Cons s ss)
  have "h_buckets_count (histogram_observe s h) = map (\<lambda>u. if s \<le> u then f u + 1 else f u) us"
    using Cons.prems map2_buckets [of us us s f] by (simp add: histogram_observe_def)
  moreover have "h_buckets_upper (histogram_observe s h) = us"
    using Cons.prems by (simp add: histogram_observe_def)
  ultimately have "h_buckets_count (observe_all ss (histogram_observe s h)) =
      map (\<lambda>u. (if s \<le> u then f u + 1 else f u) + of_nat (length (filter (\<lambda>s. s \<le> u) ss))) us"
    by (rule Cons.IH [rotated])
  then show ?case by (simp add: algebra_simps)
qed

lemma observe_all_buckets:
  "h_buckets_count (observe_all ss (histogram_new us)) =
   map (\<lambda>u. of_nat (length (filter (\<lambda>s. s \<le> u) ss))) us"
  using observe_all_from [of "histogram_new us" us "\<lambda>_. 0" ss]
  by (simp add: histogram_new_def)

lemma observe_all_count: "h_count (observe_all ss h) = h_count h + of_nat (length ss)"
  by (induction ss arbitrary: h) (auto simp: histogram_observe_def algebra_simps)

lemma render_buckets_sums:
  "render_buckets name c us (map f us) =
   map (\<lambda>i. BucketLine name (Some (us ! i)) (c + sum_list (map f (take (Suc i) us)))) [0..<length us]"
proof (induction us arbitrary: c)
  case (Cons u us)
  have "[0..<length (u # us)] = 0 # map Suc [0..<length us]"
    by (metis length_Cons map_Suc_upt upt_conv_Cons zero_less_Suc)
  then show ?case by (simp only: render_buckets.simps list.map Cons.IH)
      (simp add: comp_def add.assoc)
qed simp

text \<open>What a scrape shows of a histogram after any run of observations: its count is their
  number and the bucket of each bound is incremented by every observation up to the bound, so the
  buckets are cumulative already; the rendered line adds up all earlier buckets once more, and an
  observation below several bounds is counted several times (modulo the 64 bits of a counter).\<close>

theorem histogram_rendered:
  "h_buckets_count (observe_all ss (histogram_new us)) =
     map (\<lambda>u. of_nat (length (filter (\<lambda>s. s \<le> u) ss))) us \<and>
   render_histogram name (observe_all ss (histogram_new us)) =
     TypeLine name ''histogram'' #
     map (\<lambda>i. BucketLine name (Some (us ! i))
            (sum_list (map (\<lambda>u. of_nat (length (filter (\<lambda>s. s \<le> u) ss))) (take (Suc i) us))))
       [0..<length us] @
     [BucketLine name None (of_nat (length ss)),
      SumLine name (of_int (uint (h_sum_nanos (observe_all ss (histogram_new us)))) / 1000000000),
      CountLine name (of_nat (length ss))]"
proof -
  have "h_count (observe_all ss (histogram_new us)) = of_nat (length ss)"
    by (simp add: observe_all_count histogram_new_def)
  moreover have "h_buckets_upper (observe_all ss (histogram_new us)) = us"
    by (simp add: histogram_new_def)
  ultimately show ?thesis
    using render_buckets_sums [of name 0 us "\<lambda>u. of_nat (length (filter (\<lambda>s. s \<le> u) ss))"]
    by (simp add: render_histogram_def observe_all_buckets)
qed

end
