(* ===== verification/Object_Store.thy ===== *)
theory Object_Store
  imports Errors
begin

section \<open>Object storage\<close>

text \<open>
  \<^verbatim>\<open>src/storage/s3.rs\<close> and \<^verbatim>\<open>src/storage/mem.rs\<close>. The trait \<^verbatim>\<open>ObjectStore\<close> is a record of
  operations over a store state, as a \<^verbatim>\<open>dyn ObjectStore\<close> is a table of methods; handlers get
  the record. \<open>mem_store\<close> is \<^verbatim>\<open>MemStore\<close>. \<open>s3_store\<close> is \<^verbatim>\<open>S3Store\<close> over a bucket client: the
  calls of the \<^verbatim>\<open>s3\<close> crate are a parameter that answers each request with a transport error or
  a status code.
\<close>

record 's object_store =
  os_put :: "string \<Rightarrow> bytes \<Rightarrow> string \<Rightarrow> (app_error, 's, unit) handler"
  os_get :: "string \<Rightarrow> 's \<Rightarrow> bytes res"
  os_delete_many :: "string list \<Rightarrow> (app_error, 's, 32 word) handler"
  os_head_bucket :: "'s \<Rightarrow> unit res"

subsection \<open>The interface the handlers rely on\<close>

text \<open>
  \<open>contents\<close> is what the store holds. A successful operation has its effect and nothing else;
  a failed one may have happened in part, but never touches other keys.
\<close>

locale object_store =
  fixes ops :: "'s object_store"
    and contents :: "'s \<Rightarrow> string \<rightharpoonup> bytes"
  assumes put_contents:
      "os_put ops k v ct s = (Inr u, s') \<Longrightarrow> contents s' = (contents s)(k \<mapsto> v)"
    and put_frame:
      "os_put ops k v ct s = (r, s') \<Longrightarrow> k' \<noteq> k \<Longrightarrow> contents s' k' = contents s k'"
    and get_contents: "os_get ops k s = Inr v \<Longrightarrow> contents s k = Some v"
    and delete_contents:
      "os_delete_many ops ks s = (Inr n, s') \<Longrightarrow> contents s' = contents s |` (- set ks)"
    and delete_frame:
      "os_delete_many ops ks s = (q, s') \<Longrightarrow> k' \<notin> set ks \<Longrightarrow> contents s' k' = contents s k'"
begin

lemma put_get:
  "os_put ops k v ct s = (Inr u, s') \<Longrightarrow> os_get ops k s' = Inr w \<Longrightarrow> w = v"
  using put_contents [of k v ct s u s'] get_contents [of k s' w] by simp

lemma put_get_other:
  "os_put ops k v ct s = (r, s') \<Longrightarrow> k' \<noteq> k \<Longrightarrow> os_get ops k' s' = Inr w \<Longrightarrow>
   contents s k' = Some w"
  using put_frame get_contents by metis

lemma delete_get:
  "os_delete_many ops ks s = (Inr n, s') \<Longrightarrow> k \<in> set ks \<Longrightarrow> os_get ops k s' \<noteq> Inr w"
  using delete_contents [of ks s n s'] get_contents [of k s' w] by (auto simp: restrict_map_def)

lemma put_dom: "os_put ops k v ct s = (Inr u, s') \<Longrightarrow> dom (contents s') = insert k (dom (contents s))"
  by (auto dest: put_contents)

end

subsection \<open>The in-memory store\<close>

type_synonym mem_objects = "string \<rightharpoonup> bytes"

definition mem_new :: mem_objects where
  "mem_new = Map.empty"

definition mem_put :: "string \<Rightarrow> bytes \<Rightarrow> string \<Rightarrow> (app_error, mem_objects, unit) handler" where
  "mem_put key body content_type m = (Inr (), m(key \<mapsto> body))"

definition object_not_found :: "string \<Rightarrow> app_error" where
  "object_not_found key = NotFound [Lit ''object '', Lit key, Lit '' not found'']"

definition mem_get :: "string \<Rightarrow> mem_objects \<Rightarrow> bytes res" where
  "mem_get key m = ok_or (object_not_found key) (m key)"

fun mem_delete_loop :: "string list \<Rightarrow> 32 word \<Rightarrow> mem_objects \<Rightarrow> 32 word \<times> mem_objects" where
  "mem_delete_loop [] n m = (n, m)"
| "mem_delete_loop (k # ks) n m =
     (case m k of
        Some _ \<Rightarrow> mem_delete_loop ks (n + 1) (m(k := None))
      | None \<Rightarrow> mem_delete_loop ks n m)"

definition mem_delete_many :: "string list \<Rightarrow> (app_error, mem_objects, 32 word) handler" where
  "mem_delete_many keys m = (case mem_delete_loop keys 0 m of (n, m') \<Rightarrow> (Inr n, m'))"

definition mem_head_bucket :: "mem_objects \<Rightarrow> unit res" where
  "mem_head_bucket m = Inr ()"

definition mem_len :: "mem_objects \<Rightarrow> nat" where
  "mem_len m = card (dom m)"

definition mem_is_empty :: "mem_objects \<Rightarrow> bool" where
  "mem_is_empty m \<longleftrightarrow> mem_len m = 0"

definition mem_store :: "mem_objects object_store" where
  "mem_store = \<lparr>os_put = mem_put, os_get = mem_get, os_delete_many = mem_delete_many,
     os_head_bucket = mem_head_bucket\<rparr>"

lemma mem_delete_loop_map: "snd (mem_delete_loop ks n m) = m |` (- set ks)"
proof (induction ks n m rule: mem_delete_loop.induct)
  case (1 n m)
  then show ?case by (simp add: restrict_map_def)
next
  case (2 k ks n m)
  have restr: "m(k := None) |` (- set ks) = m |` (- set (k # ks))"
    by (auto simp: restrict_map_def fun_eq_iff)
  show ?case
  proof (cases "m k")
    case None
    then have "m |` (- set ks) = m |` (- set (k # ks))"
      by (auto simp: restrict_map_def fun_eq_iff)
    with 2 None show ?thesis by simp
  next
    case (Some v)
    with 2 have "snd (mem_delete_loop (k # ks) n m) = m(k := None) |` (- set ks)"
      by (simp only: mem_delete_loop.simps option.case)
    with restr show ?thesis by (simp only:)
  qed
qed

lemma mem_delete_loop_count:
  "fst (mem_delete_loop ks n m) = n + of_nat (card (dom m \<inter> set ks))"
proof (induction ks n m rule: mem_delete_loop.induct)
  case (1 n m)
  then show ?case by simp
next
  case (2 k ks n m)
  show ?case
  proof (cases "m k")
    case None
    then have "dom m \<inter> set (k # ks) = dom m \<inter> set ks" by auto
    with 2 None show ?thesis by simp
  next
    case (Some v)
    then have "dom m \<inter> set (k # ks) = insert k (dom (m(k := None)) \<inter> set ks)" by auto
    then have "card (dom m \<inter> set (k # ks)) = Suc (card (dom (m(k := None)) \<inter> set ks))" by simp
    moreover from 2 Some have "fst (mem_delete_loop (k # ks) n m) =
        n + 1 + of_nat (card (dom (m(k := None)) \<inter> set ks))" by (simp only: mem_delete_loop.simps option.case)
    ultimately show ?thesis by (simp only: of_nat_Suc add.assoc)
  qed
qed

lemma mem_delete_many_eq:
  "mem_delete_many ks m = (Inr (of_nat (card (dom m \<inter> set ks))), m |` (- set ks))"
  using mem_delete_loop_map [of ks 0 m] mem_delete_loop_count [of ks 0 m]
  by (cases "mem_delete_loop ks 0 m") (simp add: mem_delete_many_def)

interpretation mem: object_store mem_store "\<lambda>m. m"
  by unfold_locales
    (auto simp: mem_store_def mem_put_def mem_get_def mem_delete_many_eq restrict_map_def)

subsection \<open>The S3 adapter\<close>

text \<open>A bucket client: each call answers a transport error (its text) or a status code.\<close>

record 'b bucket =
  bk_put_object :: "string \<Rightarrow> bytes \<Rightarrow> string \<Rightarrow> 'b \<Rightarrow> (string + nat) \<times> 'b"
  bk_get_object :: "string \<Rightarrow> 'b \<Rightarrow> string + nat \<times> bytes"
  bk_delete_object :: "string \<Rightarrow> 'b \<Rightarrow> (string + nat) \<times> 'b"
  bk_head_object :: "string \<Rightarrow> 'b \<Rightarrow> string + nat"

definition ok_status :: "nat \<Rightarrow> bool" where
  "ok_status code \<longleftrightarrow> 200 \<le> code \<and> code < 300"

definition s3_put :: "'b bucket \<Rightarrow> string \<Rightarrow> bytes \<Rightarrow> string \<Rightarrow> (app_error, 'b, unit) handler" where
  "s3_put b key body content_type s =
     (case bk_put_object b key body content_type s of
        (Inl e, s') \<Rightarrow> (Inl (app_error_s3 [Lit ''put '', Lit key, Lit '': '', Lit e]), s')
      | (Inr code, s') \<Rightarrow>
          (if \<not> ok_status code
           then (Inl (app_error_s3 [Lit ''put '', Lit key, Lit '' -> HTTP '', IntText (int code)]), s')
           else (Inr (), s')))"

definition s3_get :: "'b bucket \<Rightarrow> string \<Rightarrow> 'b \<Rightarrow> bytes res" where
  "s3_get b key s =
     (case bk_get_object b key s of
        Inl e \<Rightarrow> Inl (app_error_s3 [Lit ''get '', Lit key, Lit '': '', Lit e])
      | Inr (code, body) \<Rightarrow>
          (if ok_status code then Inr body
           else if code = 404 then Inl (object_not_found key)
           else Inl (app_error_s3 [Lit ''get '', Lit key, Lit '' -> HTTP '', IntText (int code)])))"

fun s3_delete_loop ::
    "'b bucket \<Rightarrow> string list \<Rightarrow> 32 word \<Rightarrow> (app_error, 'b, 32 word) handler" where
  "s3_delete_loop b [] count s = (Inr count, s)"
| "s3_delete_loop b (k # ks) count s =
     (case bk_delete_object b k s of
        (Inl e, s') \<Rightarrow> (Inl (app_error_s3 [Lit ''delete '', Lit k, Lit '': '', Lit e]), s')
      | (Inr code, s') \<Rightarrow>
          (if \<not> ok_status code \<and> code \<noteq> 404
           then (Inl (app_error_s3 [Lit ''delete '', Lit k, Lit '' -> HTTP '', IntText (int code)]), s')
           else s3_delete_loop b ks (count + 1) s'))"

definition s3_delete_many :: "'b bucket \<Rightarrow> string list \<Rightarrow> (app_error, 'b, 32 word) handler" where
  "s3_delete_many b keys s = s3_delete_loop b keys 0 s"

definition s3_head_bucket :: "'b bucket \<Rightarrow> 'b \<Rightarrow> unit res" where
  "s3_head_bucket b s =
     (case bk_head_object b ''/'' s of
        Inl e \<Rightarrow> Inl (app_error_s3 [Lit ''head_bucket: '', Lit e])
      | Inr code \<Rightarrow>
          (if (200 \<le> code \<and> code \<le> 299) \<or> code = 403 \<or> code = 404 then Inr ()
           else Inl (app_error_s3 [Lit ''head_bucket -> HTTP '', IntText (int code)])))"

definition s3_store :: "'b bucket \<Rightarrow> 'b object_store" where
  "s3_store b = \<lparr>os_put = s3_put b, os_get = s3_get b, os_delete_many = s3_delete_many b,
     os_head_bucket = s3_head_bucket b\<rparr>"

text \<open>
  What S3 documents of the three calls, relative to the objects a bucket holds: a 2xx put stores
  the body, a 2xx get returns it, a 2xx delete removes the key and a 404 delete means it was
  not there; no call touches another key.
\<close>

definition bucket_lawful :: "'b bucket \<Rightarrow> ('b \<Rightarrow> string \<rightharpoonup> bytes) \<Rightarrow> bool" where
  "bucket_lawful b objs \<longleftrightarrow>
     (\<forall>k v ct s s' code. bk_put_object b k v ct s = (Inr code, s') \<longrightarrow> ok_status code \<longrightarrow>
        objs s' k = Some v) \<and>
     (\<forall>k v ct s r s' k'. bk_put_object b k v ct s = (r, s') \<longrightarrow> k' \<noteq> k \<longrightarrow> objs s' k' = objs s k') \<and>
     (\<forall>k s code v. bk_get_object b k s = Inr (code, v) \<longrightarrow> ok_status code \<longrightarrow> objs s k = Some v) \<and>
     (\<forall>k s code s'. bk_delete_object b k s = (Inr code, s') \<longrightarrow>
        ok_status code \<or> code = 404 \<longrightarrow> objs s' k = None) \<and>
     (\<forall>k s r s' k'. bk_delete_object b k s = (r, s') \<longrightarrow> k' \<noteq> k \<longrightarrow> objs s' k' = objs s k')"

lemma bucket_lawfulD:
  assumes "bucket_lawful b objs"
  shows "bk_put_object b k v ct s = (Inr code, s') \<Longrightarrow> ok_status code \<Longrightarrow> objs s' k = Some v"
    and "bk_put_object b k v ct s = (r, s') \<Longrightarrow> k' \<noteq> k \<Longrightarrow> objs s' k' = objs s k'"
    and "bk_get_object b k s = Inr (code, v) \<Longrightarrow> ok_status code \<Longrightarrow> objs s k = Some v"
    and "bk_delete_object b k s = (Inr code, s') \<Longrightarrow> ok_status code \<or> code = 404 \<Longrightarrow>
      objs s' k = None"
    and "bk_delete_object b k s = (r, s') \<Longrightarrow> k' \<noteq> k \<Longrightarrow> objs s' k' = objs s k'"
proof -
  note a = assms [unfolded bucket_lawful_def]
  show "bk_put_object b k v ct s = (Inr code, s') \<Longrightarrow> ok_status code \<Longrightarrow> objs s' k = Some v"
    by (rule a [THEN conjunct1, rule_format])
  show "bk_put_object b k v ct s = (r, s') \<Longrightarrow> k' \<noteq> k \<Longrightarrow> objs s' k' = objs s k'"
    by (rule a [THEN conjunct2, THEN conjunct1, rule_format])
  show "bk_get_object b k s = Inr (code, v) \<Longrightarrow> ok_status code \<Longrightarrow> objs s k = Some v"
    by (rule a [THEN conjunct2, THEN conjunct2, THEN conjunct1, rule_format])
  show "bk_delete_object b k s = (Inr code, s') \<Longrightarrow> ok_status code \<or> code = 404 \<Longrightarrow>
      objs s' k = None"
    by (rule a [THEN conjunct2, THEN conjunct2, THEN conjunct2, THEN conjunct1, rule_format])
  show "bk_delete_object b k s = (r, s') \<Longrightarrow> k' \<noteq> k \<Longrightarrow> objs s' k' = objs s k'"
    by (rule a [THEN conjunct2, THEN conjunct2, THEN conjunct2, THEN conjunct2, rule_format])
qed

lemma s3_delete_loop_frame:
  assumes b: "bucket_lawful b objs"
  shows "s3_delete_loop b ks n s = (r, s') \<Longrightarrow> k' \<notin> set ks \<Longrightarrow> objs s' k' = objs s k'"
proof (induction ks arbitrary: n s)
  case Nil
  then show ?case by simp
next
  case (Cons k ks)
  obtain q t where del: "bk_delete_object b k s = (q, t)" by fastforce
  have frame: "objs t k' = objs s k'"
    using bucket_lawfulD(5) [OF b del] Cons.prems(2) by simp
  show ?case
  proof (cases "\<exists>code. q = Inr code \<and> (ok_status code \<or> code = 404)")
    case True
    with del Cons.prems have "s3_delete_loop b ks (n + 1) t = (r, s')" by auto
    from Cons.IH [OF this] Cons.prems(2) frame show ?thesis by simp
  next
    case False
    with del Cons.prems(1) frame show ?thesis by (cases q) auto
  qed
qed

lemma s3_delete_loop_gone:
  assumes b: "bucket_lawful b objs"
  shows "s3_delete_loop b ks n s = (Inr c, s') \<Longrightarrow> k' \<in> set ks \<Longrightarrow> objs s' k' = None"
proof (induction ks arbitrary: n s)
  case Nil
  then show ?case by simp
next
  case (Cons k ks)
  obtain q t where del: "bk_delete_object b k s = (q, t)" by fastforce
  with Cons.prems(1) obtain code where q: "q = Inr code" "ok_status code \<or> code = 404"
    and rest: "s3_delete_loop b ks (n + 1) t = (Inr c, s')"
    by (cases q) (auto split: if_splits)
  have "objs t k = None"
    using bucket_lawfulD(4) [OF b] del q by blast
  then show ?case
    using Cons.IH [OF rest] s3_delete_loop_frame [OF b rest, of k] Cons.prems(2)
    by (cases "k' \<in> set ks") auto
qed

text \<open>The S3 adapter counts every key it was given, whether or not there was an object.\<close>

lemma s3_delete_loop_count:
  "s3_delete_loop b ks n s = (Inr c, s') \<Longrightarrow> c = n + of_nat (length ks)"
proof (induction ks arbitrary: n s)
  case (Cons k ks)
  then obtain t where "s3_delete_loop b ks (n + 1) t = (Inr c, s')"
    by (auto split: prod.splits sum.splits if_splits)
  from Cons.IH [OF this] show ?case by simp
qed simp

lemma s3_laws:
  assumes b: "bucket_lawful b objs"
  shows "object_store (s3_store b) objs"
proof
  fix k k' v ct s r s' w n ks and u :: unit
  show "os_put (s3_store b) k v ct s = (Inr u, s') \<Longrightarrow> objs s' = (objs s)(k \<mapsto> v)"
    using bucket_lawfulD(1,2) [OF b]
    by (auto simp: s3_store_def s3_put_def fun_eq_iff split: sum.splits prod.splits if_splits)
  show "os_put (s3_store b) k v ct s = (r, s') \<Longrightarrow> k' \<noteq> k \<Longrightarrow> objs s' k' = objs s k'"
    using bucket_lawfulD(2) [OF b]
    by (auto simp: s3_store_def s3_put_def split: sum.splits prod.splits if_splits)
  show "os_get (s3_store b) k s = Inr w \<Longrightarrow> objs s k = Some w"
    using bucket_lawfulD(3) [OF b]
    by (auto simp: s3_store_def s3_get_def split: sum.splits prod.splits if_splits)
  show "os_delete_many (s3_store b) ks s = (Inr n, s') \<Longrightarrow> objs s' = objs s |` (- set ks)"
    using s3_delete_loop_gone [OF b] s3_delete_loop_frame [OF b]
    by (auto simp: s3_store_def s3_delete_many_def restrict_map_def fun_eq_iff)
  show "os_delete_many (s3_store b) ks s = (r', s') \<Longrightarrow> k' \<notin> set ks \<Longrightarrow> objs s' k' = objs s k'"
    for r' using s3_delete_loop_frame [OF b]
    by (simp add: s3_store_def s3_delete_many_def)
qed

text \<open>C37. The adapter for S3 implements the contract the handlers rely on, for every bucket whose
  calls behave as S3 documents: a put that succeeds stores exactly the body, a get that succeeds
  returns what is stored, a delete that succeeds leaves none of its keys, and no operation, not
  even one that fails midway, touches another key. A delete reports the number of keys it was
  asked for.\<close>

theorem s3_store_lawful:
  assumes b: "bucket_lawful b objs"
  shows "object_store (s3_store b) objs \<and>
    (\<forall>ks s c s'. os_delete_many (s3_store b) ks s = (Inr c, s') \<longrightarrow> c = of_nat (length ks))"
  using s3_laws [OF b]
  by (auto simp: s3_store_def s3_delete_many_def dest: s3_delete_loop_count)

definition sample_bucket :: "mem_objects bucket" where
  "sample_bucket = \<lparr>bk_put_object = (\<lambda>k v ct s. (Inr 200, s(k \<mapsto> v))),
     bk_get_object = (\<lambda>k s. case s k of None \<Rightarrow> Inr (404, []) | Some v \<Rightarrow> Inr (200, v)),
     bk_delete_object = (\<lambda>k s. (Inr 204, s(k := None))),
     bk_head_object = (\<lambda>k s. Inr 404)\<rparr>"

theorem s3_store_lawful_witness:
  "bucket_lawful sample_bucket (\<lambda>m. m) \<and> object_store (s3_store sample_bucket) (\<lambda>m. m)"
proof -
  have "bucket_lawful sample_bucket (\<lambda>m. m)"
    by (auto simp: bucket_lawful_def sample_bucket_def ok_status_def split: option.splits)
  then show ?thesis using s3_store_lawful by blast
qed

end
