(* ===== verification/Http.thy ===== *)
theory Http
  imports Errors
begin

section \<open>Request headers, bodies and number parsing\<close>

text \<open>
  What the handlers use of a request before they act on it. A header map gives the raw bytes of
  a header by its lower-case name; \<open>to_str\<close> is \<^verbatim>\<open>HeaderValue::to_str\<close>, which accepts visible
  ASCII and tabs. \<open>parse_int\<close> is the integer parser of the standard library over an explicit
  range, with its error kinds. A body arrives whole or breaks with a transport error;
  \<open>to_bytes\<close> is \<^verbatim>\<open>axum::body::to_bytes\<close>, which also fails on a body longer than its limit.
\<close>

type_synonym headers = "string \<Rightarrow> string option"

definition visible_ascii :: "char \<Rightarrow> bool" where
  "visible_ascii c \<longleftrightarrow> (let b = (of_char c :: nat) in (32 \<le> b \<and> b < 127) \<or> b = 9)"

definition to_str :: "string \<Rightarrow> string option" where
  "to_str v = (if list_all visible_ascii v then Some v else None)"

definition header_str :: "headers \<Rightarrow> string \<Rightarrow> string option" where
  "header_str h name = Option.bind (h name) to_str"

definition strip_prefix :: "string \<Rightarrow> string \<Rightarrow> string option" where
  "strip_prefix pre s =
     (if take (length pre) s = pre then Some (drop (length pre) s) else None)"

subsection \<open>Integers\<close>

datatype int_error = Empty | InvalidDigit | PosOverflow | NegOverflow

definition digit_of :: "char \<Rightarrow> int option" where
  "digit_of c = (let b = (of_char c :: nat) in if 48 \<le> b \<and> b \<le> 57 then Some (int b - 48) else None)"

fun parse_digits_pos :: "int \<Rightarrow> int \<Rightarrow> string \<Rightarrow> int_error + int" where
  "parse_digits_pos hi acc [] = Inr acc"
| "parse_digits_pos hi acc (c # cs) =
     (case digit_of c of
        None \<Rightarrow> Inl InvalidDigit
      | Some x \<Rightarrow>
          (if acc * 10 > hi \<or> acc * 10 + x > hi then Inl PosOverflow
           else parse_digits_pos hi (acc * 10 + x) cs))"

fun parse_digits_neg :: "int \<Rightarrow> int \<Rightarrow> string \<Rightarrow> int_error + int" where
  "parse_digits_neg lo acc [] = Inr acc"
| "parse_digits_neg lo acc (c # cs) =
     (case digit_of c of
        None \<Rightarrow> Inl InvalidDigit
      | Some x \<Rightarrow>
          (if acc * 10 < lo \<or> acc * 10 - x < lo then Inl NegOverflow
           else parse_digits_neg lo (acc * 10 - x) cs))"

text \<open>A lone sign is an invalid digit; a minus sign is one for an unsigned type.\<close>

definition parse_int :: "int \<Rightarrow> int \<Rightarrow> string \<Rightarrow> int_error + int" where
  "parse_int lo hi s =
     (case s of
        [] \<Rightarrow> Inl Empty
      | c # cs \<Rightarrow>
          (if (c = CHR ''+'' \<or> c = CHR ''-'') \<and> cs = [] then Inl InvalidDigit
           else if c = CHR ''+'' then parse_digits_pos hi 0 cs
           else if c = CHR ''-'' \<and> lo < 0 then parse_digits_neg lo 0 cs
           else parse_digits_pos hi 0 s))"

definition parse_i32 :: "string \<Rightarrow> int_error + int" where
  "parse_i32 = parse_int (- (2 ^ 31)) (2 ^ 31 - 1)"

definition parse_u64 :: "string \<Rightarrow> int_error + int" where
  "parse_u64 = parse_int 0 (2 ^ 64 - 1)"

text \<open>The texts \<^verbatim>\<open>ParseIntError\<close> displays.\<close>

fun int_error_text :: "int_error \<Rightarrow> string" where
  "int_error_text Empty = ''cannot parse integer from empty string''"
| "int_error_text InvalidDigit = ''invalid digit found in string''"
| "int_error_text PosOverflow = ''number too large to fit in target type''"
| "int_error_text NegOverflow = ''number too small to fit in target type''"

subsection \<open>Bodies\<close>

type_synonym request_body = "string + bytes"

definition to_bytes :: "nat \<Rightarrow> request_body \<Rightarrow> string + bytes" where
  "to_bytes limit body =
     (case body of
        Inl e \<Rightarrow> Inl e
      | Inr b \<Rightarrow> if length b > limit then Inl ''length limit exceeded'' else Inr b)"

subsection \<open>Lemmas\<close>

lemma to_str_eq_Some [simp]: "to_str v = Some s \<longleftrightarrow> list_all visible_ascii v \<and> s = v"
  by (auto simp: to_str_def)

lemma header_str_eq_Some:
  "header_str h name = Some s \<longleftrightarrow> h name = Some s \<and> list_all visible_ascii s"
  by (auto simp: header_str_def split: bind_splits)

lemma strip_prefix_eq_Some [simp]: "strip_prefix pre s = Some t \<longleftrightarrow> s = pre @ t"
  by (auto simp: strip_prefix_def) (metis append_take_drop_id)

lemma strip_prefix_append [simp]: "strip_prefix pre (pre @ t) = Some t"
  by simp

lemma digit_of_range: "digit_of c = Some x \<Longrightarrow> 0 \<le> x \<and> x \<le> 9"
  by (auto simp: digit_of_def Let_def split: if_splits)

lemma parse_digits_pos_range:
  "parse_digits_pos hi acc s = Inr n \<Longrightarrow> 0 \<le> acc \<Longrightarrow> acc \<le> hi \<Longrightarrow> acc \<le> n \<and> n \<le> hi"
proof (induction s arbitrary: acc)
  case Nil
  then show ?case by simp
next
  case (Cons c cs)
  from Cons.prems(1) obtain x where x: "digit_of c = Some x"
    and fit: "acc * 10 + x \<le> hi" and rest: "parse_digits_pos hi (acc * 10 + x) cs = Inr n"
    by (auto split: option.splits if_splits)
  have "0 \<le> x" using digit_of_range [OF x] by simp
  with Cons.prems(2) have ge: "acc \<le> acc * 10 + x" "0 \<le> acc * 10 + x" by simp_all
  from Cons.IH [OF rest ge(2) fit] ge(1) show ?case by simp
qed

lemma parse_digits_neg_range:
  "parse_digits_neg lo acc s = Inr n \<Longrightarrow> acc \<le> 0 \<Longrightarrow> lo \<le> acc \<Longrightarrow> lo \<le> n \<and> n \<le> acc"
proof (induction s arbitrary: acc)
  case Nil
  then show ?case by simp
next
  case (Cons c cs)
  from Cons.prems(1) obtain x where x: "digit_of c = Some x"
    and fit: "lo \<le> acc * 10 - x" and rest: "parse_digits_neg lo (acc * 10 - x) cs = Inr n"
    by (auto split: option.splits if_splits)
  have "0 \<le> x" using digit_of_range [OF x] by simp
  with Cons.prems(2) have le: "acc * 10 - x \<le> acc" "acc * 10 - x \<le> 0" by simp_all
  from Cons.IH [OF rest le(2) fit] le(1) show ?case by simp
qed

lemma parse_int_range:
  assumes "parse_int lo hi s = Inr n" and "lo \<le> 0" and "0 \<le> hi"
  shows "lo \<le> n \<and> n \<le> hi"
proof (cases s)
  case Nil
  then show ?thesis using assms by (simp add: parse_int_def)
next
  case (Cons c cs)
  then have "parse_digits_pos hi 0 cs = Inr n \<or> parse_digits_neg lo 0 cs = Inr n \<or>
      parse_digits_pos hi 0 s = Inr n"
    using assms(1) by (auto simp: parse_int_def simp del: parse_digits_pos.simps split: if_splits)
  then show ?thesis
    using assms(2,3) parse_digits_pos_range [of hi 0 cs n] parse_digits_pos_range [of hi 0 s n]
      parse_digits_neg_range [of lo 0 cs n] by auto
qed

end
