(* ===== verification/Tokens.thy ===== *)
theory Tokens
  imports Http
begin

section \<open>Random tokens and their hashes\<close>

text \<open>
  \<^verbatim>\<open>src/auth/token.rs\<close> and \<^verbatim>\<open>ETag::new_random\<close> of \<^verbatim>\<open>src/ids.rs\<close>. The random bytes, the
  hexadecimal encoder (crate \<^verbatim>\<open>hex\<close>) and SHA-256 (crate \<^verbatim>\<open>sha2\<close>) are arguments;
  \<open>hex_law\<close> is what the encoder documents: two lower-case digits for each byte, and different
  bytes have different texts. \<open>sample_hex\<close> is one such encoder.
\<close>

type_synonym hex_encoder = "bytes \<Rightarrow> string"

definition hex_law :: "hex_encoder \<Rightarrow> bool" where
  "hex_law hex \<longleftrightarrow> inj hex \<and> (\<forall>b. length (hex b) = 2 * length b \<and> list_all is_lower_hex (hex b))"

definition as_bytes :: "string \<Rightarrow> bytes" where
  "as_bytes s = map of_char s"

text \<open>\<open>fill n\<close> is a zeroed buffer of \<open>n\<close> bytes after \<^verbatim>\<open>fill_bytes\<close>.\<close>

type_synonym random_source = "nat \<Rightarrow> bytes"

definition fill_law :: "random_source \<Rightarrow> bool" where
  "fill_law fill \<longleftrightarrow> (\<forall>n. length (fill n) = n)"

definition generate_token :: "hex_encoder \<Rightarrow> random_source \<Rightarrow> string" where
  "generate_token hex fill = hex (fill 32)"

definition hash_token :: "hex_encoder \<Rightarrow> (bytes \<Rightarrow> bytes) \<Rightarrow> string \<Rightarrow> string" where
  "hash_token hex sha256 token = hex (sha256 (as_bytes token))"

definition etag_new_random :: "hex_encoder \<Rightarrow> random_source \<Rightarrow> etag" where
  "etag_new_random hex fill = ETag (hex (fill 8))"

subsection \<open>An encoder\<close>

definition hex_digit :: "nat \<Rightarrow> char" where
  "hex_digit n = ''0123456789abcdef'' ! n"

fun sample_hex :: "bytes \<Rightarrow> string" where
  "sample_hex [] = []"
| "sample_hex (b # bs) =
     hex_digit (unat b div 16) # hex_digit (unat b mod 16) # sample_hex bs"

lemma hex_digit_lower: "n < 16 \<Longrightarrow> is_lower_hex (hex_digit n)"
proof -
  have "\<forall>n \<in> set [0 ..< 16]. is_lower_hex (hex_digit n)" by code_simp
  then show "n < 16 \<Longrightarrow> is_lower_hex (hex_digit n)" by simp
qed

lemma hex_digit_inj: "m < 16 \<Longrightarrow> n < 16 \<Longrightarrow> hex_digit m = hex_digit n \<Longrightarrow> m = n"
proof -
  have "\<forall>m \<in> set [0 ..< 16]. \<forall>n \<in> set [0 ..< 16]. hex_digit m = hex_digit n \<longrightarrow> m = n" by code_simp
  then show "m < 16 \<Longrightarrow> n < 16 \<Longrightarrow> hex_digit m = hex_digit n \<Longrightarrow> m = n" by simp
qed

lemma byte_digits: "unat (b :: 8 word) div 16 < 16" "unat b mod 16 < 16"
  using unsigned_less [of b, where ?'a = nat] by simp_all

lemma sample_hex_inj: "sample_hex a = sample_hex b \<Longrightarrow> a = b"
proof (induction a arbitrary: b)
  case Nil
  then show ?case by (cases b) simp_all
next
  case (Cons x a)
  then obtain y b' where b: "b = y # b'" by (cases b) simp_all
  with Cons.prems have "hex_digit (unat x div 16) = hex_digit (unat y div 16)"
    "hex_digit (unat x mod 16) = hex_digit (unat y mod 16)" and rest: "sample_hex a = sample_hex b'"
    by simp_all
  then have "unat x div 16 = unat y div 16" "unat x mod 16 = unat y mod 16"
    using byte_digits by (auto intro: hex_digit_inj)
  then have "unat x = unat y" by (metis div_mult_mod_eq)
  then show ?case using Cons.IH [OF rest] by (simp add: b word_unat_eq_iff)
qed

lemma sample_hex_law: "hex_law sample_hex"
proof -
  have "length (sample_hex b) = 2 * length b \<and> list_all is_lower_hex (sample_hex b)" for b
    by (induction b) (simp_all add: byte_digits hex_digit_lower)
  then show ?thesis by (auto simp: hex_law_def intro!: injI sample_hex_inj)
qed

definition sample_fill :: random_source where
  "sample_fill n = take n (replicate (n - 1) 0 @ [187])"

lemma sample_fill_law: "fill_law sample_fill"
  by (auto simp: fill_law_def sample_fill_def)

lemma sample_texts:
  "etag_new_random sample_hex sample_fill = ETag ''00000000000000bb''"
  "generate_token sample_hex sample_fill =
     ''00000000000000000000000000000000000000000000000000000000000000bb''"
  by code_simp+

subsection \<open>What the texts look like\<close>

lemma hex_visible: "is_lower_hex c \<Longrightarrow> visible_ascii c"
  by (auto simp: is_lower_hex_def visible_ascii_def Let_def)

lemma generate_token_shape:
  assumes "hex_law hex" and "fill_law fill"
  shows "length (generate_token hex fill) = 64"
    and "list_all is_lower_hex (generate_token hex fill)"
    and "list_all visible_ascii (generate_token hex fill)"
proof -
  show len: "length (generate_token hex fill) = 64"
    and low: "list_all is_lower_hex (generate_token hex fill)"
    using assms by (simp_all add: hex_law_def fill_law_def generate_token_def)
  from low show "list_all visible_ascii (generate_token hex fill)"
    by (auto simp: list_all_iff dest: hex_visible)
qed

lemma etag_new_random_shape:
  "hex_law hex \<Longrightarrow> fill_law fill \<Longrightarrow> etag_shape (etag_new_random hex fill)"
  by (simp add: hex_law_def fill_law_def etag_shape_def etag_new_random_def)

end
