(* ===== verification/World.thy ===== *)
theory World
  imports Http Events Metrics Object_Store Db_Audit Db_Service
begin

section \<open>The state a handler runs on\<close>

text \<open>
  \<^verbatim>\<open>AppState\<close> of \<^verbatim>\<open>src/routes/mod.rs\<close> split in two: \<open>app_state\<close> is what never changes (the
  object store's operations and the configuration), \<open>world\<close> is what handlers change: the
  database, the contents of the object store, the events sent on the bus in order, the metrics.

  What a request draws from outside is an \<open>env\<close>: the database time of the authentication lookup and
  of its k-th transaction, the k-th reading of the clock, the ids and entity tags it generates, the duration it measures.
  \<open>run_tx\<close> runs a database transaction (an error rolls it back), \<open>read_db\<close> a query.
\<close>

record 's app_state =
  st_store :: "'s object_store"
  st_shared_secret :: string
  st_resume_ttl :: u64
  st_ws_queue_depth :: u64
  st_heartbeat_reap :: u64

record 's world =
  w_db :: database
  w_store :: 's
  w_events :: "event list"
  w_metrics :: metrics

record env =
  ev_auth_now :: time
  ev_db_now :: "nat \<Rightarrow> time"
  ev_utc_now :: "nat \<Rightarrow> time"
  ev_row_id :: "nat \<Rightarrow> uuid"
  ev_audit_id :: "nat \<Rightarrow> uuid"
  ev_tag :: "nat \<Rightarrow> etag"
  ev_elapsed :: rat

type_synonym ('s, 'a) operation = "(app_error, 's world, 'a) handler"

definition run_tx :: "'a dbop \<Rightarrow> ('s, 'a) operation" where
  "run_tx m w =
     (case m (w_db w) of
        Inl e \<Rightarrow> (Inl e, w)
      | Inr (x, d) \<Rightarrow> (Inr x, w\<lparr>w_db := d\<rparr>))"

definition read_db :: "(database \<Rightarrow> 'a res) \<Rightarrow> ('s, 'a) operation" where
  "read_db q w = (q (w_db w), w)"

definition on_db :: "(app_error, database, 'a) handler \<Rightarrow> ('s, 'a) operation" where
  "on_db m w = (case m (w_db w) of (r, d) \<Rightarrow> (r, w\<lparr>w_db := d\<rparr>))"

definition on_store :: "(app_error, 's, 'a) handler \<Rightarrow> ('s, 'a) operation" where
  "on_store m w = (case m (w_store w) of (r, s) \<Rightarrow> (r, w\<lparr>w_store := s\<rparr>))"

definition emit :: "event \<Rightarrow> ('s, unit) operation" where
  "emit e = h_modify (\<lambda>w. w\<lparr>w_events := w_events w @ [e]\<rparr>)"

definition on_metrics :: "(metrics \<Rightarrow> metrics) \<Rightarrow> ('s, unit) operation" where
  "on_metrics f = h_modify (\<lambda>w. w\<lparr>w_metrics := f (w_metrics w)\<rparr>)"

definition commit :: "database \<Rightarrow> ('s, unit) operation" where
  "commit d = h_modify (\<lambda>w. w\<lparr>w_db := d\<rparr>)"

text \<open>\<^verbatim>\<open>if let Err(e) = ...\<close>: the failure is logged and dropped.\<close>

definition best_effort :: "('s, 'a) operation \<Rightarrow> ('s, unit) operation" where
  "best_effort m w = (Inr (), snd (m w))"

text \<open>The sweep of object keys after a delete has committed.\<close>

definition sweep_keys :: "'s app_state \<Rightarrow> string list \<Rightarrow> ('s, unit) operation" where
  "sweep_keys st keys =
     (if keys \<noteq> [] then best_effort (on_store (os_delete_many (st_store st) keys))
      else h_return ())"

text \<open>An audit entry about a session, as most handlers write it.\<close>

definition entry ::
    "string \<Rightarrow> string option \<Rightarrow> uuid option \<Rightarrow> string \<Rightarrow> message \<Rightarrow> string \<Rightarrow> json option \<Rightarrow>
     audit_entry" where
  "entry svc pseudo sid rtype rid action detail =
     \<lparr>en_actor_service = svc, en_actor_pseudo = pseudo, en_session_id = sid,
      en_resource_type = rtype, en_resource_id = rid, en_action = action, en_detail = detail\<rparr>"

definition h_map :: "('a \<Rightarrow> 'b) \<Rightarrow> ('e, 'st, 'a) handler \<Rightarrow> ('e, 'st, 'b) handler" where
  "h_map f m = h_bind m (\<lambda>x. h_return (f x))"

definition audit :: "env \<Rightarrow> nat \<Rightarrow> nat \<Rightarrow> audit_entry \<Rightarrow> ('s, unit) operation" where
  "audit ev t k e = run_tx (audit_append (ev_audit_id ev k) (ev_db_now ev t) e)"

subsection \<open>Lemmas\<close>

definition db_inv :: "(database \<Rightarrow> bool) \<Rightarrow> 's world \<Rightarrow> bool" where
  "db_inv P w \<longleftrightarrow> P (w_db w)"

lemma run_tx_Inl [bind_simps]: "m (w_db w) = Inl e \<Longrightarrow> run_tx m w = (Inl e, w)"
  by (simp add: run_tx_def)

lemma run_tx_Inr [bind_simps]: "m (w_db w) = Inr (x, d) \<Longrightarrow> run_tx m w = (Inr x, w\<lparr>w_db := d\<rparr>)"
  by (simp add: run_tx_def)

lemma run_tx_eq_Inr:
  "run_tx m w = (Inr x, w') \<longleftrightarrow> (\<exists>d. m (w_db w) = Inr (x, d) \<and> w' = w\<lparr>w_db := d\<rparr>)"
  by (auto simp: run_tx_def split: sum.splits)

lemma run_tx_eq_Inl:
  "run_tx m w = (Inl e, w') \<longleftrightarrow> m (w_db w) = Inl e \<and> w' = w"
  by (auto simp: run_tx_def split: sum.splits)

lemma world_op_simps [simp, bind_simps]:
  "read_db q w = (q (w_db w), w)"
  "emit e w = (Inr (), w\<lparr>w_events := w_events w @ [e]\<rparr>)"
  "on_metrics f w = (Inr (), w\<lparr>w_metrics := f (w_metrics w)\<rparr>)"
  "commit d w = (Inr (), w\<lparr>w_db := d\<rparr>)"
  by (simp_all add: read_db_def emit_def on_metrics_def commit_def)

lemma best_effort_fst [simp]: "best_effort m w = (Inr (), snd (m w))"
  by (simp add: best_effort_def)

lemma on_store_eq:
  "on_store m w = (r, w') \<longleftrightarrow> (\<exists>s'. m (w_store w) = (r, s') \<and> w' = w\<lparr>w_store := s'\<rparr>)"
  by (auto simp: on_store_def split: prod.splits)

lemma on_store_Inr [bind_simps]:
  "m (w_store w) = (r, s') \<Longrightarrow> on_store m w = (r, w\<lparr>w_store := s'\<rparr>)"
  by (simp add: on_store_def)

lemma sweep_keys_eq:
  "sweep_keys st keys w =
     (Inr (), if keys = [] then w
              else w\<lparr>w_store := snd (os_delete_many (st_store st) keys (w_store w))\<rparr>)"
  by (simp add: sweep_keys_def on_store_def split: prod.split)

lemma db_inv_simps [simp]:
  "db_inv P (w\<lparr>w_events := es\<rparr>) = db_inv P w"
  "db_inv P (w\<lparr>w_metrics := m\<rparr>) = db_inv P w"
  "db_inv P (w\<lparr>w_store := s\<rparr>) = db_inv P w"
  "db_inv P (w\<lparr>w_db := d\<rparr>) = P d"
  by (simp_all add: db_inv_def)

lemma h_pres_run_tx [pres_intros]: "tx_pres P m \<Longrightarrow> h_pres (db_inv P) (run_tx m)"
  by (rule h_presI)
    (auto simp: run_tx_def db_inv_def split: sum.splits dest: tx_presD)

lemma h_pres_on_db [pres_intros]: "h_pres P m \<Longrightarrow> h_pres (db_inv P) (on_db m)"
  by (rule h_presI) (auto simp: on_db_def db_inv_def split: prod.splits dest: h_presD2)

lemma h_pres_world [pres_intros]:
  "h_pres (db_inv P) (read_db q)"
  "h_pres (db_inv P) (on_store f)"
  "h_pres (db_inv P) (emit e)"
  "h_pres (db_inv P) (on_metrics g)"
  "h_pres (db_inv P) (sweep_keys st keys)"
  by (auto simp: h_pres_def on_store_def sweep_keys_eq split: prod.splits)

lemma h_pres_map [pres_intros]: "h_pres P m \<Longrightarrow> h_pres P (h_map f m)"
  unfolding h_map_def by (intro pres_intros)

lemma h_map_apply: "h_map f m w = (case m w of (Inl e, w') \<Rightarrow> (Inl e, w') | (Inr x, w') \<Rightarrow> (Inr (f x), w'))"
  by (auto simp: h_map_def h_bind_def split: prod.split sum.split)

lemma h_pres_audit [pres_intros]:
  "tx_pres P (audit_append (ev_audit_id ev k) (ev_db_now ev t) e) \<Longrightarrow>
   h_pres (db_inv P) (audit ev t k e)"
  unfolding audit_def by (rule h_pres_run_tx)

lemma audit_eq_Inr:
  "audit ev t k e w = (Inr u, w') \<longleftrightarrow>
     \<not> has_key au_id (ev_audit_id ev k) (t_audit_log (w_db w)) \<and>
     w' = w\<lparr>w_db := (w_db w)\<lparr>t_audit_log :=
        t_audit_log (w_db w) @ [audit_row_of (ev_audit_id ev k) (ev_db_now ev t) e]\<rparr>\<rparr>"
  by (auto simp: audit_def run_tx_eq_Inr audit_append_eq_Inr)

end
