(* ===== verification/Chunk_Key.thy ===== *)
theory Chunk_Key
  imports Db_Chunks Db_Sessions
begin

section \<open>The object key of a chunk\<close>

text \<open>
  The key \<^verbatim>\<open>{s3_prefix}/audio/{pseudo_id}/chunk_{seq:06}.pcm\<close> that the upload in
  \<^verbatim>\<open>src/routes/chunks.rs\<close> builds, with the integer formatting of \<^verbatim>\<open>format!\<close>. The lemmas show that
  a key determines prefix, speaker and sequence number.
\<close>

definition digit_char :: "nat \<Rightarrow> char" where
  "digit_char n = char_of (48 + n)"

fun decimal :: "nat \<Rightarrow> string" where
  "decimal n = (if n < 10 then [digit_char n] else decimal (n div 10) @ [digit_char (n mod 10)])"

declare decimal.simps [simp del]

text \<open>\<^verbatim>\<open>{:06}\<close>: zeros fill up to six places, behind the sign.\<close>

definition zero_padded :: "nat \<Rightarrow> string \<Rightarrow> string" where
  "zero_padded width s = replicate (width - length s) (CHR ''0'') @ s"

definition format_06 :: "int \<Rightarrow> string" where
  "format_06 n =
     (if n < 0 then CHR ''-'' # zero_padded 5 (decimal (nat (- n)))
      else zero_padded 6 (decimal (nat n)))"

definition chunk_s3_key :: "string \<Rightarrow> pseudo_id \<Rightarrow> int \<Rightarrow> string" where
  "chunk_s3_key prefix p seq =
     prefix @ ''/audio/'' @ pid_str p @ ''/chunk_'' @ format_06 seq @ ''.pcm''"

subsection \<open>A key determines its parts\<close>

text \<open>The number a digit string reads as: the left inverse of the formatting.\<close>

definition read_decimal :: "string \<Rightarrow> nat" where
  "read_decimal s = fold (\<lambda>c acc. acc * 10 + (of_char c - 48)) s 0"

lemma of_digit_char: "n < 10 \<Longrightarrow> of_char (digit_char n) = 48 + n"
  by (simp add: digit_char_def)

lemma read_decimal_append: "read_decimal (s @ [c]) = read_decimal s * 10 + (of_char c - 48)"
  by (simp add: read_decimal_def)

lemma read_decimal_zeros: "read_decimal (replicate k (CHR ''0'') @ s) = read_decimal s"
  by (induction k) (simp_all add: read_decimal_def)

lemma read_decimal_decimal [simp]: "read_decimal (decimal n) = n"
proof (induction n rule: decimal.induct)
  case (1 n)
  show ?case
  proof (cases "n < 10")
    case True
    then show ?thesis
      by (simp add: decimal.simps [of n] read_decimal_def of_digit_char)
  next
    case False
    with 1 show ?thesis
      by (simp add: decimal.simps [of n] read_decimal_append of_digit_char)
  qed
qed

lemma decimal_digits: "c \<in> set (decimal n) \<Longrightarrow> \<exists>k < 10. c = digit_char k"
proof (induction n rule: decimal.induct)
  case (1 n)
  show ?case
  proof (cases "n < 10")
    case True
    with "1.prems" show ?thesis by (auto simp: decimal.simps [of n])
  next
    case False
    with "1.prems" have "c \<in> set (decimal (n div 10)) \<or> c = digit_char (n mod 10)"
      by (auto simp: decimal.simps [of n])
    with "1.IH" [OF False] show ?thesis by (metis mod_less_divisor zero_less_numeral)
  qed
qed

lemma digit_char_not_slash: "k < 10 \<Longrightarrow> digit_char k \<noteq> CHR ''/''"
proof
  assume "k < 10" "digit_char k = CHR ''/''"
  then have "(of_char (digit_char k) :: nat) = of_char (CHR ''/'')" by simp
  with \<open>k < 10\<close> show False by (simp add: of_digit_char)
qed

lemma format_06_no_slash: "CHR ''/'' \<notin> set (format_06 n)"
proof -
  have "CHR ''/'' \<notin> set (decimal k)" for k
    using decimal_digits [of "CHR ''/''" k] digit_char_not_slash by metis
  then show ?thesis by (simp add: format_06_def zero_padded_def)
qed

lemma format_06_inj:
  assumes "format_06 m = format_06 n" and "0 \<le> m" and "0 \<le> n"
  shows "m = n"
proof -
  have "read_decimal (format_06 k) = nat k" if "0 \<le> k" for k
    using that by (simp add: format_06_def zero_padded_def read_decimal_zeros)
  then show ?thesis using assms by (metis eq_nat_nat_iff)
qed

lemma split_last_slash:
  assumes eq: "a @ (CHR ''/'') # x = b @ (CHR ''/'') # y"
    and x: "CHR ''/'' \<notin> set x" and y: "CHR ''/'' \<notin> set y"
  shows "a = b \<and> x = y"
proof -
  have "rev x @ (CHR ''/'') # rev a = rev y @ (CHR ''/'') # rev b"
    using arg_cong [OF eq, of rev] by simp
  then have "takeWhile (\<lambda>c. c \<noteq> CHR ''/'') (rev x @ (CHR ''/'') # rev a) =
      takeWhile (\<lambda>c. c \<noteq> CHR ''/'') (rev y @ (CHR ''/'') # rev b)" by simp
  moreover have "takeWhile (\<lambda>c. c \<noteq> CHR ''/'') (rev z) = rev z" if "CHR ''/'' \<notin> set z" for z
    using that by (auto simp: takeWhile_eq_all_conv)
  ultimately have "rev x = rev y" using x y by (simp add: takeWhile_tail)
  with eq show ?thesis by simp
qed

lemma mixed_no_slash: "CHR ''/'' \<notin> set MIXED_PSEUDO_ID"
  by (simp add: MIXED_PSEUDO_ID_def)

lemma chunk_pid_no_slash: "chunk_pid_ok p \<Longrightarrow> CHR ''/'' \<notin> set (pid_str p)"
  by (auto simp: chunk_pid_ok_def valid_no_slash mixed_no_slash)

lemma chunk_s3_key_inj:
  assumes eq: "chunk_s3_key a p m = chunk_s3_key b q n"
    and "chunk_pid_ok p" "chunk_pid_ok q" "0 \<le> m" "0 \<le> n"
  shows "a = b \<and> p = q \<and> m = n"
proof -
  let ?tail = "\<lambda>k. ''chunk_'' @ format_06 k @ ''.pcm''"
  have no: "CHR ''/'' \<notin> set (?tail k)" for k using format_06_no_slash [of k] by simp
  have "(a @ ''/audio/'' @ pid_str p) @ (CHR ''/'') # ?tail m =
        (b @ ''/audio/'' @ pid_str q) @ (CHR ''/'') # ?tail n"
    using eq by (simp add: chunk_s3_key_def)
  from split_last_slash [OF this no no]
  have left: "a @ ''/audio/'' @ pid_str p = b @ ''/audio/'' @ pid_str q"
    and "?tail m = ?tail n" by simp_all
  then have mn: "m = n" using format_06_inj assms(4,5) by simp
  have "(a @ ''/audio'') @ (CHR ''/'') # pid_str p = (b @ ''/audio'') @ (CHR ''/'') # pid_str q"
    using left by simp
  from split_last_slash [OF this chunk_pid_no_slash chunk_pid_no_slash] assms(2,3)
  have "a @ ''/audio'' = b @ ''/audio''" "pid_str p = pid_str q" by simp_all
  then show ?thesis using mn by (simp add: pseudo_id.expand)
qed

end
