(* ===== verification/Db_Invariants.thy ===== *)
theory Db_Invariants
  imports Chunk_Key Db_Consent Db_Mute Db_Uniform Db_Users Db_Service
begin

section \<open>The invariant of the database\<close>

text \<open>
  Beyond the constraints the schema declares (\<open>db_wf\<close>), the service keeps facts that only its
  code guarantees: the time stamps of a session agree with its status, every stored row of the
  uniform tables decodes, mute ranges are ordered, and every chunk row carries the object key its
  upload computed. \<open>base_inv\<close> is their conjunction; this theory shows each database operation keeps
  it. The operations that change a session's status, and the insert that writes a placeholder key,
  keep it only within their handlers, where the routes show it. That the numbers of every stream
  have no gap is a fact of another kind: \<open>service_inv\<close> adds it, and it holds of the runs in which no
  wipe commits in the middle of an upload.
\<close>

definition chunk_keys_ok :: "database \<Rightarrow> bool" where
  "chunk_keys_ok d \<longleftrightarrow>
     (\<forall>c \<in> set (t_chunks d). \<exists>s. find_session (ch_session_id c) d = Some s \<and>
        ch_s3_key c = chunk_s3_key (ses_s3_prefix s) (ch_pseudo_id c) (ch_seq c))"

definition base_facts :: "database \<Rightarrow> bool" where
  "base_facts d \<longleftrightarrow> (\<forall>s \<in> set (t_sessions d). stamps_ok s) \<and>
     all_rows_decode d \<and> mutes_ordered (t_mute_ranges d) \<and> chunk_keys_ok d"

definition base_inv :: "database \<Rightarrow> bool" where
  "base_inv d \<longleftrightarrow> db_wf d \<and> base_facts d"

lemma base_invD:
  assumes "base_inv d"
  shows "db_wf d" "\<And>s. s \<in> set (t_sessions d) \<Longrightarrow> stamps_ok s"
    "all_rows_decode d" "mutes_ordered (t_mute_ranges d)" "chunk_keys_ok d"
  using assms by (simp_all add: base_inv_def base_facts_def)

lemma base_inv_empty: "base_inv empty_db"
proof -
  have "uniform_table rt empty_db = []" for rt by (cases rt) (simp_all add: empty_db_def)
  then show ?thesis
    using db_wf_empty
    by (simp add: base_inv_def base_facts_def all_rows_decode_def
        rows_decode_def chunk_keys_ok_def) (simp add: empty_db_def mutes_ordered_def)
qed

text \<open>With numbers without gaps.\<close>

definition facts_inv :: "database \<Rightarrow> bool" where
  "facts_inv d \<longleftrightarrow> base_facts d \<and> streams_gapless (t_chunks d)"

definition service_inv :: "database \<Rightarrow> bool" where
  "service_inv d \<longleftrightarrow> db_wf d \<and> facts_inv d"

lemma service_inv_base: "service_inv d \<longleftrightarrow> base_inv d \<and> streams_gapless (t_chunks d)"
  by (simp add: service_inv_def facts_inv_def base_inv_def)

lemma service_invD:
  assumes "service_inv d"
  shows "db_wf d" "\<And>s. s \<in> set (t_sessions d) \<Longrightarrow> stamps_ok s" "streams_gapless (t_chunks d)"
    "all_rows_decode d" "mutes_ordered (t_mute_ranges d)" "chunk_keys_ok d"
  using assms by (simp_all add: service_inv_def facts_inv_def base_facts_def)

lemma service_inv_empty: "service_inv empty_db"
  using base_inv_empty by (simp add: service_inv_base streams_gapless_def) (simp add: empty_db_def)

text \<open>The facts only read six tables.\<close>

definition same_facts :: "database \<Rightarrow> database \<Rightarrow> bool" where
  "same_facts d d' \<longleftrightarrow> t_sessions d' = t_sessions d \<and> t_chunks d' = t_chunks d \<and>
     t_segments d' = t_segments d \<and> t_beats d' = t_beats d \<and> t_scenes d' = t_scenes d \<and>
     t_mute_ranges d' = t_mute_ranges d"

lemma same_facts_uniform: "same_facts d d' \<Longrightarrow> uniform_table rt d' = uniform_table rt d"
  by (cases rt) (simp_all add: same_facts_def)

lemma base_facts_cong: "same_facts d d' \<Longrightarrow> base_facts d' = base_facts d"
  by (simp add: base_facts_def all_rows_decode_def same_facts_uniform chunk_keys_ok_def
      find_session_def) (simp add: same_facts_def)

lemma facts_inv_cong: "same_facts d d' \<Longrightarrow> facts_inv d' = facts_inv d"
  using base_facts_cong [of d d'] by (simp add: facts_inv_def) (simp add: same_facts_def)

lemma tx_pres_conj:
  "tx_pres P m \<Longrightarrow> tx_pres Q m \<Longrightarrow> tx_pres (\<lambda>s. P s \<and> Q s) m"
  unfolding tx_pres_def by blast

lemma base_pres_from:
  "tx_pres db_wf m \<Longrightarrow> tx_pres base_facts m \<Longrightarrow> tx_pres base_inv m"
  unfolding tx_pres_def base_inv_def by blast

lemma facts_frame:
  "(\<And>d x d'. m d = Inr (x, d') \<Longrightarrow> same_facts d d') \<Longrightarrow> tx_pres base_facts m"
  by (rule tx_presI) (metis base_facts_cong)

text \<open>One table at a time.\<close>

lemma find_session_append:
  "find_session i d = Some s \<Longrightarrow> find_session i (d\<lparr>t_sessions := t_sessions d @ ss\<rparr>) = Some s"
  by (simp add: find_session_def find_append)

lemma chunk_keys_ok_cong:
  assumes "chunk_keys_ok d" and "set (t_chunks d') \<subseteq> set (t_chunks d)"
    and "\<And>i s. find_session i d = Some s \<Longrightarrow>
      \<exists>s'. find_session i d' = Some s' \<and> ses_s3_prefix s' = ses_s3_prefix s"
  shows "chunk_keys_ok d'"
  unfolding chunk_keys_ok_def
proof
  fix c assume "c \<in> set (t_chunks d')"
  with assms(1,2) obtain s where "find_session (ch_session_id c) d = Some s"
    "ch_s3_key c = chunk_s3_key (ses_s3_prefix s) (ch_pseudo_id c) (ch_seq c)"
    unfolding chunk_keys_ok_def by blast
  with assms(3) show "\<exists>s. find_session (ch_session_id c) d' = Some s \<and>
      ch_s3_key c = chunk_s3_key (ses_s3_prefix s) (ch_pseudo_id c) (ch_seq c)"
    by metis
qed

lemma uniform_table_other_updates [simp]:
  "uniform_table rt (d\<lparr>t_sessions := ss\<rparr>) = uniform_table rt d"
  "uniform_table rt (d\<lparr>t_chunks := cs\<rparr>) = uniform_table rt d"
  "uniform_table rt (d\<lparr>t_mute_ranges := ms\<rparr>) = uniform_table rt d"
  by (cases rt; simp)+

lemma all_rows_decode_cong [simp]:
  "all_rows_decode (d\<lparr>t_sessions := ss\<rparr>) = all_rows_decode d"
  "all_rows_decode (d\<lparr>t_chunks := cs\<rparr>) = all_rows_decode d"
  "all_rows_decode (d\<lparr>t_mute_ranges := ms\<rparr>) = all_rows_decode d"
  by (simp_all add: all_rows_decode_def)

lemma base_facts_sessions:
  assumes "base_facts d" and "\<And>s. s \<in> set ss \<Longrightarrow> stamps_ok s"
    and "\<And>i s. find_session i d = Some s \<Longrightarrow>
      \<exists>s'. find_session i (d\<lparr>t_sessions := ss\<rparr>) = Some s' \<and> ses_s3_prefix s' = ses_s3_prefix s"
  shows "base_facts (d\<lparr>t_sessions := ss\<rparr>)"
  using assms chunk_keys_ok_cong [of d "d\<lparr>t_sessions := ss\<rparr>"] by (simp add: base_facts_def)

lemma base_facts_chunks_subset:
  assumes "base_facts d" and "set cs \<subseteq> set (t_chunks d)"
  shows "base_facts (d\<lparr>t_chunks := cs\<rparr>)"
  using assms chunk_keys_ok_cong [of d "d\<lparr>t_chunks := cs\<rparr>"] by (simp add: base_facts_def)

lemma base_facts_mutes:
  "base_facts d \<Longrightarrow> mutes_ordered ms \<Longrightarrow> base_facts (d\<lparr>t_mute_ranges := ms\<rparr>)"
  by (simp add: base_facts_def chunk_keys_ok_def)

lemma base_facts_uniform:
  assumes "base_facts d" and "rows_decode rt rs"
  shows "base_facts (set_uniform_table rt rs d)"
  using assms
  by (auto simp: base_facts_def chunk_keys_ok_def find_session_def intro: all_rows_decode_set)

subsection \<open>Sessions\<close>

lemma stamps_ok_created [simp]:
  "stamps_ok \<lparr>ses_id = i, ses_guild_id = g, ses_started_at = t, ses_ended_at = None,
     ses_abandoned_at = None, ses_deleted_at = None, ses_game_system = gs,
     ses_campaign_name = cn, ses_participant_count = None, ses_s3_prefix = pre,
     ses_status = Recording, ses_created_at = now\<rparr>"
  by (simp add: stamps_ok_def)

lemma sessions_create_inv: "tx_pres base_inv (sessions_create now c)"
proof (rule base_pres_from [OF sessions_create_wf], rule tx_presI)
  fix d s d' assume inv: "base_facts d" and ok: "sessions_create now c d = Inr (s, d')"
  from ok obtain s0 where d': "d' = d\<lparr>t_sessions := t_sessions d @ [s0]\<rparr>" and s0: "stamps_ok s0"
    by (auto simp: sessions_create_def Let_def split: if_splits)
  show "base_facts d'"
    unfolding d' using inv s0
    by (intro base_facts_sessions) (auto simp: base_facts_def dest: find_session_append)
qed

text \<open>A change of one session that keeps its identity and its prefix.\<close>

definition keeps_session :: "(session \<Rightarrow> session) \<Rightarrow> bool" where
  "keeps_session f \<longleftrightarrow> (\<forall>s. ses_id (f s) = ses_id s \<and> ses_s3_prefix (f s) = ses_s3_prefix s)"

lemma keeps_session_simps [simp]:
  "keeps_session (set_status now st)" "keeps_session (set_fields e p)" "keeps_session set_resumed"
  by (simp_all add: keeps_session_def set_status_def set_fields_def set_resumed_def)

lemma find_session_keeps:
  assumes "keeps_session f"
  shows "find_session j (d\<lparr>t_sessions := update_rows (\<lambda>s. ses_id s = i) f (t_sessions d)\<rparr>) =
    map_option (\<lambda>s. if ses_id s = i then f s else s) (find_session j d)"
  unfolding find_session_def using assms
  by (simp add: find_update_rows keeps_session_def)

lemma base_facts_update_session:
  assumes inv: "base_facts d" and f: "keeps_session f"
    and ok: "\<And>s. s \<in> set (t_sessions d) \<Longrightarrow> ses_id s = i \<Longrightarrow> stamps_ok (f s)"
  shows "base_facts (d\<lparr>t_sessions := update_rows (\<lambda>s. ses_id s = i) f (t_sessions d)\<rparr>)"
proof (rule base_facts_sessions [OF inv])
  fix s assume "s \<in> set (update_rows (\<lambda>s. ses_id s = i) f (t_sessions d))"
  with inv ok show "stamps_ok s" by (auto simp: set_update_rows base_facts_def)
next
  fix j s assume "find_session j d = Some s"
  with f show "\<exists>s'. find_session j (d\<lparr>t_sessions :=
      update_rows (\<lambda>s. ses_id s = i) f (t_sessions d)\<rparr>) = Some s' \<and>
      ses_s3_prefix s' = ses_s3_prefix s"
    by (simp add: find_session_keeps [OF f]) (simp add: keeps_session_def)
qed

lemma sessions_update_facts:
  assumes f: "keeps_session f" and ok: "\<And>s. stamps_ok s \<Longrightarrow> stamps_ok (f s)"
  shows "tx_pres base_facts (sessions_update i f)"
proof (rule tx_presI)
  fix d s d' assume inv: "base_facts d" and "sessions_update i f d = Inr (s, d')"
  then have d': "d' = d\<lparr>t_sessions := update_rows (\<lambda>s. ses_id s = i) f (t_sessions d)\<rparr>"
    by (auto simp: sessions_update_eq_Inr)
  show "base_facts d'"
    unfolding d' using inv f
    by (rule base_facts_update_session) (use inv ok in \<open>auto simp: base_facts_def\<close>)
qed

lemma sessions_fields_inv: "tx_pres base_inv (sessions_patch_fields i e p)"
  by (rule base_pres_from [OF sessions_pres(4)])
    (simp add: sessions_patch_fields_def sessions_update_facts)

lemma sessions_delete_status_inv: "tx_pres base_inv (sessions_update_status now i Deleted)"
  by (rule base_pres_from [OF sessions_pres(3)])
    (simp add: sessions_update_status_def sessions_update_facts stamps_ok_set_status)

lemma sessions_get_in_tx_inv: "tx_pres base_inv (sessions_get_in_tx i)"
  by (rule tx_presI) simp

subsection \<open>Chunks\<close>

lemma base_facts_chunks_delete:
  "base_facts d \<Longrightarrow> base_facts (d\<lparr>t_chunks := delete_rows q (t_chunks d)\<rparr>)"
  by (rule base_facts_chunks_subset) simp_all

lemma chunks_delete_inv:
  "tx_pres base_inv (chunks_delete_for_session sid)"
  "tx_pres base_inv (chunks_delete_for_participant sid p)"
proof -
  have "tx_pres base_facts (chunks_delete_for_session sid)"
    "tx_pres base_facts (chunks_delete_for_participant sid p)"
    by (auto simp: tx_pres_def chunks_delete_for_session_def chunks_delete_for_participant_def
        base_facts_chunks_delete)
  then show "tx_pres base_inv (chunks_delete_for_session sid)"
    "tx_pres base_inv (chunks_delete_for_participant sid p)"
    using base_pres_from chunks_delete_wf by blast+
qed

subsection \<open>Uniform rows\<close>

lemma insert_row_facts: "tx_pres base_facts (insert_row_in_tx rt now i sid svc inp tag)"
proof (rule tx_presI)
  fix d u d' assume inv: "base_facts d"
    and ok: "insert_row_in_tx rt now i sid svc inp tag d = Inr (u, d')"
  let ?r = "pg_row_of rt now i sid svc inp tag"
  have "rows_decode rt (uniform_table rt d @ [?r])"
    using inv ok
    by (auto simp: base_facts_def all_rows_decode_def rows_decode_def insert_row_in_tx_eq_Inr)
  moreover have "d' = set_uniform_table rt (uniform_table rt d @ [?r]) d"
    using ok by (simp add: insert_row_in_tx_eq_Inr uniform_insert_pg_eq_Inr)
  ultimately show "base_facts d'" using inv by (simp add: base_facts_uniform)
qed

lemma insert_rows_facts: "tx_pres base_facts (insert_rows rt now ids tags k sid svc is)"
  by (induction "is" arbitrary: k) (auto intro!: pres_intros insert_row_facts)

lemma uniform_bulk_insert_inv:
  "tx_pres base_inv (uniform_bulk_insert rt now ids tags sid svc inputs)"
  unfolding uniform_bulk_insert_def
  by (intro pres_intros base_pres_from [OF insert_rows_wf insert_rows_facts])

lemma uniform_patch_eq_Inr:
  "uniform_patch rt now tag i expected p d = Inr (u, d') \<longleftrightarrow>
     (\<exists>r e. find_pg rt i d = Some r \<and> row_from_pg rt r = Inr e \<and>
        (expected = None \<or> expected = Some (un_etag e)) \<and>
        (let f = update_pg rt now tag (apply_patch rt p e) (pi_author_user_pseudo_id p)
         in author_ok (pg_author_user_pseudo_id (f r)) \<and> row_from_pg rt (f r) = Inr u \<and>
            d' = set_uniform_table rt
              (update_rows (\<lambda>r. pg_id r = i) f (uniform_table rt d)) d))"
  by (auto simp: uniform_patch_def tx_bind_eq_Inr Let_def uniform_update_pg_eq_Inr
      split: option.splits)

lemma uniform_patch_inv: "tx_pres base_inv (uniform_patch rt now tag i expected p)"
proof (rule tx_presI)
  fix d u d' assume inv: "base_inv d"
    and ok: "uniform_patch rt now tag i expected p d = Inr (u, d')"
  from ok obtain r f where r: "find_pg rt i d = Some r" and dec: "row_from_pg rt (f r) = Inr u"
    and d': "d' = set_uniform_table rt (update_rows (\<lambda>r. pg_id r = i) f (uniform_table rt d)) d"
    unfolding uniform_patch_eq_Inr Let_def by blast
  have only: "q = r" if "q \<in> set (uniform_table rt d)" "pg_id q = i" for q
    using find_pg_Some_iff [OF base_invD(1) [OF inv], of rt i] r that
    by (metis option.inject)
  have "rows_decode rt (update_rows (\<lambda>r. pg_id r = i) f (uniform_table rt d))"
    using all_rows_decodeD [OF base_invD(3) [OF inv], of rt] dec only
    by (auto simp: rows_decode_def set_update_rows)
  then have "base_facts d'"
    using inv unfolding d' by (intro base_facts_uniform) (simp_all add: base_inv_def)
  moreover have "db_wf d'"
    using tx_presD [OF uniform_patch_wf base_invD(1) [OF inv] ok] .
  ultimately show "base_inv d'" by (simp add: base_inv_def)
qed

lemma base_facts_uniform_delete:
  "base_facts d \<Longrightarrow> base_facts (set_uniform_table rt (delete_rows q (uniform_table rt d)) d)"
  by (rule base_facts_uniform)
    (auto simp: base_facts_def intro: rows_decode_delete all_rows_decodeD)

lemma uniform_delete_inv:
  "h_pres base_inv (uniform_delete rt i)"
  "tx_pres base_inv (uniform_delete_all_for_session rt sid)"
  "tx_pres base_inv (uniform_delete_for_participant_segments sid p)"
proof -
  show "h_pres base_inv (uniform_delete rt i)"
  proof (rule h_presI)
    fix d assume "base_inv d"
    then show "base_inv (snd (uniform_delete rt i d))"
      using h_presD [OF uniform_delete_wf, of d rt i]
      by (auto simp: base_inv_def uniform_delete_def base_facts_uniform_delete
          split: option.splits)
  qed
  show "tx_pres base_inv (uniform_delete_all_for_session rt sid)"
    by (rule base_pres_from [OF uniform_delete_all_wf], rule tx_presI)
      (auto simp: uniform_delete_all_for_session_def Let_def base_facts_uniform_delete)
  show "tx_pres base_inv (uniform_delete_for_participant_segments sid p)"
    by (rule base_pres_from [OF uniform_delete_for_participant_wf], rule tx_presI)
      (use base_facts_uniform_delete [of _ SEGMENTS] in
        \<open>auto simp: uniform_delete_for_participant_segments_def\<close>)
qed

subsection \<open>Mute ranges\<close>

lemma mute_inv:
  "tx_pres base_inv (mute_ranges_create now new_id sid p c)"
  "tx_pres base_inv (mute_ranges_delete_one sid p i)"
  "tx_pres base_inv (mute_ranges_delete_for_session sid)"
  "tx_pres base_inv (mute_ranges_delete_for_participant sid p)"
proof -
  have mutes: "mutes_ordered (t_mute_ranges d)" if "base_facts d" for d
    using that by (simp add: base_facts_def)
  have create: "tx_pres base_facts (mute_ranges_create now new_id sid p c)"
    by (rule tx_presI)
      (auto simp: mute_ranges_create_def Let_def mutes_ordered_def dest: mutes
        intro!: base_facts_mutes split: if_splits)
  have deletes: "tx_pres base_facts (mute_ranges_delete_one sid p i)"
    "tx_pres base_facts (mute_ranges_delete_for_session sid)"
    "tx_pres base_facts (mute_ranges_delete_for_participant sid p)"
    by (auto intro!: tx_presI base_facts_mutes mutes_ordered_delete mutes split: option.splits
        simp: mute_ranges_delete_one_def mute_ranges_delete_for_session_def Let_def
          mute_ranges_delete_for_participant_def)
  show "tx_pres base_inv (mute_ranges_create now new_id sid p c)"
    by (rule base_pres_from [OF mute_ranges_create_wf create])
  show "tx_pres base_inv (mute_ranges_delete_one sid p i)"
    "tx_pres base_inv (mute_ranges_delete_for_session sid)"
    "tx_pres base_inv (mute_ranges_delete_for_participant sid p)"
    by (rule base_pres_from [OF mute_ranges_delete_wf(1) deletes(1)],
        rule base_pres_from [OF mute_ranges_delete_wf(2) deletes(2)],
        rule base_pres_from [OF mute_ranges_delete_wf(3) deletes(3)])
qed

subsection \<open>The tables the facts do not read\<close>

lemma audit_inv:
  "tx_pres base_inv (audit_append aid now e)"
  "tx_pres base_inv (audit_append_tx aid now e)"
  by (rule base_pres_from [OF audit_append_wf], rule facts_frame,
      simp add: audit_append_eq_Inr same_facts_def,
      rule base_pres_from [OF audit_append_tx_wf], rule facts_frame,
      simp add: audit_append_tx_eq audit_append_eq_Inr same_facts_def)

lemma users_inv:
  "tx_pres base_inv (users_upsert now p)"
  "tx_pres base_inv (users_set_admin now p admin)"
  "tx_pres base_inv (display_names_upsert now p name src)"
  by (rule base_pres_from [OF users_upsert_wf], rule facts_frame,
      force simp: users_upsert_def Let_def same_facts_def split: if_splits option.splits,
      rule base_pres_from [OF users_set_admin_wf], rule facts_frame,
      force simp: users_set_admin_def Let_def same_facts_def split: if_splits option.splits,
      rule base_pres_from [OF display_names_upsert_wf], rule facts_frame,
      force simp: display_names_upsert_def Let_def same_facts_def split: if_splits option.splits)

lemma participants_update_facts: "tx_pres base_facts (participants_update i f)"
  by (rule facts_frame) (auto simp: participants_update_eq_Inr same_facts_def)

lemma participant_upsert_row_inv: "tx_pres base_inv (participant_upsert_row now new_id sid a)"
  by (rule base_pres_from [OF participant_upsert_row_wf], rule facts_frame)
    (force simp: participant_upsert_row_def Let_def same_facts_def split: if_splits option.splits)

lemma seed_users_inv: "tx_pres base_inv (seed_users now ps)"
  by (induction ps) (auto intro!: pres_intros users_inv)

lemma participant_upsert_rows_inv:
  "tx_pres base_inv (participant_upsert_rows now new_id k sid seen as)"
  by (induction as arbitrary: k seen) (auto intro!: pres_intros participant_upsert_row_inv)

lemma participants_inv:
  "tx_pres base_inv (participants_add now new_id sid a)"
  "tx_pres base_inv (participants_add_many now ids sid inputs)"
  "tx_pres base_inv (participants_update_consent now i c)"
  "tx_pres base_inv (participants_update_license i l)"
  "tx_pres base_inv (participants_mark_wiped now sid p)"
  "tx_pres base_inv (participants_delete_for_session sid)"
proof -
  show "tx_pres base_inv (participants_add now new_id sid a)"
    unfolding participants_add_def by (intro pres_intros users_inv participant_upsert_row_inv)
  show "tx_pres base_inv (participants_add_many now ids sid inputs)"
    unfolding participants_add_many_def
    by (intro pres_intros seed_users_inv participant_upsert_rows_inv)
  have "tx_pres base_facts (participants_update_consent now i c)"
    unfolding participants_update_consent_def by (intro pres_intros participants_update_facts)
  then show "tx_pres base_inv (participants_update_consent now i c)"
    by (rule base_pres_from [OF participants_update_consent_wf])
  have "tx_pres base_facts (participants_update_license i l)"
    unfolding participants_update_license_def by (rule participants_update_facts)
  then show "tx_pres base_inv (participants_update_license i l)"
    by (rule base_pres_from [OF participants_update_license_wf])
  show "tx_pres base_inv (participants_mark_wiped now sid p)"
    by (rule base_pres_from [OF participants_mark_wiped_wf], rule facts_frame)
      (simp add: participants_mark_wiped_def same_facts_def)
  show "tx_pres base_inv (participants_delete_for_session sid)"
    by (rule base_pres_from [OF participants_delete_for_session_wf], rule facts_frame)
      (auto simp: participants_delete_for_session_def Let_def same_facts_def)
qed

lemma metadata_upsert_facts: "tx_pres base_facts (metadata_upsert now sid blob tag)"
  by (rule facts_frame)
    (force simp: metadata_upsert_def Let_def same_facts_def split: if_splits option.splits)

lemma metadata_inv:
  "tx_pres base_inv (metadata_replace now tag sid blob)"
  "tx_pres base_inv (metadata_shallow_merge now tag0 tag1 sid expected patch)"
  "tx_pres base_inv (metadata_delete_for_session sid)"
proof -
  note up = base_pres_from [OF metadata_upsert_wf metadata_upsert_facts]
  show "tx_pres base_inv (metadata_replace now tag sid blob)"
    by (simp add: metadata_replace_def up)
  show "tx_pres base_inv (metadata_shallow_merge now tag0 tag1 sid expected patch)"
    unfolding metadata_shallow_merge_def by (auto intro!: pres_intros up split: prod.splits)
  show "tx_pres base_inv (metadata_delete_for_session sid)"
    by (rule base_pres_from [OF metadata_delete_wf], rule facts_frame)
      (simp add: metadata_delete_for_session_def same_facts_def)
qed

lemma service_session_inv:
  "tx_pres base_inv (service_sessions_insert now i name hash)"
  "tx_pres base_inv (service_sessions_touch now hash)"
  "tx_pres base_inv (service_sessions_reap_stale now w)"
  by (rule base_pres_from [OF service_sessions_insert_wf], rule facts_frame,
      force simp: service_sessions_insert_def Let_def same_facts_def split: if_splits option.splits,
      rule base_pres_from [OF service_sessions_touch_wf], rule facts_frame,
      force simp: service_sessions_touch_def same_facts_def,
      rule base_pres_from [OF service_sessions_reap_wf], rule facts_frame,
      force simp: service_sessions_reap_stale_def same_facts_def split: if_splits)

lemma consent_inv:
  "tx_pres base_inv (consent_tokens_create now i sid pa p)"
  "tx_pres base_inv (consent_tokens_revoke now tok)"
  by (rule base_pres_from [OF consent_tokens_create_wf], rule facts_frame,
      force simp: consent_tokens_create_def Let_def same_facts_def split: if_splits,
      rule base_pres_from [OF consent_tokens_revoke_wf], rule facts_frame,
      force simp: consent_tokens_revoke_def same_facts_def)

lemmas db_op_inv = sessions_create_inv sessions_fields_inv sessions_delete_status_inv
  sessions_get_in_tx_inv chunks_delete_inv uniform_bulk_insert_inv uniform_patch_inv
  uniform_delete_inv mute_inv audit_inv users_inv participants_inv metadata_inv
  service_session_inv consent_inv

end
