(* ===== verification/Samples.thy ===== *)
theory Samples
  imports World
begin

section \<open>Sample data\<close>

text \<open>
  Concrete values at which the properties are instantiated: one session, one speaker, an
  environment whose draws are all different, and the in-memory store.
\<close>

definition sample_pid :: pseudo_id where
  "sample_pid = PseudoId ''0123456789abcdef01234567''"

definition sample_session :: "session_status \<Rightarrow> session" where
  "sample_session st =
     \<lparr>ses_id = 1, ses_guild_id = 7, ses_started_at = 5, ses_ended_at = None,
      ses_abandoned_at = (if st = Abandoned then Some 50 else None),
      ses_deleted_at = (if st = Deleted then Some 60 else None),
      ses_game_system = None, ses_campaign_name = None, ses_participant_count = None,
      ses_s3_prefix = ''sessions/1'', ses_status = st, ses_created_at = 5\<rparr>"

definition sample_db :: "session_status \<Rightarrow> database" where
  "sample_db st = empty_db\<lparr>t_sessions := [sample_session st]\<rparr>"

definition sample_env :: env where
  "sample_env =
     \<lparr>ev_auth_now = 90, ev_db_now = (\<lambda>k. 100 + int k), ev_utc_now = (\<lambda>k. 200 + int k),
      ev_row_id = (\<lambda>k. 1000 + of_nat k), ev_audit_id = (\<lambda>k. 2000 + of_nat k),
      ev_tag = (\<lambda>k. ETag (if k = 0 then ''00000000000000aa'' else ''00000000000000bb'')),
      ev_elapsed = 0\<rparr>"

text \<open>A later request, with draws of its own.\<close>

definition sample_env2 :: env where
  "sample_env2 =
     \<lparr>ev_auth_now = 390, ev_db_now = (\<lambda>k. 400 + int k), ev_utc_now = (\<lambda>k. 500 + int k),
      ev_row_id = (\<lambda>k. 3000 + of_nat k), ev_audit_id = (\<lambda>k. 4000 + of_nat k),
      ev_tag = (\<lambda>k. ETag (if k = 0 then ''00000000000000cc'' else ''00000000000000dd'')),
      ev_elapsed = 0\<rparr>"

definition sample_state :: "mem_objects app_state" where
  "sample_state =
     \<lparr>st_store = mem_store, st_shared_secret = ''secret'', st_resume_ttl = 86400,
      st_ws_queue_depth = 64, st_heartbeat_reap = 90\<rparr>"

definition sample_world :: "database \<Rightarrow> mem_objects world" where
  "sample_world d = \<lparr>w_db = d, w_store = Map.empty, w_events = [], w_metrics = metrics_new\<rparr>"

lemma sample_valid_pid [simp]: "is_valid_pseudo_id ''0123456789abcdef01234567''"
  by code_simp

lemmas sample_defs = sample_pid_def sample_session_def sample_db_def sample_env_def
  sample_env2_def sample_state_def sample_world_def empty_db_def

end
