(* ===== verification/Versioned.thy ===== *)
theory Versioned
  imports Db_Invariants
begin

section \<open>Documents under a row lock and an entity tag\<close>

text \<open>
  The metadata blob and the rows of the uniform tables are patched the same way: a transaction
  reads the document with \<^verbatim>\<open>FOR UPDATE\<close>, compares its tag with the expected one, and writes it under a
  tag of its own. Here any number of such transactions run at once, statement by statement. A
  transaction that has read an existing row holds its lock until it ends, and no other can read the
  row with a lock or write it meanwhile; a read that finds no row locks nothing. The locale
  \<open>locked_document\<close> shows that transactions on a document that exists are serialised by the lock;
  \<open>tagged_document\<close> adds the contract of the tag and concludes that of the transactions that name
  one tag at most one succeeds. Both documents are instances of both.
\<close>

subsection \<open>Transactions at work on one document\<close>

datatype ('m, 'e, 'u) doc_pc = Waiting | Holding "'m option" | Ended "'e + 'u"

definition run_or_rollback :: "('e, 'd, 'u) tx \<Rightarrow> 'd \<Rightarrow> ('e + 'u) \<times> 'd" where
  "run_or_rollback m d = (case m d of Inl e \<Rightarrow> (Inl e, d) | Inr (u, d') \<Rightarrow> (Inr u, d'))"

lemma run_or_rollback_eq:
  "run_or_rollback m d = (Inl e, d') \<longleftrightarrow> m d = Inl e \<and> d' = d"
  "run_or_rollback m d = (Inr u, d') \<longleftrightarrow> m d = Inr (u, d')"
  by (auto simp: run_or_rollback_def split: sum.splits prod.splits)

text \<open>
  \<open>read\<close> is the locking read; \<open>finish\<close> is the rest of a call's transaction, given what was read.
  Between the statements any other transaction may run that leaves this document as it is, and, while
  nobody holds the lock, one that rewrites the document without reading it (\<open>alters\<close>).
\<close>

inductive doc_step ::
    "('d \<Rightarrow> 'm option) \<Rightarrow> ('c \<Rightarrow> 'm option \<Rightarrow> ('e, 'd, 'u) tx) \<Rightarrow> ('d \<Rightarrow> 'd \<Rightarrow> bool) \<Rightarrow>
     (nat \<Rightarrow> 'c) \<Rightarrow> (nat \<Rightarrow> ('m, 'e, 'u) doc_pc) \<times> 'd \<Rightarrow>
     (nat \<Rightarrow> ('m, 'e, 'u) doc_pc) \<times> 'd \<Rightarrow> bool"
  for read finish alters calls where
  lock: "pc i = Waiting \<Longrightarrow> read d = None \<or> (\<forall>j m. pc j \<noteq> Holding (Some m)) \<Longrightarrow>
    doc_step read finish alters calls (pc, d) (pc(i := Holding (read d)), d)"
| finish: "pc i = Holding x \<Longrightarrow> run_or_rollback (finish (calls i) x) d = (r, d') \<Longrightarrow>
    isl r \<or> (\<forall>j m. j \<noteq> i \<longrightarrow> pc j \<noteq> Holding (Some m)) \<Longrightarrow>
    doc_step read finish alters calls (pc, d) (pc(i := Ended r), d')"
| other: "read d' = read d \<Longrightarrow> doc_step read finish alters calls (pc, d) (pc, d')"
| alter: "\<forall>j m. pc j \<noteq> Holding (Some m) \<Longrightarrow> alters d d' \<Longrightarrow>
    doc_step read finish alters calls (pc, d) (pc, d')"

abbreviation doc_run where
  "doc_run read finish alters calls \<equiv> (doc_step read finish alters calls)\<^sup>*\<^sup>*"

text \<open>The specification: the same calls one after another, each as one atomic step.\<close>

inductive serial_run ::
    "('d \<Rightarrow> 'm option) \<Rightarrow> ('c \<Rightarrow> 'm option \<Rightarrow> ('e, 'd, 'u) tx) \<Rightarrow> ('d \<Rightarrow> 'd \<Rightarrow> bool) \<Rightarrow>
     (nat \<Rightarrow> 'c) \<Rightarrow> 'd \<Rightarrow> (nat \<times> ('e + 'u)) list \<Rightarrow> 'd \<Rightarrow> bool"
  for read finish alters calls d0 where
  start: "serial_run read finish alters calls d0 [] d0"
| call: "serial_run read finish alters calls d0 log d \<Longrightarrow>
    run_or_rollback (finish (calls i) (read d)) d = (r, d') \<Longrightarrow>
    serial_run read finish alters calls d0 (log @ [(i, r)]) d'"
| other: "serial_run read finish alters calls d0 log d \<Longrightarrow> read d' = read d \<or> alters d d' \<Longrightarrow>
    serial_run read finish alters calls d0 log d'"

locale locked_document =
  fixes read :: "'d \<Rightarrow> 'm option"
    and finish :: "'c \<Rightarrow> 'm option \<Rightarrow> ('e, 'd, 'u) tx"
    and alters :: "'d \<Rightarrow> 'd \<Rightarrow> bool"
  assumes kept: "finish c (read d) d = Inr (u, d') \<Longrightarrow> read d' \<noteq> None"
    and rewritten: "alters d d' \<Longrightarrow> read d' \<noteq> None"
begin

definition lock_inv :: "(nat \<Rightarrow> ('m, 'e, 'u) doc_pc) \<times> 'd \<Rightarrow> bool" where
  "lock_inv x \<longleftrightarrow>
     (case x of (pc, d) \<Rightarrow> read d \<noteq> None \<and> (\<forall>i m. pc i = Holding m \<longrightarrow> m = read d) \<and>
        (\<forall>i j m n. pc i = Holding m \<longrightarrow> pc j = Holding n \<longrightarrow> i = j))"

lemma lock_inv_holding:
  "lock_inv (pc, d) \<Longrightarrow> pc i = Holding x \<Longrightarrow> x = read d"
  by (auto simp: lock_inv_def)

lemma read_kept:
  assumes "run_or_rollback (finish c (read d)) d = (r, d')" and "read d \<noteq> None"
  shows "read d' \<noteq> None" "isl r \<Longrightarrow> d' = d"
  using assms kept by (cases r; auto simp: run_or_rollback_eq)+

lemma lock_step:
  assumes "doc_step read finish alters calls x y" and "lock_inv x"
  shows "lock_inv y"
  using assms
proof (induction rule: doc_step.induct)
  case (lock pc i d)
  then show ?case by (auto simp: lock_inv_def)
next
  case (alter pc d d')
  have "pc i \<noteq> Holding m" for i m
  proof
    assume h: "pc i = Holding m"
    have "m = read d" by (rule lock_inv_holding [OF alter(3) h])
    moreover have "read d \<noteq> None" using alter(3) by (simp add: lock_inv_def)
    ultimately show False using alter(1) h by auto
  qed
  with rewritten [OF alter(2)] show ?case by (simp add: lock_inv_def)
next
  case (finish pc i x d r d')
  have x: "x = read d" by (rule lock_inv_holding [OF finish(4) finish(1)])
  have "read d \<noteq> None" using finish(4) by (simp add: lock_inv_def)
  with finish(2) x have d': "read d' \<noteq> None" by (blast dest: read_kept)
  have "pc j \<noteq> Holding m" if "j \<noteq> i" for j m
    using that finish by (auto simp: lock_inv_def)
  with d' show ?case by (auto simp: lock_inv_def)
qed (auto simp: lock_inv_def)

lemma serialised:
  assumes run: "doc_run read finish alters calls (\<lambda>_. Waiting, d0) x" and ex: "read d0 \<noteq> None"
  shows "lock_inv x \<and> (\<exists>log. serial_run read finish alters calls d0 log (snd x) \<and>
    distinct (map fst log) \<and> (\<forall>i r. fst x i = Ended r \<longleftrightarrow> (i, r) \<in> set log))"
  using run
proof (induction rule: rtranclp_induct)
  case base
  from ex show ?case by (auto simp: lock_inv_def intro!: exI [of _ "[]"] serial_run.start)
next
  case (step x y)
  then obtain log where inv: "lock_inv x"
    and ser: "serial_run read finish alters calls d0 log (snd x)" and dist: "distinct (map fst log)"
    and log: "\<And>i r. fst x i = Ended r \<longleftrightarrow> (i, r) \<in> set log" by blast
  have inv': "lock_inv y" by (rule lock_step [OF step.hyps(2) inv])
  from step.hyps(2) show ?case
  proof (cases rule: doc_step.cases)
    case (lock pc i d)
    then have "(j, r) \<in> set log \<longleftrightarrow> fst y j = Ended r" for j r using log [of j r] by auto
    moreover have "snd y = snd x" using lock by simp
    ultimately show ?thesis using ser dist inv' by metis
  next
    case (finish pc i z d r d')
    have "serial_run read finish alters calls d0 (log @ [(i, r)]) (snd y)"
      using ser finish lock_inv_holding [of pc d i z] inv by (simp add: serial_run.call)
    moreover have "(i, q) \<notin> set log" for q using log [of i q] finish by simp
    then have "distinct (map fst (log @ [(i, r)]))" using dist by auto
    moreover have "fst y j = Ended q \<longleftrightarrow> (j, q) \<in> set (log @ [(i, r)])" for j q
      using log [of j q] log [of i q] finish by auto
    ultimately show ?thesis using inv' by blast
  next
    case (other d' d pc)
    then have "serial_run read finish alters calls d0 log (snd y)" using ser by (simp add: serial_run.other)
    with other log dist inv' show ?thesis by auto
  next
    case (alter pc d d')
    then have "serial_run read finish alters calls d0 log (snd y)" using ser
      by (simp add: serial_run.other)
    with alter log dist inv' show ?thesis by auto
  qed
qed

end

subsection \<open>The tag\<close>

locale tagged_document = locked_document read finish alters
  for read :: "'d \<Rightarrow> 'm option" and finish :: "'c \<Rightarrow> 'm option \<Rightarrow> ('e, 'd, 'u) tx"
    and alters :: "'d \<Rightarrow> 'd \<Rightarrow> bool" +
  fixes tag :: "'m \<Rightarrow> etag" and expects :: "'c \<Rightarrow> etag option" and draws :: "'c \<Rightarrow> etag"
  assumes stale: "expects c = Some e \<Longrightarrow> e \<noteq> tag m \<Longrightarrow> \<exists>x. finish c (Some m) d = Inl x"
    and retag: "finish c (read d) d = Inr (u, d') \<Longrightarrow> map_option tag (read d') = Some (draws c)"
begin

lemma serial_one_winner:
  assumes "serial_run read finish alters calls d0 log d" and "read d0 \<noteq> None"
    and "\<And>i. expects (calls i) = Some e" and "\<And>i. draws (calls i) \<noteq> e"
    and "\<And>d d'. alters d d' \<Longrightarrow> map_option tag (read d') \<noteq> Some e"
  shows "read d \<noteq> None \<and> length (filter (\<lambda>x. \<not> isl (snd x)) log) \<le> 1 \<and>
    (filter (\<lambda>x. \<not> isl (snd x)) log \<noteq> [] \<longrightarrow> map_option tag (read d) \<noteq> Some e)"
  using assms(1)
proof (induction rule: serial_run.induct)
  case start
  with assms(2) show ?case by simp
next
  case (call log d i r d')
  show ?case
  proof (cases r)
    case (Inl x)
    with call show ?thesis by (auto simp: run_or_rollback_eq)
  next
    case (Inr u)
    with call(2) have ok: "finish (calls i) (read d) d = Inr (u, d')"
      by (simp add: run_or_rollback_eq)
    then have "map_option tag (read d') = Some (draws (calls i))" by (rule retag)
    moreover obtain m where m: "read d = Some m" using call(3) by auto
    have "tag m = e" using stale [OF assms(3), of m i d] ok m by auto
    ultimately show ?thesis using call(3) assms(4) [of i] Inr m by auto
  qed
next
  case (other log d d')
  then show ?case
  proof (cases "alters d d'")
    case True
    from rewritten [OF True] assms(5) [OF True] other(3) show ?thesis by blast
  qed simp
qed

lemma one_winner:
  assumes run: "doc_run read finish alters calls (\<lambda>_. Waiting, d0) (pc, d)" and ex: "read d0 \<noteq> None"
    and calls: "\<And>i. expects (calls i) = Some e" "\<And>i. draws (calls i) \<noteq> e"
      "\<And>d d'. alters d d' \<Longrightarrow> map_option tag (read d') \<noteq> Some e"
    and won: "pc i = Ended (Inr u)" "pc j = Ended (Inr v)"
  shows "i = j"
proof -
  obtain log where ser: "serial_run read finish alters calls d0 log d"
    and log: "\<And>i r. pc i = Ended r \<longleftrightarrow> (i, r) \<in> set log"
    using serialised [OF run ex] by auto
  let ?ok = "filter (\<lambda>x. \<not> isl (snd x)) log"
  have "length ?ok \<le> 1" using serial_one_winner [OF ser ex, of e] calls by blast
  moreover have "(i, Inr u) \<in> set ?ok" "(j, Inr v) \<in> set ?ok" using won log by auto
  ultimately show ?thesis by (cases ?ok) auto
qed

end

subsection \<open>The metadata blob\<close>

record merge_call =
  mg_now :: time
  mg_tag0 :: etag
  mg_tag1 :: etag
  mg_expected :: "etag option"
  mg_patch :: json

definition merge_after ::
    "uuid \<Rightarrow> merge_call \<Rightarrow> metadata_blob option \<Rightarrow> metadata_blob dbop" where
  "merge_after sid c existing =
     (let (base, current) =
        (case existing of Some r \<Rightarrow> (md_blob r, md_etag r) | None \<Rightarrow> (JObj [], mg_tag0 c))
      in tx_bind (tx_lift (check_expected (mg_expected c) current)) (\<lambda>_.
         tx_bind (tx_lift (merge_shallow base (mg_patch c))) (\<lambda>merged.
         metadata_upsert (mg_now c) sid merged (mg_tag1 c))))"

text \<open>A merge is its locking read and the rest.\<close>

lemma merge_split:
  "metadata_shallow_merge (mg_now c) (mg_tag0 c) (mg_tag1 c) sid (mg_expected c) (mg_patch c) d =
     merge_after sid c (find_metadata sid d) d"
  by (simp add: metadata_shallow_merge_def merge_after_def tx_bind_def)

lemma metadata_shallow_merge_eq_Inr:
  "metadata_shallow_merge now tag0 tag1 sid expected patch d = Inr (m, d') \<longleftrightarrow>
     (\<exists>base current merged.
        (case find_metadata sid d of
           Some r \<Rightarrow> base = md_blob r \<and> current = md_etag r
         | None \<Rightarrow> base = JObj [] \<and> current = tag0) \<and>
        (expected = None \<or> expected = Some current) \<and>
        merge_shallow base patch = Inr merged \<and>
        metadata_upsert now sid merged tag1 d = Inr (m, d'))"
  by (cases "find_metadata sid d") (auto simp: metadata_shallow_merge_def tx_bind_eq_Inr)

lemma merge_after_eq_Inr:
  "merge_after sid c x d = Inr (m, d') \<longleftrightarrow>
     (\<exists>base current merged.
        (case x of Some r \<Rightarrow> base = md_blob r \<and> current = md_etag r
         | None \<Rightarrow> base = JObj [] \<and> current = mg_tag0 c) \<and>
        (mg_expected c = None \<or> mg_expected c = Some current) \<and>
        merge_shallow base (mg_patch c) = Inr merged \<and>
        metadata_upsert (mg_now c) sid merged (mg_tag1 c) d = Inr (m, d'))"
  by (cases x) (auto simp: merge_after_def tx_bind_eq_Inr)

lemma merge_laws:
  "merge_after sid c x d = Inr (u, d') \<Longrightarrow>
     map_option md_etag (find_metadata sid d') = Some (mg_tag1 c)"
  "mg_expected c = Some e \<Longrightarrow> e \<noteq> md_etag m \<Longrightarrow> \<exists>x. merge_after sid c (Some m) d = Inl x"
proof -
  show "merge_after sid c x d = Inr (u, d') \<Longrightarrow>
      map_option md_etag (find_metadata sid d') = Some (mg_tag1 c)"
    by (auto simp: merge_after_eq_Inr metadata_upsert_get)
  assume "mg_expected c = Some e" "e \<noteq> md_etag m"
  then have "merge_after sid c (Some m) d \<noteq> Inr (u, d')" for u d'
    by (auto simp: merge_after_eq_Inr)
  then show "\<exists>x. merge_after sid c (Some m) d = Inl x"
    by (cases "merge_after sid c (Some m) d") auto
qed

text \<open>A \<^verbatim>\<open>POST\<close> rewrites the blob without reading it; its tag is one of those \<open>P\<close> holds of.\<close>

definition replaced :: "uuid \<Rightarrow> (etag \<Rightarrow> bool) \<Rightarrow> database \<Rightarrow> database \<Rightarrow> bool" where
  "replaced sid P d d' \<longleftrightarrow>
     (\<exists>now tag blob m. P tag \<and> metadata_replace now tag sid blob d = Inr (m, d'))"

lemma replaced_read:
  "replaced sid P d d' \<Longrightarrow> \<exists>m. find_metadata sid d' = Some m \<and> P (md_etag m)"
  by (auto simp: replaced_def metadata_replace_def metadata_upsert_get)

interpretation metadata_doc:
    tagged_document "find_metadata sid" "merge_after sid" "replaced sid P" md_etag mg_expected
      mg_tag1
  for sid P
  by unfold_locales (auto dest: merge_laws replaced_read)

subsection \<open>A row of the uniform tables\<close>

record row_call =
  rc_now :: time
  rc_tag :: etag
  rc_expected :: "etag option"
  rc_patch :: patch_input

definition patch_after ::
    "resource_table \<Rightarrow> uuid \<Rightarrow> row_call \<Rightarrow> pg_row option \<Rightarrow> uniform_row dbop" where
  "patch_after rt i c existing =
     tx_bind (tx_lift (ok_or (row_not_found rt i) existing)) (\<lambda>r.
     tx_bind (tx_lift (row_from_pg rt r)) (\<lambda>existing_row.
     tx_bind (tx_lift (check_expected (rc_expected c) (un_etag existing_row))) (\<lambda>_.
     tx_bind (uniform_update_pg rt i
                (update_pg rt (rc_now c) (rc_tag c) (apply_patch rt (rc_patch c) existing_row)
                   (pi_author_user_pseudo_id (rc_patch c)))) (\<lambda>r.
     tx_lift (row_from_pg rt r)))))"

lemma patch_split:
  "uniform_patch rt (rc_now c) (rc_tag c) i (rc_expected c) (rc_patch c) d =
     patch_after rt i c (find_pg rt i d) d"
  by (simp add: uniform_patch_def patch_after_def tx_bind_def split: option.split)

lemma find_pg_updated:
  assumes "find_pg rt i d = Some r" and "\<And>r. pg_id (f r) = pg_id r"
  shows "find_pg rt i (set_uniform_table rt
    (update_rows (\<lambda>r. pg_id r = i) f (uniform_table rt d)) d) = Some (f r)"
proof -
  have "List.find (\<lambda>r. pg_id r = i) (update_rows (\<lambda>r. pg_id r = i) f rs) =
      map_option f (List.find (\<lambda>r. pg_id r = i) rs)" for rs
    by (induction rs) (auto simp: assms(2))
  with assms(1) show ?thesis by (simp add: find_pg_def)
qed

lemma patch_laws:
  "patch_after rt i c (find_pg rt i d) d = Inr (u, d') \<Longrightarrow>
     map_option (\<lambda>r. ETag (pg_etag r)) (find_pg rt i d') = Some (rc_tag c)"
  "rc_expected c = Some e \<Longrightarrow> e \<noteq> ETag (pg_etag m) \<Longrightarrow> \<exists>x. patch_after rt i c (Some m) d = Inl x"
proof -
  assume "patch_after rt i c (find_pg rt i d) d = Inr (u, d')"
  then show "map_option (\<lambda>r. ETag (pg_etag r)) (find_pg rt i d') = Some (rc_tag c)"
    unfolding patch_split [symmetric]
    by (auto simp: uniform_patch_eq_Inr Let_def find_pg_updated)
next
  assume "rc_expected c = Some e" "e \<noteq> ETag (pg_etag m)"
  then have "patch_after rt i c (Some m) d \<noteq> Inr (u, d')" for u d'
    by (auto simp: patch_after_def tx_bind_eq_Inr dest: row_from_pg_fields)
  then show "\<exists>x. patch_after rt i c (Some m) d = Inl x"
    by (cases "patch_after rt i c (Some m) d") auto
qed

interpretation row_doc:
    tagged_document "find_pg rt i" "patch_after rt i" "\<lambda>_ _. False" "\<lambda>r. ETag (pg_etag r)"
      rc_expected rc_tag
  for rt i
  by unfold_locales (auto dest: patch_laws)

subsection \<open>One call after another\<close>

lemma doc_run_alone:
  assumes "run_or_rollback (finish (calls i) (read d)) d = (r, d')" and "pc i = Waiting"
    and "\<And>j m. pc j \<noteq> Holding m"
  shows "doc_run read finish alters calls (pc, d) (pc(i := Ended r), d')"
proof -
  have "doc_step read finish alters calls (pc, d) (pc(i := Holding (read d)), d)"
    using assms(2,3) by (intro doc_step.lock) auto
  moreover have "doc_step read finish alters calls (pc(i := Holding (read d)), d)
      ((pc(i := Holding (read d)))(i := Ended r), d')"
    using assms(1,3) by (intro doc_step.finish) auto
  ultimately show ?thesis by simp
qed

lemma doc_run_two:
  assumes "run_or_rollback (finish (calls 0) (read d)) d = (r, d1)"
    and "run_or_rollback (finish (calls 1) (read d1)) d1 = (q, d2)"
  shows "doc_run read finish alters calls (\<lambda>_. Waiting, d)
    ((\<lambda>_. Waiting)(0 := Ended r, 1 := Ended q), d2)"
  by (rule rtranclp_trans, rule doc_run_alone [where i = 0], rule assms(1), simp, simp,
    rule doc_run_alone [where i = 1], rule assms(2)) simp_all

end
