(* ===== verification/Routes_Sessions.thy ===== *)
theory Routes_Sessions
  imports Samples Db_Invariants
begin

section \<open>Session routes\<close>

text \<open>
  \<^verbatim>\<open>src/routes/sessions.rs\<close>. A handler's database transaction is one \<open>dbop\<close> (suffix
  \<open>_tx\<close>), run by \<open>run_tx\<close>; events and counters follow its commit. The status changes here are
  the table \<open>can_transition\<close> for \<^verbatim>\<open>PATCH\<close>, the resume edge within its time limit, and the
  deletion cascade, which takes any session to \<open>Deleted\<close>.
\<close>

definition session_entry :: "string \<Rightarrow> uuid \<Rightarrow> string \<Rightarrow> json \<Rightarrow> audit_entry" where
  "session_entry svc i action detail =
     entry svc None (Some i) ''session'' [UuidText i] action (Some detail)"

definition sessions_create_route ::
    "env \<Rightarrow> string \<Rightarrow> create_session \<Rightarrow> ('s, session) operation" where
  "sessions_create_route ev svc inp =
     h_bind (run_tx (sessions_create (ev_db_now ev 0) inp)) (\<lambda>s.
     h_bind (audit ev 1 0 (session_entry svc (ses_id s) ''created''
               (jobject [(''status'', JStr (status_as_str (ses_status s)))]))) (\<lambda>_.
     h_bind (on_metrics (inc_counter ''chronicle_sessions_created_total'' 1)) (\<lambda>_.
     h_return s)))"

definition sessions_fetch_route :: "uuid \<Rightarrow> ('s, session) operation" where
  "sessions_fetch_route i = read_db (sessions_get i)"

definition sessions_list_route :: "list_filter \<Rightarrow> ('s, session list) operation" where
  "sessions_list_route f = read_db (sessions_list f)"

record patch_session =
  pb_status :: "session_status option"
  pb_ended_at :: "time option option"
  pb_participant_count :: "int option option"

type_synonym status_change = "(session_status \<times> session_status) option"

definition patch_status ::
    "time \<Rightarrow> uuid \<Rightarrow> session \<Rightarrow> session_status option \<Rightarrow> (session \<times> status_change) dbop" where
  "patch_status now i existing status =
     (case status of
        None \<Rightarrow> tx_return (existing, None)
      | Some new_status \<Rightarrow>
          (if \<not> can_transition (ses_status existing) new_status
           then tx_fail (IllegalTransition (status_as_str (ses_status existing))
                           (status_as_str new_status))
           else tx_bind (sessions_update_status now i new_status) (\<lambda>updated.
                tx_return (updated,
                  if ses_status existing \<noteq> new_status
                  then Some (ses_status existing, new_status) else None))))"

definition sessions_patch_tx ::
    "time \<Rightarrow> uuid \<Rightarrow> string \<Rightarrow> uuid \<Rightarrow> patch_session \<Rightarrow> (session \<times> status_change) dbop" where
  "sessions_patch_tx now aid svc i body =
     tx_bind (sessions_get_in_tx i) (\<lambda>existing.
     tx_bind (patch_status now i existing (pb_status body)) (\<lambda>(updated0, emit_event).
     tx_bind (if pb_ended_at body \<noteq> None \<or> pb_participant_count body \<noteq> None
              then sessions_patch_fields i (pb_ended_at body) (pb_participant_count body)
              else tx_return updated0) (\<lambda>updated.
     tx_bind (audit_append_tx aid now (session_entry svc i ''patched''
                (jobject [(''status'', JStr (status_as_str (ses_status updated))),
                          (''ended_at'', json_opt JTime (ses_ended_at updated))]))) (\<lambda>_.
     tx_return (updated, emit_event)))))"

definition state_changed ::
    "env \<Rightarrow> uuid \<Rightarrow> int \<Rightarrow> session_status \<Rightarrow> session_status \<Rightarrow> event" where
  "state_changed ev i guild old_st new_st =
     SessionStateChanged (ev_utc_now ev 0)
       \<lparr>ssc_session_id = i, ssc_guild_id = guild, ssc_old = old_st, ssc_new = new_st\<rparr>"

definition sessions_patch_route ::
    "env \<Rightarrow> string \<Rightarrow> uuid \<Rightarrow> patch_session \<Rightarrow> ('s, session) operation" where
  "sessions_patch_route ev svc i body =
     h_bind (run_tx (sessions_patch_tx (ev_db_now ev 0) (ev_audit_id ev 0) svc i body))
       (\<lambda>(updated, emit_event).
     h_bind (case emit_event of
               None \<Rightarrow> h_return ()
             | Some (old_st, new_st) \<Rightarrow>
                 h_bind (emit (state_changed ev i (ses_guild_id updated) old_st new_st)) (\<lambda>_.
                 on_metrics (inc_counter
                   (''chronicle_session_state_'' @ status_as_str new_st @ ''_total'') 1)))
       (\<lambda>_. h_return updated))"

record resume_body =
  rb_resumed_by_service_name :: string
  rb_reason :: "string option"

text \<open>
  \<^verbatim>\<open>TimeDelta::num_seconds\<close> drops the fraction, towards zero. (The code's clock has nanoseconds where
  the model has microseconds; the stored time has microseconds, so both give the same whole seconds.)
\<close>

definition num_seconds :: "int \<Rightarrow> int" where
  "num_seconds us = (if us < 0 then - ((- us) div 1000000) else us div 1000000)"

definition resume_age :: "session \<Rightarrow> time \<Rightarrow> int" where
  "resume_age s now =
     (let anchor = (case ses_abandoned_at s of Some t \<Rightarrow> t | None \<Rightarrow> ses_started_at s)
      in max 0 (num_seconds (now - anchor)))"

definition sessions_resume_tx ::
    "time \<Rightarrow> uuid \<Rightarrow> time \<Rightarrow> u64 \<Rightarrow> string \<Rightarrow> uuid \<Rightarrow> resume_body \<Rightarrow> session dbop" where
  "sessions_resume_tx now aid clock ttl svc i body =
     tx_bind (sessions_get_in_tx i) (\<lambda>existing.
     if ses_status existing \<noteq> Abandoned
     then tx_fail (IllegalTransition (status_as_str (ses_status existing))
                     (status_as_str Recording))
     else if resume_age existing clock > uint ttl
     then tx_fail (Gone [Lit ''resume window expired: abandoned '',
                         IntText (resume_age existing clock), Lit ''s ago, limit '',
                         IntText (uint ttl), Lit ''s''])
     else
       tx_bind (sessions_resume_from_abandoned i) (\<lambda>updated.
       tx_bind (audit_append_tx aid now (session_entry svc i ''resumed''
                  (jobject [(''by'', JStr (rb_resumed_by_service_name body)),
                            (''reason'', json_opt JStr (rb_reason body))]))) (\<lambda>_.
       tx_return updated)))"

definition sessions_resume_route ::
    "'s app_state \<Rightarrow> env \<Rightarrow> string \<Rightarrow> uuid \<Rightarrow> resume_body \<Rightarrow> ('s, session) operation" where
  "sessions_resume_route st ev svc i body =
     h_bind (run_tx (sessions_resume_tx (ev_db_now ev 0) (ev_audit_id ev 0) (ev_utc_now ev 1)
               (st_resume_ttl st) svc i body)) (\<lambda>updated.
     h_bind (emit (state_changed ev i (ses_guild_id updated) Abandoned Recording)) (\<lambda>_.
     h_return updated))"

definition delete_cascade_tx ::
    "time \<Rightarrow> uuid \<Rightarrow> string \<Rightarrow> uuid \<Rightarrow> (session \<times> string list \<times> session) dbop" where
  "delete_cascade_tx now aid svc i =
     tx_bind (sessions_get_in_tx i) (\<lambda>existing.
     tx_bind (chunks_delete_for_session i) (\<lambda>keys.
     tx_bind (uniform_delete_all_for_session SEGMENTS i) (\<lambda>_.
     tx_bind (uniform_delete_all_for_session BEATS i) (\<lambda>_.
     tx_bind (uniform_delete_all_for_session SCENES i) (\<lambda>_.
     tx_bind (mute_ranges_delete_for_session i) (\<lambda>_.
     tx_bind (metadata_delete_for_session i) (\<lambda>_.
     tx_bind (participants_delete_for_session i) (\<lambda>_.
     tx_bind (sessions_update_status now i Deleted) (\<lambda>updated.
     tx_bind (audit_append_tx aid now (session_entry svc i ''deleted''
                (jobject [(''chunk_count'', JInt (int (length keys)))]))) (\<lambda>_.
     tx_return (existing, keys, updated)))))))))))"

definition delete_cascade_route ::
    "'s app_state \<Rightarrow> env \<Rightarrow> string \<Rightarrow> uuid \<Rightarrow> ('s, json) operation" where
  "delete_cascade_route st ev svc i =
     h_bind (run_tx (delete_cascade_tx (ev_db_now ev 0) (ev_audit_id ev 0) svc i))
       (\<lambda>(existing, keys, updated).
     h_bind (sweep_keys st keys) (\<lambda>_.
     h_bind (emit (state_changed ev i (ses_guild_id existing) (ses_status existing) Deleted)) (\<lambda>_.
     h_return (jobject [(''ok'', JBool True),
                        (''tombstone_status'', JStr (status_as_str (ses_status updated))),
                        (''s3_keys_deleted'', JInt (int (length keys)))]))))"

definition sessions_summary_route :: "uuid \<Rightarrow> ('s, session_summary) operation" where
  "sessions_summary_route i = read_db (\<lambda>d. Inr (sessions_summary i d))"

definition metadata_is_present :: "uuid \<Rightarrow> database \<Rightarrow> bool" where
  "metadata_is_present i d \<longleftrightarrow> metadata_get_opt i d \<noteq> None"

subsection \<open>What the transactions do\<close>

lemma sessions_update_found:
  "find_session i d = Some s \<Longrightarrow> sessions_update i f d =
     Inr (f s, d\<lparr>t_sessions := update_rows (\<lambda>s. ses_id s = i) f (t_sessions d)\<rparr>)"
  by (simp add: sessions_update_def)

lemma find_session_unique:
  assumes "db_wf d" and "find_session i d = Some s" and "q \<in> set (t_sessions d)" and "ses_id q = i"
  shows "q = s"
  using assms find_key_Some_distinct [of ses_id "t_sessions d" i]
  by (metis db_wfD(3) find_session_def option.inject sessions_wf_def)

lemma update_found_inv:
  assumes inv: "base_inv d" and s: "find_session i d = Some s"
    and f: "keeps_session f" and ok: "stamps_ok (f s)"
  shows "base_inv (d\<lparr>t_sessions := update_rows (\<lambda>s. ses_id s = i) f (t_sessions d)\<rparr>)"
proof -
  have "db_wf (d\<lparr>t_sessions := update_rows (\<lambda>s. ses_id s = i) f (t_sessions d)\<rparr>)"
    using sessions_update_wf [of f i] base_invD(1) [OF inv] f sessions_update_found [OF s, of f]
    by (auto simp: tx_pres_def keeps_session_def)
  moreover have "base_facts (d\<lparr>t_sessions := update_rows (\<lambda>s. ses_id s = i) f (t_sessions d)\<rparr>)"
    using inv f ok find_session_unique [OF base_invD(1) [OF inv] s]
    by (intro base_facts_update_session) (auto simp: base_inv_def)
  ultimately show ?thesis by (simp add: base_inv_def)
qed

lemma patch_status_eq_Inr:
  "patch_status now i existing status d = Inr (r, d') \<longleftrightarrow>
     (case status of
        None \<Rightarrow> r = (existing, None) \<and> d' = d
      | Some new_st \<Rightarrow> can_transition (ses_status existing) new_st \<and>
          (\<exists>u. sessions_update_status now i new_st d = Inr (u, d') \<and>
             r = (u, if ses_status existing \<noteq> new_st
                     then Some (ses_status existing, new_st) else None)))"
  by (cases status) (auto simp: patch_status_def tx_bind_eq_Inr)

text \<open>The functions a \<^verbatim>\<open>PATCH\<close> applies to the session row.\<close>

definition patched_session :: "time \<Rightarrow> patch_session \<Rightarrow> session \<Rightarrow> session" where
  "patched_session now body s =
     set_fields (pb_ended_at body) (pb_participant_count body)
       (case pb_status body of None \<Rightarrow> s | Some st \<Rightarrow> set_status now st s)"

lemma set_fields_None [simp]: "set_fields None None s = s"
  by (simp add: set_fields_def)

lemma update_rows_compose:
  assumes "\<And>r. p r \<Longrightarrow> p (f r)"
  shows "update_rows p g (update_rows p f t) = update_rows p (g \<circ> f) t"
  by (induction t) (auto simp: assms)

lemma update_rows_id: "update_rows p (\<lambda>r. r) t = t"
  by (induction t) auto

lemma sessions_patch_tx_eq_Inr:
  "sessions_patch_tx now aid svc i body d = Inr ((u, ch), d') \<longleftrightarrow>
     (\<exists>s. find_session i d = Some s \<and> u = patched_session now body s \<and>
       (case pb_status body of None \<Rightarrow> ch = None
        | Some st \<Rightarrow> can_transition (ses_status s) st \<and>
            ch = (if ses_status s \<noteq> st then Some (ses_status s, st) else None)) \<and>
       \<not> has_key au_id aid (t_audit_log d) \<and>
       d' = d\<lparr>t_sessions := update_rows (\<lambda>s. ses_id s = i) (patched_session now body) (t_sessions d),
              t_audit_log := t_audit_log d @ [audit_row_of aid now (session_entry svc i ''patched''
                (jobject [(''status'', JStr (status_as_str (ses_status u))),
                          (''ended_at'', json_opt JTime (ses_ended_at u))]))]\<rparr>)"
proof (cases "find_session i d")
  case None
  then show ?thesis by (auto simp: sessions_patch_tx_def tx_bind_eq_Inr)
next
  case (Some s)
  then have sid: "ses_id s = i" by (auto dest: find_session_SomeD)
  let ?setf = "set_fields (pb_ended_at body) (pb_participant_count body)"
  have found: "find_session i (d\<lparr>t_sessions :=
      update_rows (\<lambda>s. ses_id s = i) (set_status now st) (t_sessions d)\<rparr>) = Some (set_status now st s)"
    for st by (simp add: find_session_keeps Some sid)
  have fields: "(if pb_ended_at body \<noteq> None \<or> pb_participant_count body \<noteq> None
       then sessions_patch_fields i (pb_ended_at body) (pb_participant_count body)
       else tx_return v) e =
     Inr (?setf v, e\<lparr>t_sessions := update_rows (\<lambda>s. ses_id s = i) ?setf (t_sessions e)\<rparr>)"
    if "find_session i e = Some v" for e v
    using that
    by (auto simp: sessions_patch_fields_def sessions_update_found update_rows_id
        set_fields_None [abs_def])
  show ?thesis
  proof (cases "pb_status body")
    case None
    then show ?thesis
      using Some fields [OF Some]
      by (auto simp: sessions_patch_tx_def tx_bind_eq_Inr patch_status_eq_Inr audit_append_tx_eq
          audit_append_eq_Inr patched_session_def [abs_def])
  next
    case st: (Some st)
    have comp: "update_rows (\<lambda>s. ses_id s = i) ?setf
        (update_rows (\<lambda>s. ses_id s = i) (set_status now st) (t_sessions d)) =
      update_rows (\<lambda>s. ses_id s = i) (patched_session now body) (t_sessions d)"
      by (subst update_rows_compose) (auto simp: patched_session_def [abs_def] st comp_def)
    show ?thesis
      using Some st fields [OF found] comp
      by (auto simp: sessions_patch_tx_def tx_bind_eq_Inr patch_status_eq_Inr audit_append_tx_eq
          audit_append_eq_Inr patched_session_def sessions_update_status_def sessions_update_found)
  qed
qed

lemma sessions_resume_tx_eq_Inr:
  "sessions_resume_tx now aid clock ttl svc i body d = Inr (u, d') \<longleftrightarrow>
     (\<exists>s. find_session i d = Some s \<and> ses_status s = Abandoned \<and>
       resume_age s clock \<le> uint ttl \<and> u = set_resumed s \<and>
       \<not> has_key au_id aid (t_audit_log d) \<and>
       d' = d\<lparr>t_sessions := update_rows (\<lambda>s. ses_id s = i) set_resumed (t_sessions d),
              t_audit_log := t_audit_log d @ [audit_row_of aid now (session_entry svc i ''resumed''
                (jobject [(''by'', JStr (rb_resumed_by_service_name body)),
                          (''reason'', json_opt JStr (rb_reason body))]))]\<rparr>)"
proof (cases "find_session i d")
  case (Some s)
  then show ?thesis
    by (cases "ses_status s = Abandoned"; cases "resume_age s clock \<le> uint ttl")
      (auto simp: sessions_resume_tx_def tx_bind_eq_Inr sessions_resume_from_abandoned_def
        sessions_update_found audit_append_tx_eq audit_append_eq_Inr)
qed (auto simp: sessions_resume_tx_def tx_bind_eq_Inr)

definition wiped_session :: "time \<Rightarrow> uuid \<Rightarrow> database \<Rightarrow> database" where
  "wiped_session now i d =
     d\<lparr>t_sessions := update_rows (\<lambda>s. ses_id s = i) (set_status now Deleted) (t_sessions d),
       t_participants := delete_rows (\<lambda>p. par_session_id p = i) (t_participants d),
       t_metadata := delete_rows (\<lambda>m. md_session_id m = i) (t_metadata d),
       t_chunks := delete_rows (\<lambda>c. ch_session_id c = i) (t_chunks d),
       t_segments := delete_rows (\<lambda>r. pg_session_id r = i) (t_segments d),
       t_beats := delete_rows (\<lambda>r. pg_session_id r = i) (t_beats d),
       t_scenes := delete_rows (\<lambda>r. pg_session_id r = i) (t_scenes d),
       t_mute_ranges := delete_rows (\<lambda>m. mu_session_id m = i) (t_mute_ranges d),
       t_consent_tokens := delete_rows (\<lambda>t. ct_participant_id t \<in>
          par_id ` set (filter (\<lambda>p. par_session_id p = i) (t_participants d)))
          (t_consent_tokens d)\<rparr>"

definition session_keys :: "uuid \<Rightarrow> database \<Rightarrow> string list" where
  "session_keys i d = map ch_s3_key (filter (\<lambda>c. ch_session_id c = i) (t_chunks d))"

lemma delete_cascade_tx_eq_Inr:
  "delete_cascade_tx now aid svc i d = Inr ((existing, keys, updated), d') \<longleftrightarrow>
     find_session i d = Some existing \<and> keys = session_keys i d \<and>
     updated = set_status now Deleted existing \<and> \<not> has_key au_id aid (t_audit_log d) \<and>
     d' = (wiped_session now i d)\<lparr>t_audit_log := t_audit_log d @
       [audit_row_of aid now (session_entry svc i ''deleted''
          (jobject [(''chunk_count'', JInt (int (length keys)))]))]\<rparr>"
  by (auto simp: delete_cascade_tx_def tx_bind_eq_Inr chunks_delete_for_session_def
      uniform_delete_all_for_session_def mute_ranges_delete_for_session_def Let_def
      metadata_delete_for_session_def participants_delete_for_session_def
      sessions_update_status_def sessions_update_found audit_append_tx_eq audit_append_eq_Inr
      wiped_session_def session_keys_def)

subsection \<open>The invariant\<close>

lemma keeps_patched: "keeps_session (patched_session now body)"
  by (simp add: keeps_session_def patched_session_def set_fields_def set_status_def
      split: option.splits)

lemma base_inv_audit_log:
  assumes "base_inv d" and "\<not> has_key au_id aid (t_audit_log d)"
  shows "base_inv (d\<lparr>t_audit_log := t_audit_log d @ [audit_row_of aid now e]\<rparr>)"
  using audit_inv(1) [of aid now e] assms by (auto simp: tx_pres_def audit_append_eq_Inr)

lemma sessions_patch_tx_inv: "tx_pres base_inv (sessions_patch_tx now aid svc i body)"
proof (rule tx_presI)
  fix d x d' assume inv: "base_inv d"
    and ok: "sessions_patch_tx now aid svc i body d = Inr (x, d')"
  obtain u ch where x: "x = (u, ch)" by fastforce
  from ok obtain s where s: "find_session i d = Some s"
    and tr: "case pb_status body of None \<Rightarrow> True | Some st \<Rightarrow> can_transition (ses_status s) st"
    and aid: "\<not> has_key au_id aid (t_audit_log d)"
    unfolding x sessions_patch_tx_eq_Inr by (auto split: option.splits)
  from ok obtain e where d': "d' = d\<lparr>t_sessions := update_rows (\<lambda>s. ses_id s = i)
        (patched_session now body) (t_sessions d),
        t_audit_log := t_audit_log d @ [audit_row_of aid now e]\<rparr>"
    unfolding x sessions_patch_tx_eq_Inr by blast
  have "stamps_ok s" using base_invD(2) [OF inv] s by (auto dest: find_session_SomeD)
  with tr have "stamps_ok (patched_session now body s)"
    unfolding patched_session_def
    by (cases "pb_status body") (auto intro!: stamps_ok_set_status)
  from base_inv_audit_log [OF update_found_inv [OF inv s keeps_patched this], of aid now e] aid
  show "base_inv d'" by (simp add: d')
qed

lemma sessions_resume_tx_inv: "tx_pres base_inv (sessions_resume_tx now aid clk ttl svc i body)"
proof (rule tx_presI)
  fix d u d' assume inv: "base_inv d"
    and ok: "sessions_resume_tx now aid clk ttl svc i body d = Inr (u, d')"
  from ok obtain s where s: "find_session i d = Some s" and st: "ses_status s = Abandoned"
    and aid: "\<not> has_key au_id aid (t_audit_log d)"
    unfolding sessions_resume_tx_eq_Inr by blast
  from ok obtain e where d': "d' = d\<lparr>t_sessions := update_rows (\<lambda>s. ses_id s = i) set_resumed
        (t_sessions d), t_audit_log := t_audit_log d @ [audit_row_of aid now e]\<rparr>"
    unfolding sessions_resume_tx_eq_Inr by blast
  have "stamps_ok s" using base_invD(2) [OF inv] s by (auto dest: find_session_SomeD)
  with st have "stamps_ok (set_resumed s)" by (simp add: stamps_ok_set_resumed)
  from base_inv_audit_log [OF update_found_inv [OF inv s keeps_session_simps(3) this],
      of aid now e] aid
  show "base_inv d'" by (simp add: d')
qed

end
