(* ===== verification/Routes_Chunks.thy ===== *)
theory Routes_Chunks
  imports Routes_Sessions
begin

section \<open>Chunk upload and download\<close>

text \<open>
  \<^verbatim>\<open>src/routes/chunks.rs\<close>. The upload keeps its transaction open across the object store's
  \<^verbatim>\<open>put\<close>, so the model threads the uncommitted database by hand: \<open>commit\<close> is the only point where
  the world's database changes. The RFC 3339 parser of the \<^verbatim>\<open>chrono\<close> crate is a parameter.
\<close>

type_synonym rfc3339 = "string \<Rightarrow> string + time"

definition MAX_CHUNK_BYTES :: nat where
  "MAX_CHUNK_BYTES = 3 * 1024 * 1024"

record upload_response =
  ur_seq :: int
  ur_s3_key :: string
  ur_deduplicated :: bool

record chunk_headers =
  hd_capture_started_at :: time
  hd_duration_ms :: int
  hd_client_chunk_id :: string

definition required_header :: "headers \<Rightarrow> string \<Rightarrow> string \<Rightarrow> string res" where
  "required_header h name shown =
     (case h name of
        None \<Rightarrow> Inl (MissingHeader shown)
      | Some v \<Rightarrow>
          (case to_str v of
             None \<Rightarrow> Inl (BadRequest [Lit shown, Lit '': non-ASCII''])
           | Some s \<Rightarrow> Inr s))"

definition parse_chunk_headers :: "rfc3339 \<Rightarrow> headers \<Rightarrow> chunk_headers res" where
  "parse_chunk_headers rfc h =
     bind_res (required_header h ''x-capture-started-at'' ''X-Capture-Started-At'') (\<lambda>capture.
     bind_res (case rfc capture of
                 Inl e \<Rightarrow> Inl (BadRequest [Lit ''X-Capture-Started-At: '', Lit e])
               | Inr t \<Rightarrow> Inr t) (\<lambda>capture_started_at.
     bind_res (required_header h ''x-duration-ms'' ''X-Duration-Ms'') (\<lambda>duration_raw.
     bind_res (case parse_i32 duration_raw of
                 Inl e \<Rightarrow> Inl (BadRequest [Lit ''X-Duration-Ms: '', Lit (int_error_text e)])
               | Inr n \<Rightarrow> Inr n) (\<lambda>duration_ms.
     if duration_ms < 0 then Inl (BadRequest [Lit ''X-Duration-Ms: must be >= 0'']) else
     bind_res (required_header h ''x-client-chunk-id'' ''X-Client-Chunk-Id'') (\<lambda>client_chunk_id.
     if client_chunk_id = '''' then Inl (BadRequest [Lit ''X-Client-Chunk-Id: must be non-empty''])
     else Inr \<lparr>hd_capture_started_at = capture_started_at, hd_duration_ms = duration_ms,
               hd_client_chunk_id = client_chunk_id\<rparr>)))))"

definition read_chunk_body :: "request_body \<Rightarrow> bytes res" where
  "read_chunk_body body =
     (case to_bytes (MAX_CHUNK_BYTES + 1) body of
        Inl e \<Rightarrow> Inl (BadRequest [Lit ''read body: '', Lit e])
      | Inr b \<Rightarrow>
          (if length b > MAX_CHUNK_BYTES
           then Inl (PayloadTooLarge [Lit ''chunk exceeds '', IntText (int MAX_CHUNK_BYTES),
                                      Lit '' bytes''])
           else Inr b))"

definition upload_entry :: "string \<Rightarrow> uuid \<Rightarrow> pseudo_id \<Rightarrow> int \<Rightarrow> int \<Rightarrow> audit_entry" where
  "upload_entry svc sid p seq size_bytes =
     entry svc None (Some sid) ''chunk''
       [UuidText sid, Lit ''/'', Lit (pid_str p), Lit ''/'', IntText seq] ''uploaded''
       (Some (jobject [(''size_bytes'', JInt size_bytes)]))"

definition upload_finish_tx ::
    "time \<Rightarrow> uuid \<Rightarrow> string \<Rightarrow> uuid \<Rightarrow> pseudo_id \<Rightarrow> int \<Rightarrow> string \<Rightarrow> int \<Rightarrow> unit dbop" where
  "upload_finish_tx now aid svc sid p seq key size_bytes =
     tx_bind (chunks_set_s3_key key sid p seq) (\<lambda>_.
     audit_append_tx aid now (upload_entry svc sid p seq size_bytes))"

definition chunk_uploaded_event ::
    "env \<Rightarrow> uuid \<Rightarrow> int \<Rightarrow> pseudo_id \<Rightarrow> int \<Rightarrow> int \<Rightarrow> event" where
  "chunk_uploaded_event ev sid guild p seq size_bytes =
     ChunkUploaded (ev_utc_now ev 0)
       \<lparr>cu_session_id = sid, cu_guild_id = guild, cu_pseudo_id = p, cu_seq = seq,
        cu_size_bytes = size_bytes\<rparr>"

text \<open>
  The part of the upload that runs when no row has this client chunk id, from the lock of the session
  to the commit, without interruption. What may commit between its insert and its own commit is
  the subject of \<open>Flights\<close>.
\<close>

definition upload_new ::
    "'s app_state \<Rightarrow> env \<Rightarrow> string \<Rightarrow> uuid \<Rightarrow> pseudo_id \<Rightarrow> chunk_headers \<Rightarrow> request_body \<Rightarrow>
     database \<Rightarrow> ('s, upload_response) operation" where
  "upload_new st ev svc sid p h body d0 =
     h_bind (h_lift (sessions_get_in_tx sid d0)) (\<lambda>(session, d0).
     h_bind (h_lift (read_chunk_body body)) (\<lambda>b.
     let size_bytes = int (length b) in
     h_bind (h_lift (chunks_insert (ev_db_now ev 0) sid p '''' size_bytes
               (hd_capture_started_at h) (hd_duration_ms h) (hd_client_chunk_id h) d0))
       (\<lambda>(row, d1).
     let seq = ch_seq row; key = chunk_s3_key (ses_s3_prefix session) p seq in
     h_bind (on_store (os_put (st_store st) key b ''audio/pcm'')) (\<lambda>_.
     h_bind (on_metrics (observe_histogram ''chronicle_s3_put_seconds'' (ev_elapsed ev))) (\<lambda>_.
     h_bind (on_metrics (inc_counter ''chronicle_chunks_uploaded_total'' 1)) (\<lambda>_.
     h_bind (h_lift (upload_finish_tx (ev_db_now ev 0) (ev_audit_id ev 0) svc sid p seq key
               size_bytes d1)) (\<lambda>(_, d2).
     h_bind (commit d2) (\<lambda>_.
     h_bind (emit (chunk_uploaded_event ev sid (ses_guild_id session) p seq size_bytes)) (\<lambda>_.
     h_return \<lparr>ur_seq = seq, ur_s3_key = key, ur_deduplicated = False\<rparr>)))))))))"

definition chunks_upload_route ::
    "'s app_state \<Rightarrow> env \<Rightarrow> rfc3339 \<Rightarrow> string \<Rightarrow> uuid \<Rightarrow> string \<Rightarrow> headers \<Rightarrow> request_body \<Rightarrow>
     ('s, upload_response) operation" where
  "chunks_upload_route st ev rfc svc sid pseudo_raw headers body =
     h_bind (h_lift (from_pseudo_id_error (pseudo_id_new_or_mixed pseudo_raw))) (\<lambda>p.
     h_bind (h_lift (parse_chunk_headers rfc headers)) (\<lambda>h.
     h_bind (h_get w_db) (\<lambda>d0.
     case chunks_lookup_by_client_id sid p (hd_client_chunk_id h) d0 of
       Some existing \<Rightarrow>
         h_return \<lparr>ur_seq = ch_seq existing, ur_s3_key = ch_s3_key existing,
                   ur_deduplicated = True\<rparr>
     | None \<Rightarrow> upload_new st ev svc sid p h body d0)))"

definition chunks_list_route :: "uuid \<Rightarrow> string \<Rightarrow> ('s, chunk_row list) operation" where
  "chunks_list_route sid pseudo_raw =
     h_bind (h_lift (from_pseudo_id_error (pseudo_id_new_or_mixed pseudo_raw))) (\<lambda>p.
     read_db (\<lambda>d. Inr (chunks_list sid p d)))"

definition chunks_download_route ::
    "'s app_state \<Rightarrow> env \<Rightarrow> uuid \<Rightarrow> string \<Rightarrow> int \<Rightarrow> ('s, bytes) operation" where
  "chunks_download_route st ev sid pseudo_raw seq =
     h_bind (h_lift (from_pseudo_id_error (pseudo_id_new_or_mixed pseudo_raw))) (\<lambda>p.
     h_bind (read_db (chunks_get sid p seq)) (\<lambda>row.
     h_bind (\<lambda>w. (os_get (st_store st) (ch_s3_key row) (w_store w), w)) (\<lambda>b.
     h_bind (on_metrics (observe_histogram ''chronicle_s3_get_seconds'' (ev_elapsed ev))) (\<lambda>_.
     h_return b))))"

subsection \<open>What a new upload does\<close>

lemma read_chunk_body_eq_Inr [simp]:
  "read_chunk_body body = Inr b \<longleftrightarrow> body = Inr b \<and> length b \<le> MAX_CHUNK_BYTES"
  by (auto simp: read_chunk_body_def to_bytes_def split: sum.splits)

text \<open>The committed row of a new upload, and the effect of the two statements after the put.\<close>

definition uploaded_row ::
    "time \<Rightarrow> session \<Rightarrow> pseudo_id \<Rightarrow> chunk_headers \<Rightarrow> bytes \<Rightarrow> database \<Rightarrow> chunk_row" where
  "uploaded_row now s p h b d =
     (let seq = next_seq (ses_id s) p d in
      \<lparr>ch_session_id = ses_id s, ch_pseudo_id = p, ch_seq = seq,
       ch_s3_key = chunk_s3_key (ses_s3_prefix s) p seq, ch_size_bytes = int (length b),
       ch_capture_started_at = hd_capture_started_at h, ch_duration_ms = hd_duration_ms h,
       ch_client_chunk_id = hd_client_chunk_id h, ch_created_at = now\<rparr>)"

lemma uploaded_row_simps [simp]:
  "ch_session_id (uploaded_row now s p h b d) = ses_id s"
  "ch_pseudo_id (uploaded_row now s p h b d) = p"
  "ch_seq (uploaded_row now s p h b d) = next_seq (ses_id s) p d"
  "ch_client_chunk_id (uploaded_row now s p h b d) = hd_client_chunk_id h"
  "ch_size_bytes (uploaded_row now s p h b d) = int (length b)"
  "ch_s3_key (uploaded_row now s p h b d) =
     chunk_s3_key (ses_s3_prefix s) p (next_seq (ses_id s) p d)"
  by (simp_all add: uploaded_row_def Let_def)

lemma old_rows_kept:
  "\<not> has_key chunk_seq_key (sid, p, n) cs \<Longrightarrow>
   update_rows (\<lambda>c. in_stream sid p c \<and> ch_seq c = n) f cs = cs"
  by (rule update_rows_none) (auto simp: has_key_def chunk_seq_key_def in_stream_def)

lemma in_stream_fields [simp]:
  "in_stream sid p \<lparr>ch_session_id = i, ch_pseudo_id = q, ch_seq = n, ch_s3_key = k,
     ch_size_bytes = z, ch_capture_started_at = t, ch_duration_ms = u,
     ch_client_chunk_id = cid, ch_created_at = v\<rparr> \<longleftrightarrow> i = sid \<and> q = p"
  by (simp add: in_stream_def)

lemma set_key_of_new_row:
  assumes new: "\<not> has_key chunk_seq_key (sid, p, n) cs"
    and c: "ch_session_id c = sid" "ch_pseudo_id c = p" "ch_seq c = n"
  shows "update_rows (\<lambda>c. in_stream sid p c \<and> ch_seq c = n) f (cs @ [c]) = cs @ [f c]"
  using old_rows_kept [OF new] c by (simp add: in_stream_def)

definition upload_inserts ::
    "env \<Rightarrow> string \<Rightarrow> uuid \<Rightarrow> pseudo_id \<Rightarrow> chunk_headers \<Rightarrow> bytes \<Rightarrow> session \<Rightarrow> database \<Rightarrow>
     database" where
  "upload_inserts ev svc sid p h b s d =
     d\<lparr>t_chunks := t_chunks d @ [uploaded_row (ev_db_now ev 0) s p h b d],
       t_audit_log := t_audit_log d @ [audit_row_of (ev_audit_id ev 0) (ev_db_now ev 0)
         (upload_entry svc sid p (next_seq sid p d) (int (length b)))]\<rparr>"

lemma upload_new_eq_Inr:
  "upload_new st ev svc sid p h body (w_db w) w = (Inr r, w') \<longleftrightarrow>
     (\<exists>s b u s'. find_session sid (w_db w) = Some s \<and> body = Inr b \<and>
       length b \<le> MAX_CHUNK_BYTES \<and> in_int4 (next_seq sid p (w_db w)) \<and> chunk_pid_ok p \<and>
       \<not> has_key chunk_seq_key (sid, p, next_seq sid p (w_db w)) (t_chunks (w_db w)) \<and>
       \<not> has_key chunk_client_key (sid, p, hd_client_chunk_id h) (t_chunks (w_db w)) \<and>
       \<not> has_key au_id (ev_audit_id ev 0) (t_audit_log (w_db w)) \<and>
       r = \<lparr>ur_seq = next_seq sid p (w_db w),
            ur_s3_key = chunk_s3_key (ses_s3_prefix s) p (next_seq sid p (w_db w)),
            ur_deduplicated = False\<rparr> \<and>
       os_put (st_store st) (ur_s3_key r) b ''audio/pcm'' (w_store w) = (Inr u, s') \<and>
       w' = \<lparr>w_db = upload_inserts ev svc sid p h b s (w_db w), w_store = s',
             w_events = w_events w @
               [chunk_uploaded_event ev sid (ses_guild_id s) p (ur_seq r) (int (length b))],
             w_metrics = inc_counter ''chronicle_chunks_uploaded_total'' 1
               (observe_histogram ''chronicle_s3_put_seconds'' (ev_elapsed ev) (w_metrics w))\<rparr>)"
  (is "?L \<longleftrightarrow> ?R")
proof
  assume ?L
  then obtain s b row d1 u s' d2 where s: "find_session sid (w_db w) = Some s"
    and b: "body = Inr b" "length b \<le> MAX_CHUNK_BYTES"
    and ins: "chunks_insert (ev_db_now ev 0) sid p '''' (int (length b))
      (hd_capture_started_at h) (hd_duration_ms h) (hd_client_chunk_id h) (w_db w) = Inr (row, d1)"
    and put: "os_put (st_store st) (chunk_s3_key (ses_s3_prefix s) p (ch_seq row)) b ''audio/pcm''
      (w_store w) = (Inr u, s')"
    and fin: "upload_finish_tx (ev_db_now ev 0) (ev_audit_id ev 0) svc sid p (ch_seq row)
      (chunk_s3_key (ses_s3_prefix s) p (ch_seq row)) (int (length b)) d1 = Inr ((), d2)"
    and r: "r = \<lparr>ur_seq = ch_seq row, ur_s3_key = chunk_s3_key (ses_s3_prefix s) p (ch_seq row),
      ur_deduplicated = False\<rparr>"
    and w': "w' = \<lparr>w_db = d2, w_store = s', w_events = w_events w @
      [chunk_uploaded_event ev sid (ses_guild_id s) p (ch_seq row) (int (length b))],
      w_metrics = inc_counter ''chronicle_chunks_uploaded_total'' 1
        (observe_histogram ''chronicle_s3_put_seconds'' (ev_elapsed ev) (w_metrics w))\<rparr>"
    unfolding upload_new_def Let_def
    by (cases w) (auto simp: h_bind_eq_Inr on_store_eq)
  from s have sid: "ses_id s = sid" by (auto dest: find_session_SomeD)
  from ins have row: "ch_session_id row = sid" "ch_pseudo_id row = p"
      "ch_seq row = next_seq sid p (w_db w)"
    and new: "\<not> has_key chunk_seq_key (sid, p, next_seq sid p (w_db w)) (t_chunks (w_db w))"
    and d1: "d1 = (w_db w)\<lparr>t_chunks := t_chunks (w_db w) @ [row]\<rparr>"
    and upd: "row\<lparr>ch_s3_key := chunk_s3_key (ses_s3_prefix s) p (ch_seq row)\<rparr> =
      uploaded_row (ev_db_now ev 0) s p h b (w_db w)"
    by (auto simp: chunks_insert_eq_Inr uploaded_row_def Let_def sid)
  have "d2 = upload_inserts ev svc sid p h b s (w_db w)"
    using fin set_key_of_new_row [OF new row] upd row
    by (auto simp: upload_finish_tx_def tx_bind_eq_Inr chunks_set_s3_key_def audit_append_tx_eq
        audit_append_eq_Inr d1 upload_inserts_def)
  then show ?R
    using s b ins put fin r w' row
    by (auto simp: chunks_insert_eq_Inr upload_finish_tx_def tx_bind_eq_Inr
        chunks_set_s3_key_def audit_append_tx_eq audit_append_eq_Inr)
next
  assume ?R
  then obtain s b u s' where s: "find_session sid (w_db w) = Some s" and b: "body = Inr b"
      "length b \<le> MAX_CHUNK_BYTES"
    and ok: "in_int4 (next_seq sid p (w_db w))" "chunk_pid_ok p"
      "\<not> has_key chunk_seq_key (sid, p, next_seq sid p (w_db w)) (t_chunks (w_db w))"
      "\<not> has_key chunk_client_key (sid, p, hd_client_chunk_id h) (t_chunks (w_db w))"
      "\<not> has_key au_id (ev_audit_id ev 0) (t_audit_log (w_db w))"
    and rest: "r = \<lparr>ur_seq = next_seq sid p (w_db w),
            ur_s3_key = chunk_s3_key (ses_s3_prefix s) p (next_seq sid p (w_db w)),
            ur_deduplicated = False\<rparr>"
       "os_put (st_store st) (ur_s3_key r) b ''audio/pcm'' (w_store w) = (Inr u, s')"
       "w' = \<lparr>w_db = upload_inserts ev svc sid p h b s (w_db w), w_store = s',
             w_events = w_events w @
               [chunk_uploaded_event ev sid (ses_guild_id s) p (ur_seq r) (int (length b))],
             w_metrics = inc_counter ''chronicle_chunks_uploaded_total'' 1
               (observe_histogram ''chronicle_s3_put_seconds'' (ev_elapsed ev) (w_metrics w))\<rparr>"
    by blast
  from s have sid: "ses_id s = sid" and key: "has_key ses_id sid (t_sessions (w_db w))"
    by (auto dest: find_session_SomeD find_session_has_key)
  have rb: "read_chunk_body body = Inr b" using b by simp
  show ?L
    using s rb ok key rest old_rows_kept [OF ok(3)]
    by (cases w) (simp add: upload_new_def Let_def h_bind_def on_store_def chunks_insert_def
        sessions_get_in_tx_def upload_finish_tx_def tx_bind_def chunks_set_s3_key_def
        audit_append_tx_eq audit_append_def upload_inserts_def uploaded_row_def sid
        del: read_chunk_body_eq_Inr)
qed

lemma chunks_upload_route_Inr:
  "chunks_upload_route st ev rfc svc sid raw headers body w = (Inr r, w') \<longleftrightarrow>
     (\<exists>h. (raw = MIXED_PSEUDO_ID \<or> is_valid_pseudo_id raw) \<and>
        parse_chunk_headers rfc headers = Inr h \<and>
        (case chunks_lookup_by_client_id sid (PseudoId raw) (hd_client_chunk_id h) (w_db w) of
           Some c \<Rightarrow> r = \<lparr>ur_seq = ch_seq c, ur_s3_key = ch_s3_key c, ur_deduplicated = True\<rparr> \<and>
                     w' = w
         | None \<Rightarrow> upload_new st ev svc sid (PseudoId raw) h body (w_db w) w = (Inr r, w')))"
  by (auto simp: chunks_upload_route_def h_bind_eq_Inr split: option.splits)

lemma upload_new_error:
  assumes "upload_new st ev svc sid p h body (w_db w) w = (Inl e, w')"
  shows "w_db w' = w_db w \<and> w_events w' = w_events w"
  using assms unfolding upload_new_def Let_def
  by (auto simp: h_bind_eq_Inl on_store_eq)

text \<open>
  An upload that fails, whatever the reason, leaves the database and the bus as they were: the
  row reserved for it is rolled back.
\<close>

lemma upload_error_frame:
  assumes "chunks_upload_route st ev rfc svc sid raw headers body w = (Inl e, w')"
  shows "w_db w' = w_db w \<and> w_events w' = w_events w"
  using assms upload_new_error unfolding chunks_upload_route_def
  by (fastforce simp: h_bind_eq_Inl split: option.splits)

lemma upload_new_stored:
  assumes store: "object_store (st_store st) contents"
    and ok: "upload_new st ev svc sid p h body (w_db w) w = (Inr r, w')"
  shows "\<exists>b. body = Inr b \<and> contents (w_store w') = (contents (w_store w))(ur_s3_key r \<mapsto> b)"
  using ok unfolding upload_new_eq_Inr
  by (auto dest: object_store.put_contents [OF store])

lemma upload_new_row:
  assumes "upload_new st ev svc sid p h body (w_db w) w = (Inr r, w')"
  shows "\<exists>c. t_chunks (w_db w') = t_chunks (w_db w) @ [c] \<and> in_stream sid p c \<and>
     ch_seq c = ur_seq r \<and> ch_s3_key c = ur_s3_key r \<and>
     ch_client_chunk_id c = hd_client_chunk_id h \<and>
     (\<exists>b. body = Inr b \<and> ch_size_bytes c = int (length b))"
  using assms unfolding upload_new_eq_Inr
  by (auto simp: upload_inserts_def in_stream_def dest: find_session_SomeD)

text \<open>After a success, new or not, the lookup finds the row that was reported.\<close>

lemma upload_then_lookup:
  assumes ok: "chunks_upload_route st ev rfc svc sid raw headers body w = (Inr r, w')"
    and h: "parse_chunk_headers rfc headers = Inr h"
  shows "\<exists>c. chunks_lookup_by_client_id sid (PseudoId raw) (hd_client_chunk_id h) (w_db w') = Some c \<and>
    ch_seq c = ur_seq r \<and> ch_s3_key c = ur_s3_key r"
proof (cases "chunks_lookup_by_client_id sid (PseudoId raw) (hd_client_chunk_id h) (w_db w)")
  case None
  with ok h have new: "upload_new st ev svc sid (PseudoId raw) h body (w_db w) w = (Inr r, w')"
    by (auto simp: chunks_upload_route_Inr)
  from upload_new_row [OF this] obtain c where
    c: "t_chunks (w_db w') = t_chunks (w_db w) @ [c]" "in_stream sid (PseudoId raw) c"
      "ch_seq c = ur_seq r" "ch_s3_key c = ur_s3_key r"
      "ch_client_chunk_id c = hd_client_chunk_id h" by blast
  with None show ?thesis by (simp add: chunks_lookup_by_client_id_def find_append)
next
  case (Some c)
  with ok h show ?thesis by (auto simp: chunks_upload_route_Inr)
qed

subsection \<open>The invariant\<close>

lemma streams_gapless_upload:
  assumes g: "streams_gapless (t_chunks d)"
  shows "streams_gapless (t_chunks d @ [uploaded_row now s p h b d])"
  using streams_gapless_snoc [OF g, of "ses_id s" p] next_seq_gapless [OF g, of "ses_id s" p]
  by (simp add: in_stream_def stream_rows_def)

lemma upload_inserts_inv:
  assumes inv: "base_inv d" and s: "find_session sid d = Some s"
    and ok: "in_int4 (next_seq sid p d)" "chunk_pid_ok p"
      "\<not> has_key chunk_seq_key (sid, p, next_seq sid p d) (t_chunks d)"
      "\<not> has_key chunk_client_key (sid, p, hd_client_chunk_id h) (t_chunks d)"
      "\<not> has_key au_id (ev_audit_id ev 0) (t_audit_log d)"
  shows "base_inv (upload_inserts ev svc sid p h b s d)"
proof -
  let ?c = "uploaded_row (ev_db_now ev 0) s p h b d"
  let ?d = "d\<lparr>t_chunks := t_chunks d @ [?c]\<rparr>"
  from s have sid: "ses_id s = sid" and key: "has_key ses_id sid (t_sessions d)"
    by (auto dest: find_session_SomeD find_session_has_key)
  have "chunks_wf (t_sessions d) (t_chunks d @ [?c])"
    using db_wfD(6) [OF base_invD(1) [OF inv]] ok(1-4) key
    by (auto simp: chunks_wf_def has_key_iff_image chunk_seq_key_def chunk_client_key_def sid)
  then have "db_wf ?d" using base_invD(1) [OF inv] by (rule db_wf_leaf_tables(3) [rotated])
  moreover have "chunk_keys_ok ?d"
    using base_invD(5) [OF inv] s by (auto simp: chunk_keys_ok_def sid)
  ultimately have "base_inv ?d"
    using inv
    by (simp add: base_inv_def base_facts_def)
  from base_inv_audit_log [OF this, of "ev_audit_id ev 0"] ok(5)
  show ?thesis by (simp add: upload_inserts_def)
qed

end
