(* ===== verification/Routes_Uniform.thy ===== *)
theory Routes_Uniform
  imports Samples Db_Invariants
begin

section \<open>Metadata and uniform resource routes\<close>

text \<open>
  \<^verbatim>\<open>src/routes/metadata.rs\<close> and \<^verbatim>\<open>src/routes/uniform_crud.rs\<close>: the handlers around the two kinds
  of tagged documents. A response that carries the tag also as a header is the pair of the
  header's text and the body. The three instances of the macro \<^verbatim>\<open>resource_router!\<close> are the three
  values of the argument \<open>rt\<close>.
\<close>

definition if_match_header_of :: "headers \<Rightarrow> etag option" where
  "if_match_header_of h = if_match (header_str h ''if-match'')"

subsection \<open>Metadata\<close>

definition metadata_response :: "metadata_blob \<Rightarrow> string \<times> json" where
  "metadata_response b =
     (etag_header (md_etag b),
      jobject [(''session_id'', JUuid (md_session_id b)), (''blob'', md_blob b),
               (''etag'', JStr (etag_str (md_etag b))), (''updated_at'', JTime (md_updated_at b))])"

definition metadata_entry :: "string \<Rightarrow> uuid \<Rightarrow> string \<Rightarrow> etag \<Rightarrow> audit_entry" where
  "metadata_entry svc sid action tag =
     entry svc None (Some sid) ''metadata'' [UuidText sid] action
       (Some (jobject [(''etag'', JStr (etag_str tag))]))"

definition metadata_fetch_route :: "uuid \<Rightarrow> ('s, string \<times> json) operation" where
  "metadata_fetch_route sid =
     h_bind (read_db (metadata_get sid)) (\<lambda>row. h_return (metadata_response row))"

definition metadata_replace_route ::
    "env \<Rightarrow> string \<Rightarrow> uuid \<Rightarrow> json \<Rightarrow> ('s, string \<times> json) operation" where
  "metadata_replace_route ev svc sid body =
     h_bind (run_tx (metadata_replace (ev_db_now ev 0) (ev_tag ev 0) sid body)) (\<lambda>row.
     h_bind (audit ev 1 0 (metadata_entry svc sid ''replaced'' (md_etag row))) (\<lambda>_.
     h_return (metadata_response row)))"

definition metadata_patch_route ::
    "env \<Rightarrow> string \<Rightarrow> uuid \<Rightarrow> headers \<Rightarrow> json \<Rightarrow> ('s, string \<times> json) operation" where
  "metadata_patch_route ev svc sid headers body =
     h_bind (run_tx (metadata_shallow_merge (ev_db_now ev 0) (ev_tag ev 0) (ev_tag ev 1) sid
               (if_match_header_of headers) body)) (\<lambda>row.
     h_bind (audit ev 1 0 (metadata_entry svc sid ''merged'' (md_etag row))) (\<lambda>_.
     h_return (metadata_response row)))"

subsection \<open>Segments, beats, scenes\<close>

record bulk_request =
  bq_segments :: "create_input list option"
  bq_beats :: "create_input list option"
  bq_scenes :: "create_input list option"

fun bulk_request_take :: "resource_table \<Rightarrow> bulk_request \<Rightarrow> create_input list" where
  "bulk_request_take SEGMENTS q = unwrap_or [] (bq_segments q)"
| "bulk_request_take BEATS q = unwrap_or [] (bq_beats q)"
| "bulk_request_take SCENES q = unwrap_or [] (bq_scenes q)"

fun created_event :: "resource_table \<Rightarrow> time \<Rightarrow> resource_ref \<Rightarrow> event" where
  "created_event SEGMENTS t d = SegmentCreated t d"
| "created_event BEATS t d = BeatCreated t d"
| "created_event SCENES t d = SceneCreated t d"

fun updated_event :: "resource_table \<Rightarrow> time \<Rightarrow> resource_ref \<Rightarrow> event" where
  "updated_event SEGMENTS t d = SegmentUpdated t d"
| "updated_event BEATS t d = BeatUpdated t d"
| "updated_event SCENES t d = SceneUpdated t d"

fun deleted_event :: "resource_table \<Rightarrow> time \<Rightarrow> resource_ref \<Rightarrow> event" where
  "deleted_event SEGMENTS t d = SegmentDeleted t d"
| "deleted_event BEATS t d = BeatDeleted t d"
| "deleted_event SCENES t d = SceneDeleted t d"

definition row_response :: "uniform_row \<Rightarrow> string \<times> uniform_row" where
  "row_response row = (etag_header (un_etag row), row)"

definition row_entry ::
    "resource_table \<Rightarrow> string \<Rightarrow> pseudo_id option \<Rightarrow> uuid \<Rightarrow> uuid \<Rightarrow> string \<Rightarrow> json option \<Rightarrow>
     audit_entry" where
  "row_entry rt svc author sid i action detail =
     entry svc (map_option pid_str author) (Some sid) (rt_resource_type rt) [UuidText i]
       action detail"

text \<open>The loop over the inserted rows: one audit entry and one event each.\<close>

fun announce_rows ::
    "resource_table \<Rightarrow> env \<Rightarrow> string \<Rightarrow> uuid \<Rightarrow> int \<Rightarrow> nat \<Rightarrow> uniform_row list \<Rightarrow>
     ('s, unit) operation" where
  "announce_rows rt ev svc sid guild k [] = h_return ()"
| "announce_rows rt ev svc sid guild k (row # rows) =
     h_bind (audit ev (Suc k) k (row_entry rt svc (un_author_user_pseudo_id row) sid (un_id row)
               ''created'' (Some (jobject [(''client_id'', JStr (un_client_id row))])))) (\<lambda>_.
     h_bind (emit (created_event rt (ev_utc_now ev k)
               \<lparr>rr_session_id = sid, rr_guild_id = guild, rr_id = un_id row\<rparr>)) (\<lambda>_.
     announce_rows rt ev svc sid guild (Suc k) rows))"

definition bulk_create_route ::
    "resource_table \<Rightarrow> env \<Rightarrow> string \<Rightarrow> uuid \<Rightarrow> bulk_request \<Rightarrow> ('s, bulk_result) operation" where
  "bulk_create_route rt ev svc sid req =
     h_bind (read_db (guild_id_for_session sid)) (\<lambda>guild.
     h_bind (run_tx (uniform_bulk_insert rt (ev_db_now ev 0) (ev_row_id ev) (ev_tag ev) sid svc
               (bulk_request_take rt req))) (\<lambda>result.
     h_bind (announce_rows rt ev svc sid guild 0 (br_inserted result)) (\<lambda>_.
     h_return result)))"

record list_query =
  lq_pseudo_id :: "string option"
  lq_since_ms :: "int option"

definition parse_opt_pid :: "string option \<Rightarrow> pseudo_id option res" where
  "parse_opt_pid x =
     (case x of
        Some raw \<Rightarrow> bind_res (from_pseudo_id_error (pseudo_id_new raw)) (\<lambda>p. Inr (Some p))
      | None \<Rightarrow> Inr None)"

definition list_rows_route ::
    "resource_table \<Rightarrow> uuid \<Rightarrow> list_query \<Rightarrow> ('s, uniform_row list) operation" where
  "list_rows_route rt sid q =
     h_bind (h_lift (parse_opt_pid (lq_pseudo_id q))) (\<lambda>pid.
     read_db (uniform_list_by_session rt sid pid (lq_since_ms q)))"

definition fetch_row_route :: "resource_table \<Rightarrow> uuid \<Rightarrow> ('s, string \<times> uniform_row) operation" where
  "fetch_row_route rt i = h_bind (read_db (uniform_get rt i)) (\<lambda>row. h_return (row_response row))"

definition patch_row_route ::
    "resource_table \<Rightarrow> env \<Rightarrow> string \<Rightarrow> uuid \<Rightarrow> headers \<Rightarrow> patch_input \<Rightarrow>
     ('s, string \<times> uniform_row) operation" where
  "patch_row_route rt ev svc i headers body =
     h_bind (run_tx (uniform_patch rt (ev_db_now ev 0) (ev_tag ev 0) i
               (if_match_header_of headers) body)) (\<lambda>row.
     h_bind (audit ev 1 0 (row_entry rt svc (un_author_user_pseudo_id row) (un_session_id row) i
               ''patched'' None)) (\<lambda>_.
     h_bind (read_db (guild_id_for_session (un_session_id row))) (\<lambda>guild.
     h_bind (emit (updated_event rt (ev_utc_now ev 0)
               \<lparr>rr_session_id = un_session_id row, rr_guild_id = guild, rr_id = i\<rparr>)) (\<lambda>_.
     h_return (row_response row)))))"

definition delete_row_route ::
    "resource_table \<Rightarrow> env \<Rightarrow> string \<Rightarrow> uuid \<Rightarrow> ('s, unit) operation" where
  "delete_row_route rt ev svc i =
     h_bind (on_db (uniform_delete rt i)) (\<lambda>row.
     h_bind (audit ev 1 0 (row_entry rt svc None (un_session_id row) i ''deleted'' None)) (\<lambda>_.
     h_bind (read_db (guild_id_for_session (un_session_id row))) (\<lambda>guild.
     h_bind (emit (deleted_event rt (ev_utc_now ev 0)
               \<lparr>rr_session_id = un_session_id row, rr_guild_id = guild, rr_id = i\<rparr>)) (\<lambda>_.
     h_return ()))))"

subsection \<open>Announcing a batch\<close>

text \<open>Every row of the batch is announced once, in order; nothing else of the tables changes.\<close>

lemma announce_rows_Inr:
  "announce_rows rt ev svc sid guild k rows w = (Inr u, w') \<Longrightarrow>
   w_events w' = w_events w @
     map (\<lambda>(j, row). created_event rt (ev_utc_now ev j)
            \<lparr>rr_session_id = sid, rr_guild_id = guild, rr_id = un_id row\<rparr>) (enumerate k rows) \<and>
   (\<exists>au. w_db w' = (w_db w)\<lparr>t_audit_log := t_audit_log (w_db w) @ au\<rparr> \<and>
      length au = length rows) \<and>
   w_store w' = w_store w"
proof (induction rows arbitrary: k w)
  case Nil
  then show ?case by simp
next
  case (Cons row rows)
  define a where "a = audit_row_of (ev_audit_id ev k) (ev_db_now ev (Suc k))
    (row_entry rt svc (un_author_user_pseudo_id row) sid (un_id row) ''created''
      (Some (jobject [(''client_id'', JStr (un_client_id row))])))"
  define w1 where "w1 = w\<lparr>w_db := (w_db w)\<lparr>t_audit_log := t_audit_log (w_db w) @ [a]\<rparr>,
    w_events := w_events w @ [created_event rt (ev_utc_now ev k)
      \<lparr>rr_session_id = sid, rr_guild_id = guild, rr_id = un_id row\<rparr>]\<rparr>"
  have run: "announce_rows rt ev svc sid guild (Suc k) rows w1 = (Inr u, w')"
    using Cons.prems by (auto simp: h_bind_eq_Inr audit_eq_Inr w1_def a_def)
  have db: "w_db w1 = (w_db w)\<lparr>t_audit_log := t_audit_log (w_db w) @ [a]\<rparr>"
    and evs: "w_events w1 = w_events w @ [created_event rt (ev_utc_now ev k)
        \<lparr>rr_session_id = sid, rr_guild_id = guild, rr_id = un_id row\<rparr>]"
    and st: "w_store w1 = w_store w"
    by (simp_all add: w1_def)
  from Cons.IH [OF run] obtain au where
    "w_db w' = (w_db w1)\<lparr>t_audit_log := t_audit_log (w_db w1) @ au\<rparr>" "length au = length rows"
    by blast
  then have "w_db w' = (w_db w)\<lparr>t_audit_log := t_audit_log (w_db w) @ (a # au)\<rparr> \<and>
      length (a # au) = length (row # rows)"
    by (simp add: db)
  then show ?case using Cons.IH [OF run] evs st by auto
qed

end
