(* ===== verification/Routes_Participants.thy ===== *)
theory Routes_Participants
  imports Samples Db_Invariants
begin

section \<open>Participant, mute, consent, user and admin routes\<close>

text \<open>
  \<^verbatim>\<open>src/routes/participants.rs\<close>, \<^verbatim>\<open>mute.rs\<close>, \<^verbatim>\<open>consent.rs\<close>, \<^verbatim>\<open>users.rs\<close> and \<^verbatim>\<open>admin.rs\<close>. The k-th
  statement or transaction of a handler that runs outside an earlier one has its own database
  time \<open>ev_db_now ev k\<close>. The consent routes take their authority from the token alone.
\<close>

subsection \<open>Participants\<close>

definition participant_entry ::
    "string \<Rightarrow> string option \<Rightarrow> uuid \<Rightarrow> uuid \<Rightarrow> string \<Rightarrow> json option \<Rightarrow> audit_entry" where
  "participant_entry svc pseudo sid i action detail =
     entry svc pseudo (Some sid) ''participant'' [UuidText i] action detail"

definition add_one_route ::
    "env \<Rightarrow> string \<Rightarrow> uuid \<Rightarrow> add_participant \<Rightarrow> ('s, participant) operation" where
  "add_one_route ev svc sid inp =
     h_bind (run_tx (participants_add (ev_db_now ev 0) (ev_row_id ev 0) sid inp)) (\<lambda>row.
     h_bind (audit ev 1 0 (participant_entry svc (Some (pid_str (par_pseudo_id row))) sid
               (par_id row) ''added'' None)) (\<lambda>_.
     h_return row))"

definition add_batch_route ::
    "env \<Rightarrow> string \<Rightarrow> uuid \<Rightarrow> add_participant list \<Rightarrow> ('s, participant list) operation" where
  "add_batch_route ev svc sid inputs =
     h_bind (run_tx (participants_add_many (ev_db_now ev 0) (ev_row_id ev) sid inputs)) (\<lambda>rows.
     h_bind (audit ev 1 0 (participant_entry svc None sid sid ''batch_added''
               (Some (jobject [(''count'', JInt (int (length rows)))])))) (\<lambda>_.
     h_return rows))"

definition participants_list_route :: "uuid \<Rightarrow> ('s, participant list) operation" where
  "participants_list_route sid = read_db (\<lambda>d. Inr (participants_list sid d))"

definition participants_fetch_route :: "uuid \<Rightarrow> ('s, participant) operation" where
  "participants_fetch_route i = read_db (participants_get i)"

definition patch_consent_route ::
    "env \<Rightarrow> string \<Rightarrow> uuid \<Rightarrow> update_consent \<Rightarrow> ('s, participant) operation" where
  "patch_consent_route ev svc i inp =
     h_bind (run_tx (participants_update_consent (ev_db_now ev 0) i inp)) (\<lambda>row.
     h_bind (audit ev 1 0 (participant_entry svc (Some (pid_str (par_pseudo_id row)))
               (par_session_id row) i ''consent_patched''
               (Some (jobject [(''consent_scope'', json_opt JStr (par_consent_scope row))])))) (\<lambda>_.
     h_return row))"

definition patch_license_route ::
    "env \<Rightarrow> string \<Rightarrow> uuid \<Rightarrow> update_license \<Rightarrow> ('s, participant) operation" where
  "patch_license_route ev svc i inp =
     h_bind (run_tx (participants_update_license i inp)) (\<lambda>row.
     h_bind (audit ev 1 0 (participant_entry svc (Some (pid_str (par_pseudo_id row)))
               (par_session_id row) i ''license_patched''
               (Some (jobject [(''no_llm_training'', JBool (par_no_llm_training row)),
                               (''no_public_release'', JBool (par_no_public_release row))])))) (\<lambda>_.
     h_return row))"

subsection \<open>Mute ranges and the wipe of a participant's audio\<close>

definition mute_entry ::
    "string \<Rightarrow> pseudo_id \<Rightarrow> uuid \<Rightarrow> uuid \<Rightarrow> string \<Rightarrow> json option \<Rightarrow> audit_entry" where
  "mute_entry svc p sid range_id action detail =
     entry svc (Some (pid_str p)) (Some sid) ''mute_range'' [UuidText range_id] action detail"

definition list_mutes_route :: "uuid \<Rightarrow> string \<Rightarrow> ('s, mute_range list) operation" where
  "list_mutes_route sid pid_raw =
     h_bind (h_lift (from_pseudo_id_error (pseudo_id_new pid_raw))) (\<lambda>p.
     read_db (\<lambda>d. Inr (mute_ranges_list sid p d)))"

definition mute_ref :: "uuid \<Rightarrow> int \<Rightarrow> pseudo_id \<Rightarrow> uuid \<Rightarrow> mute_range_ref" where
  "mute_ref sid guild p range_id =
     \<lparr>mr_session_id = sid, mr_guild_id = guild, mr_pseudo_id = p, mr_range_id = range_id\<rparr>"

definition create_mute_route ::
    "env \<Rightarrow> string \<Rightarrow> uuid \<Rightarrow> string \<Rightarrow> create_mute_range \<Rightarrow> ('s, mute_range) operation" where
  "create_mute_route ev svc sid pid_raw inp =
     h_bind (h_lift (from_pseudo_id_error (pseudo_id_new pid_raw))) (\<lambda>p.
     h_bind (run_tx (mute_ranges_create (ev_db_now ev 0) (ev_row_id ev 0) sid p inp)) (\<lambda>row.
     h_bind (audit ev 1 0 (mute_entry svc p sid (mu_id row) ''created''
               (Some (jobject [(''start_offset_ms'', JInt (mu_start_offset_ms row)),
                               (''end_offset_ms'', JInt (mu_end_offset_ms row))])))) (\<lambda>_.
     h_bind (read_db (guild_id_for_session sid)) (\<lambda>guild.
     h_bind (emit (MuteRangeCreated (ev_utc_now ev 0) (mute_ref sid guild p (mu_id row)))) (\<lambda>_.
     h_return row)))))"

definition delete_mute_route ::
    "env \<Rightarrow> string \<Rightarrow> uuid \<Rightarrow> string \<Rightarrow> uuid \<Rightarrow> ('s, unit) operation" where
  "delete_mute_route ev svc sid pid_raw range_id =
     h_bind (h_lift (from_pseudo_id_error (pseudo_id_new pid_raw))) (\<lambda>p.
     h_bind (run_tx (mute_ranges_delete_one sid p range_id)) (\<lambda>row.
     h_bind (audit ev 1 0 (mute_entry svc p sid range_id ''deleted'' None)) (\<lambda>_.
     h_bind (read_db (guild_id_for_session sid)) (\<lambda>guild.
     emit (MuteRangeDeleted (ev_utc_now ev 0) (mute_ref sid guild p (mu_id row)))))))"

definition wipe_entry :: "string \<Rightarrow> uuid \<Rightarrow> pseudo_id \<Rightarrow> string \<Rightarrow> (string \<times> json) list \<Rightarrow> audit_entry" where
  "wipe_entry svc sid p action counts =
     entry svc (Some (pid_str p)) (Some sid) ''participant_audio''
       [UuidText sid, Lit ''/'', Lit (pid_str p)] action (Some (jobject counts))"

definition wipe_tx ::
    "time \<Rightarrow> uuid \<Rightarrow> string \<Rightarrow> uuid \<Rightarrow> pseudo_id \<Rightarrow> (string list \<times> int \<times> int) dbop" where
  "wipe_tx now aid svc sid p =
     tx_bind (chunks_delete_for_participant sid p) (\<lambda>keys.
     tx_bind (uniform_delete_for_participant_segments sid p) (\<lambda>segs.
     tx_bind (mute_ranges_delete_for_participant sid p) (\<lambda>mutes.
     tx_bind (audit_append_tx aid now (wipe_entry svc sid p ''wiped''
                [(''chunk_count'', JInt (int (length keys))), (''segment_count'', JInt segs),
                 (''mute_count'', JInt mutes)])) (\<lambda>_.
     tx_return (keys, segs, mutes)))))"

definition audio_deleted_event :: "env \<Rightarrow> uuid \<Rightarrow> int \<Rightarrow> pseudo_id \<Rightarrow> event" where
  "audio_deleted_event ev sid guild p =
     AudioDeleted (ev_utc_now ev 0) \<lparr>ad_session_id = sid, ad_guild_id = guild, ad_pseudo_id = p\<rparr>"

definition wipe_participant_audio_route ::
    "'s app_state \<Rightarrow> env \<Rightarrow> string \<Rightarrow> uuid \<Rightarrow> string \<Rightarrow> ('s, json) operation" where
  "wipe_participant_audio_route st ev svc sid pid_raw =
     h_bind (h_lift (from_pseudo_id_error (pseudo_id_new pid_raw))) (\<lambda>p.
     h_bind (run_tx (wipe_tx (ev_db_now ev 0) (ev_audit_id ev 0) svc sid p))
       (\<lambda>(keys, segs, mutes).
     h_bind (run_tx (participants_mark_wiped (ev_db_now ev 1) sid p)) (\<lambda>_.
     h_bind (sweep_keys st keys) (\<lambda>_.
     h_bind (read_db (guild_id_for_session sid)) (\<lambda>guild.
     h_bind (emit (audio_deleted_event ev sid guild p)) (\<lambda>_.
     h_return (jobject [(''ok'', JBool True), (''chunk_count'', JInt (int (length keys))),
                        (''segment_count'', JInt segs), (''mute_count'', JInt mutes)])))))))"

subsection \<open>Consent tokens\<close>

record create_token_request =
  tq_session_id :: uuid
  tq_participant_id :: uuid
  tq_pseudo_id :: pseudo_id

definition create_token_route ::
    "env \<Rightarrow> string \<Rightarrow> create_token_request \<Rightarrow> ('s, json) operation" where
  "create_token_route ev svc inp =
     h_bind (run_tx (consent_tokens_create (ev_db_now ev 0) (ev_row_id ev 0) (tq_session_id inp)
               (tq_participant_id inp) (tq_pseudo_id inp))) (\<lambda>ct.
     h_bind (audit ev 1 0 (entry svc (Some (pid_str (tq_pseudo_id inp)))
               (Some (tq_session_id inp)) ''consent_token'' [UuidText (ct_token ct)]
               ''created'' None)) (\<lambda>_.
     h_return (jobject [(''token'', JUuid (ct_token ct)),
                        (''expires_at'', JTime (ct_expires_at ct))])))"

definition token_not_found :: app_error where
  "token_not_found = NotFound [Lit ''consent token not found or expired'']"

definition validated :: "env \<Rightarrow> uuid \<Rightarrow> ('s, consent_token_with_context) operation" where
  "validated ev tok =
     h_bind (read_db (consent_tokens_validate (ev_db_now ev 0) tok)) (\<lambda>ctx.
     h_lift (ok_or token_not_found ctx))"

definition get_consent_route :: "env \<Rightarrow> uuid \<Rightarrow> ('s, consent_token_with_context) operation" where
  "get_consent_route ev tok = validated ev tok"

record patch_consent_body =
  pc_consent_scope :: "string option"
  pc_no_llm_training :: "bool option"
  pc_no_public_release :: "bool option"

definition patch_consent_token_route ::
    "env \<Rightarrow> uuid \<Rightarrow> patch_consent_body \<Rightarrow> ('s, participant) operation" where
  "patch_consent_token_route ev tok inp =
     h_bind (validated ev tok) (\<lambda>ctx.
     let participant_id = par_id (cx_participant ctx); session_id = ses_id (cx_session ctx) in
     h_bind (case pc_consent_scope inp of
               None \<Rightarrow> h_return (cx_participant ctx)
             | Some scope \<Rightarrow> run_tx (participants_update_consent (ev_db_now ev 1) participant_id
                 \<lparr>uc_consent_scope = scope, uc_consented_at = None\<rparr>)) (\<lambda>updated0.
     h_bind (if pc_no_llm_training inp \<noteq> None \<or> pc_no_public_release inp \<noteq> None
             then run_tx (participants_update_license participant_id
                    \<lparr>ul_no_llm_training = pc_no_llm_training inp,
                     ul_no_public_release = pc_no_public_release inp\<rparr>)
             else h_return updated0) (\<lambda>updated.
     h_bind (audit ev 3 0 (entry ''consent_token'' (Some (pid_str (par_pseudo_id updated)))
               (Some session_id) ''participant'' [UuidText participant_id]
               ''consent_patched_via_token''
               (Some (jobject [(''consent_scope'', json_opt JStr (pc_consent_scope inp)),
                  (''no_llm_training'', json_opt JBool (pc_no_llm_training inp)),
                  (''no_public_release'', json_opt JBool (pc_no_public_release inp))])))) (\<lambda>_.
     h_return updated))))"

definition token_wipe_tx :: "time \<Rightarrow> uuid \<Rightarrow> uuid \<Rightarrow> pseudo_id \<Rightarrow> string list dbop" where
  "token_wipe_tx now aid sid p =
     tx_bind (chunks_delete_for_participant sid p) (\<lambda>keys.
     tx_bind (uniform_delete_for_participant_segments sid p) (\<lambda>_.
     tx_bind (mute_ranges_delete_for_participant sid p) (\<lambda>_.
     tx_bind (audit_append_tx aid now (wipe_entry ''consent_token'' sid p ''wiped_via_token''
                [(''chunk_count'', JInt (int (length keys)))])) (\<lambda>_.
     tx_return keys))))"

definition delete_audio_token_route ::
    "'s app_state \<Rightarrow> env \<Rightarrow> uuid \<Rightarrow> ('s, unit) operation" where
  "delete_audio_token_route st ev tok =
     h_bind (validated ev tok) (\<lambda>ctx.
     let sid = ses_id (cx_session ctx); p = par_pseudo_id (cx_participant ctx) in
     h_bind (run_tx (token_wipe_tx (ev_db_now ev 1) (ev_audit_id ev 0) sid p)) (\<lambda>keys.
     h_bind (run_tx (participants_mark_wiped (ev_db_now ev 2) sid p)) (\<lambda>_.
     h_bind (sweep_keys st keys) (\<lambda>_.
     h_bind (read_db (\<lambda>d. fetch_one (map_option ses_guild_id (find_session sid d)))) (\<lambda>guild.
     emit (audio_deleted_event ev sid guild p))))))"

subsection \<open>Users\<close>

definition user_entry ::
    "string \<Rightarrow> string \<Rightarrow> string \<Rightarrow> message \<Rightarrow> string \<Rightarrow> json option \<Rightarrow> audit_entry" where
  "user_entry svc pseudo rtype rid action detail =
     entry svc (Some pseudo) None rtype rid action detail"

definition upsert_user_route :: "env \<Rightarrow> string \<Rightarrow> pseudo_id \<Rightarrow> ('s, user) operation" where
  "upsert_user_route ev svc p =
     h_bind (run_tx (users_upsert (ev_db_now ev 0) p)) (\<lambda>u.
     h_bind (audit ev 1 0 (user_entry svc (pid_str p) ''user'' [Lit (pid_str p)] ''upserted'' None))
       (\<lambda>_. h_return u))"

definition latest_name :: "display_name list \<Rightarrow> string option" where
  "latest_name ns = (case ns of [] \<Rightarrow> None | n # _ \<Rightarrow> Some (dn_display_name n))"

definition fetch_user_route :: "string \<Rightarrow> ('s, user \<times> string option) operation" where
  "fetch_user_route pid_raw =
     h_bind (h_lift (from_pseudo_id_error (pseudo_id_new pid_raw))) (\<lambda>p.
     h_bind (read_db (users_get p)) (\<lambda>u.
     h_bind (read_db (\<lambda>d. Inr (display_names_list p d))) (\<lambda>aliases.
     h_return (u, latest_name aliases))))"

record upsert_display_name =
  ud_display_name :: string
  ud_source :: string

definition post_display_route ::
    "env \<Rightarrow> string \<Rightarrow> string \<Rightarrow> upsert_display_name \<Rightarrow> ('s, display_name) operation" where
  "post_display_route ev svc pid_raw inp =
     h_bind (h_lift (from_pseudo_id_error (pseudo_id_new pid_raw))) (\<lambda>p.
     h_bind (run_tx (users_upsert (ev_db_now ev 0) p)) (\<lambda>_.
     h_bind (run_tx (display_names_upsert (ev_db_now ev 1) p (ud_display_name inp)
               (ud_source inp))) (\<lambda>row.
     h_bind (audit ev 2 0 (user_entry svc (pid_str p) ''display_name''
               [Lit (pid_str p), Lit ''/'', Lit (dn_display_name row)] ''seen''
               (Some (jobject [(''source'', JStr (dn_source row)),
                               (''seen_count'', JInt (dn_seen_count row))])))) (\<lambda>_.
     h_return row))))"

definition list_display_route :: "string \<Rightarrow> ('s, display_name list) operation" where
  "list_display_route pid_raw =
     h_bind (h_lift (from_pseudo_id_error (pseudo_id_new pid_raw))) (\<lambda>p.
     read_db (\<lambda>d. Inr (display_names_list p d)))"

definition list_admin_users_route :: "('s, admin_user_list_item list) operation" where
  "list_admin_users_route = read_db (\<lambda>d. Inr (users_list_all_with_details d))"

record admin_user_detail =
  ud_user :: user
  ud_latest_display_name :: "string option"
  ud_display_names :: "display_name list"
  ud_sessions :: "participated_session list"

definition fetch_admin_user_detail_route :: "string \<Rightarrow> ('s, admin_user_detail) operation" where
  "fetch_admin_user_detail_route pid_raw =
     h_bind (h_lift (from_pseudo_id_error (pseudo_id_new pid_raw))) (\<lambda>p.
     h_bind (read_db (users_get p)) (\<lambda>u.
     h_bind (read_db (\<lambda>d. Inr (display_names_list p d))) (\<lambda>aliases.
     h_bind (read_db (\<lambda>d. Inr (users_list_sessions_for_user p d))) (\<lambda>sess.
     h_return \<lparr>ud_user = u, ud_latest_display_name = latest_name aliases,
               ud_display_names = aliases, ud_sessions = sess\<rparr>))))"

definition patch_user_tx :: "time \<Rightarrow> uuid \<Rightarrow> string \<Rightarrow> pseudo_id \<Rightarrow> bool \<Rightarrow> user dbop" where
  "patch_user_tx now aid svc p is_admin =
     tx_bind (users_set_admin now p is_admin) (\<lambda>u.
     tx_bind (audit_append_tx aid now (user_entry svc (pid_str p) ''user'' [Lit (pid_str p)]
                (if is_admin then ''admin_granted'' else ''admin_revoked'')
                (Some (jobject [(''is_admin'', JBool is_admin)])))) (\<lambda>_.
     tx_return u))"

definition patch_user_route ::
    "env \<Rightarrow> string \<Rightarrow> string \<Rightarrow> bool \<Rightarrow> ('s, user) operation" where
  "patch_user_route ev svc pid_raw is_admin =
     h_bind (h_lift (from_pseudo_id_error (pseudo_id_new pid_raw))) (\<lambda>p.
     run_tx (patch_user_tx (ev_db_now ev 0) (ev_audit_id ev 0) svc p is_admin))"

subsection \<open>Admin grant\<close>

record grant_request =
  gr_shared_secret :: string
  gr_pseudo_id :: pseudo_id
  gr_is_admin :: "bool option"

definition invalid_secret :: app_error where
  "invalid_secret = Unauthorized [Lit ''invalid shared secret'']"

definition grant_tx :: "time \<Rightarrow> uuid \<Rightarrow> pseudo_id \<Rightarrow> bool \<Rightarrow> user dbop" where
  "grant_tx now aid p is_admin =
     tx_bind (users_set_admin now p is_admin) (\<lambda>u.
     tx_bind (audit_append_tx aid now (user_entry ''admin_bootstrap'' (pid_str p) ''admin''
                [Lit (pid_str p)] (if is_admin then ''granted'' else ''revoked'') None)) (\<lambda>_.
     tx_return u))"

definition admin_grant_route ::
    "'s app_state \<Rightarrow> env \<Rightarrow> grant_request \<Rightarrow> ('s, json) operation" where
  "admin_grant_route st ev req =
     (if gr_shared_secret req \<noteq> st_shared_secret st then h_fail invalid_secret
      else
        h_bind (run_tx (grant_tx (ev_db_now ev 0) (ev_audit_id ev 0) (gr_pseudo_id req)
                  (unwrap_or True (gr_is_admin req)))) (\<lambda>u.
        h_return (jobject [(''ok'', JBool True), (''pseudo_id'', JStr (pid_str (usr_pseudo_id u))),
                           (''is_admin'', JBool (usr_is_admin u))])))"

subsection \<open>What a wipe removes\<close>

definition wiped_participant :: "uuid \<Rightarrow> pseudo_id \<Rightarrow> database \<Rightarrow> database" where
  "wiped_participant sid p d =
     d\<lparr>t_chunks := delete_rows (in_stream sid p) (t_chunks d),
       t_segments := delete_rows (of_participant sid p) (t_segments d),
       t_mute_ranges := delete_rows (of_speaker sid p) (t_mute_ranges d)\<rparr>"

definition stream_keys :: "uuid \<Rightarrow> pseudo_id \<Rightarrow> database \<Rightarrow> string list" where
  "stream_keys sid p d = map ch_s3_key (stream_rows sid p d)"

lemma wipe_tx_eq_Inr:
  "wipe_tx now aid svc sid p d = Inr ((keys, segs, mutes), d') \<longleftrightarrow>
     keys = stream_keys sid p d \<and>
     segs = int (length (filter (of_participant sid p) (t_segments d))) \<and>
     mutes = int (length (filter (of_speaker sid p) (t_mute_ranges d))) \<and>
     \<not> has_key au_id aid (t_audit_log d) \<and>
     d' = (wiped_participant sid p d)\<lparr>t_audit_log := t_audit_log d @
       [audit_row_of aid now (wipe_entry svc sid p ''wiped''
          [(''chunk_count'', JInt (int (length keys))), (''segment_count'', JInt segs),
           (''mute_count'', JInt mutes)])]\<rparr>"
  by (auto simp: wipe_tx_def tx_bind_eq_Inr chunks_delete_for_participant_def
      uniform_delete_for_participant_segments_def mute_ranges_delete_for_participant_def
      audit_append_tx_eq audit_append_eq_Inr wiped_participant_def stream_keys_def)

lemma token_wipe_tx_eq_Inr:
  "token_wipe_tx now aid sid p d = Inr (keys, d') \<longleftrightarrow>
     keys = stream_keys sid p d \<and> \<not> has_key au_id aid (t_audit_log d) \<and>
     d' = (wiped_participant sid p d)\<lparr>t_audit_log := t_audit_log d @
       [audit_row_of aid now (wipe_entry ''consent_token'' sid p ''wiped_via_token''
          [(''chunk_count'', JInt (int (length keys)))])]\<rparr>"
  by (auto simp: token_wipe_tx_def tx_bind_eq_Inr chunks_delete_for_participant_def
      uniform_delete_for_participant_segments_def mute_ranges_delete_for_participant_def
      audit_append_tx_eq audit_append_eq_Inr wiped_participant_def stream_keys_def)

end
