(* ===== verification/Routes_Auth.thy ===== *)
theory Routes_Auth
  imports Samples Db_Invariants
begin

section \<open>Authentication, the reaper, and the operational routes\<close>

text \<open>
  \<^verbatim>\<open>src/routes/auth.rs\<close>, \<^verbatim>\<open>src/auth/middleware.rs\<close>, \<^verbatim>\<open>src/auth/reaper.rs\<close>, the upgrade of
  \<^verbatim>\<open>src/routes/ws/mod.rs\<close>, and the health, metrics and audit routes. The token hash (SHA-256 in
  hexadecimal, from third-party crates) is a parameter, as is the random token drawn by
  \<^verbatim>\<open>generate_token\<close>; nothing here needs more of the hash than that it is a function, unless a
  statement says so.
\<close>

type_synonym token_hash = "string \<Rightarrow> string"

definition bearer_prefix :: string where
  "bearer_prefix = ''Bearer ''"

record auth_request =
  ar_shared_secret :: string
  ar_service_name :: string

definition authenticate_route ::
    "'s app_state \<Rightarrow> env \<Rightarrow> token_hash \<Rightarrow> string \<Rightarrow> auth_request \<Rightarrow> ('s, string) operation" where
  "authenticate_route st ev hash token req =
     (if ar_shared_secret req \<noteq> st_shared_secret st
      then h_fail (Unauthorized [Lit ''invalid shared secret''])
      else
        h_bind (run_tx (service_sessions_insert (ev_db_now ev 0) (ev_row_id ev 0)
                  (ar_service_name req) (hash token))) (\<lambda>_.
        h_return token))"

definition bearer_token :: "headers \<Rightarrow> string option" where
  "bearer_token h = Option.bind (header_str h ''authorization'') (strip_prefix bearer_prefix)"

definition heartbeat_route ::
    "env \<Rightarrow> token_hash \<Rightarrow> headers \<Rightarrow> ('s, json) operation" where
  "heartbeat_route ev hash h =
     h_bind (h_lift (ok_or (Unauthorized [Lit ''missing bearer token'']) (bearer_token h)))
       (\<lambda>token.
     h_bind (run_tx (service_sessions_touch (ev_db_now ev 0) (hash token))) (\<lambda>ok.
     if \<not> ok then h_fail (Unauthorized [Lit ''invalid session token''])
     else h_return (jobject [(''ok'', JBool True)])))"

subsection \<open>The middleware\<close>

definition error_response :: "nat \<Rightarrow> string \<Rightarrow> response" where
  "error_response code msg = \<lparr>resp_status = code, resp_body = jobject [(''error'', JStr msg)]\<rparr>"

definition extract_bearer :: "headers \<Rightarrow> response + string" where
  "extract_bearer h =
     (case header_str h ''authorization'' of
        None \<Rightarrow> Inl (error_response 401 ''missing authorization header'')
      | Some v \<Rightarrow>
          (case strip_prefix bearer_prefix v of
             None \<Rightarrow> Inl (error_response 401 ''invalid authorization format'')
           | Some t \<Rightarrow> Inr t))"

text \<open>The name of the authenticated service, or the response that stops the request.\<close>

definition require_service_auth ::
    "time \<Rightarrow> u64 \<Rightarrow> token_hash \<Rightarrow> headers \<Rightarrow> database \<Rightarrow> response + string" where
  "require_service_auth now heartbeat_reap hash h d =
     bind_res (extract_bearer h) (\<lambda>token.
       (case service_sessions_lookup_alive now (hash token) heartbeat_reap d of
          Inl _ \<Rightarrow> Inl (error_response 500 ''auth lookup failed'')
        | Inr None \<Rightarrow> Inl (error_response 401 ''invalid or expired session token'')
        | Inr (Some name) \<Rightarrow> Inr name))"

text \<open>The WebSocket upgrade takes the token from the header or from the query.\<close>

definition ws_upgrade ::
    "time \<Rightarrow> u64 \<Rightarrow> token_hash \<Rightarrow> headers \<Rightarrow> string option \<Rightarrow> database \<Rightarrow>
     (nat \<times> string) + string" where
  "ws_upgrade now heartbeat_reap hash h query_token d =
     (case (case bearer_token h of Some t \<Rightarrow> Some t | None \<Rightarrow> query_token) of
        None \<Rightarrow> Inl (401, ''missing bearer token'')
      | Some token \<Rightarrow>
          (case service_sessions_lookup_alive now (hash token) heartbeat_reap d of
             Inr (Some n) \<Rightarrow> Inr n
           | Inr None \<Rightarrow> Inl (401, ''invalid token'')
           | Inl _ \<Rightarrow> Inl (500, ''auth lookup failed'')))"

subsection \<open>The reaper\<close>

text \<open>The period in nanoseconds: a third of the window, at least five seconds.\<close>

definition reaper_period :: "u64 \<Rightarrow> nat" where
  "reaper_period window = max (unat window * 1000000000 div 3) 5000000000"

definition reaper_tick :: "time \<Rightarrow> u64 \<Rightarrow> ('s, unit) operation" where
  "reaper_tick now window = best_effort (run_tx (service_sessions_reap_stale now window))"

subsection \<open>Health, metrics, audit\<close>

definition health_live :: json where
  "health_live = jobject [(''ok'', JBool True)]"

text \<open>Whether the database answers \<^verbatim>\<open>SELECT 1\<close> is an input.\<close>

definition health_ready :: "'s app_state \<Rightarrow> bool \<Rightarrow> ('s, json) operation" where
  "health_ready st db_ok w =
     (let s3_ok = (case os_head_bucket (st_store st) (w_store w) of Inl _ \<Rightarrow> False | Inr _ \<Rightarrow> True)
      in (Inr (jobject [(''ok'', JBool (db_ok \<and> s3_ok)), (''db'', JBool db_ok),
                        (''s3'', JBool s3_ok)]), w))"

datatype ip_addr = V4 "8 word" "8 word" "8 word" "8 word" | V6 "128 word"

fun is_loopback :: "ip_addr \<Rightarrow> bool" where
  "is_loopback (V4 a b c d) = (a = 127)"
| "is_loopback (V6 a) = (a = 1)"

definition metrics_route :: "ip_addr \<Rightarrow> metrics \<Rightarrow> (nat \<times> string) + metric_line list" where
  "metrics_route addr m =
     (if \<not> is_loopback addr then Inl (403, ''metrics are loopback-only'') else Inr (render m))"

definition audit_query_route :: "query_filter \<Rightarrow> ('s, audit_row list) operation" where
  "audit_query_route f = read_db (audit_query f)"

subsection \<open>Lemmas\<close>

lemma bearer_token_eq_Some:
  "bearer_token h = Some t \<longleftrightarrow>
     h ''authorization'' = Some (bearer_prefix @ t) \<and> list_all visible_ascii (bearer_prefix @ t)"
  by (auto simp: bearer_token_def header_str_eq_Some bind_eq_Some_conv)

lemma extract_bearer_eq_Inr [simp]: "extract_bearer h = Inr t \<longleftrightarrow> bearer_token h = Some t"
proof (cases "header_str h ''authorization''")
  case None
  then show ?thesis by (simp add: extract_bearer_def bearer_token_def)
next
  case (Some v)
  then show ?thesis
    by (cases "strip_prefix bearer_prefix v") (auto simp: extract_bearer_def bearer_token_def)
qed

text \<open>
  The middleware lets a request through exactly when some stored session has the hash of its
  token and was seen within the window.
\<close>

lemma lookup_alive_Some:
  assumes "service_sessions_wf (t_service_sessions d)"
  shows "service_sessions_lookup_alive now hsh reap d = Inr (Some name) \<longleftrightarrow>
    interval_ok reap \<and> (\<exists>v \<in> set (t_service_sessions d). sv_token_hash v = hsh \<and>
      alive now reap v \<and> sv_service_name v = name)"
proof -
  have dist: "distinct (map sv_token_hash (t_service_sessions d))"
    using assms by (simp add: service_sessions_wf_def)
  have "List.find (\<lambda>v. sv_token_hash v = hsh \<and> alive now reap v) vs = Some v \<longleftrightarrow>
      v \<in> set vs \<and> sv_token_hash v = hsh \<and> alive now reap v"
    if "distinct (map sv_token_hash vs)" for vs v
    using that by (induction vs) (auto simp: image_iff)
  from this [OF dist] show ?thesis
    by (auto simp: service_sessions_lookup_alive_def)
qed

lemma require_service_auth_eq_Inr:
  "require_service_auth now reap hash h d = Inr name \<longleftrightarrow>
     (\<exists>t. bearer_token h = Some t \<and>
          service_sessions_lookup_alive now (hash t) reap d = Inr (Some name))"
proof (cases "extract_bearer h")
  case (Inl r)
  then have "bearer_token h = None"
    using extract_bearer_eq_Inr [of h] by (cases "bearer_token h") (auto simp del: extract_bearer_eq_Inr)
  with Inl show ?thesis by (simp add: require_service_auth_def)
next
  case (Inr t)
  then have "bearer_token h = Some t" by simp
  then show ?thesis
    by (cases "service_sessions_lookup_alive now (hash t) reap d")
      (auto simp: require_service_auth_def Inr split: option.splits)
qed

lemma require_service_auth_eq_Inl:
  "require_service_auth now reap hash h d = Inl r \<Longrightarrow> resp_status r = 401 \<or> resp_status r = 500"
  by (auto simp: require_service_auth_def extract_bearer_def error_response_def bind_res_def
      split: sum.splits option.splits)

lemma reaper_tick_lookup:
  assumes "reaper_tick now window w = (r, w')"
  shows "service_sessions_lookup_alive now hsh window (w_db w') =
    service_sessions_lookup_alive now hsh window (w_db w)"
  using assms reap_keeps_alive [of now window "w_db w"]
  by (auto simp: reaper_tick_def run_tx_def split: sum.splits)

end
