(* ===== verification/Config.thy ===== *)
theory Config
  imports Http
begin

section \<open>Configuration\<close>

text \<open>
  \<^verbatim>\<open>src/config.rs\<close>: the settings read from environment variables, in the order of the struct's
  fields, which decides the error reported first. Durations are whole seconds.
\<close>

record config =
  cf_database_url :: string
  cf_s3_endpoint :: string
  cf_s3_access_key :: string
  cf_s3_secret_key :: string
  cf_s3_bucket :: string
  cf_shared_secret :: string
  cf_bind_addr :: string
  cf_resume_ttl :: int
  cf_heartbeat_reap :: int
  cf_ws_queue_depth :: int

datatype config_error = ConfigMissing string | ConfigInvalid string string

type_synonym environment = "string \<Rightarrow> string option"

definition require_var :: "environment \<Rightarrow> string \<Rightarrow> config_error + string" where
  "require_var vars v = ok_or (ConfigMissing v) (vars v)"

definition parse_u64_var :: "environment \<Rightarrow> string \<Rightarrow> int \<Rightarrow> config_error + int" where
  "parse_u64_var vars v dflt =
     (case vars v of
        None \<Rightarrow> Inr dflt
      | Some raw \<Rightarrow>
          (case parse_u64 raw of
             Inl e \<Rightarrow> Inl (ConfigInvalid v (int_error_text e))
           | Inr n \<Rightarrow> Inr n))"

definition config_from_env :: "environment \<Rightarrow> config_error + config" where
  "config_from_env vars =
     bind_res (require_var vars ''DATABASE_URL'') (\<lambda>database_url.
     bind_res (require_var vars ''S3_ENDPOINT'') (\<lambda>s3_endpoint.
     bind_res (require_var vars ''S3_ACCESS_KEY'') (\<lambda>s3_access_key.
     bind_res (require_var vars ''S3_SECRET_KEY'') (\<lambda>s3_secret_key.
     bind_res (require_var vars ''S3_BUCKET'') (\<lambda>s3_bucket.
     bind_res (require_var vars ''SHARED_SECRET'') (\<lambda>shared_secret.
     let bind_addr = (case vars ''BIND_ADDR'' of Some a \<Rightarrow> a | None \<Rightarrow> ''0.0.0.0:8001'') in
     bind_res (parse_u64_var vars ''RESUME_TTL_SECS'' 86400) (\<lambda>resume_ttl.
     bind_res (parse_u64_var vars ''HEARTBEAT_REAP_SECS'' 90) (\<lambda>heartbeat_reap.
     bind_res (parse_u64_var vars ''WS_QUEUE_DEPTH'' 64) (\<lambda>ws_queue_depth.
     Inr \<lparr>cf_database_url = database_url, cf_s3_endpoint = s3_endpoint,
          cf_s3_access_key = s3_access_key, cf_s3_secret_key = s3_secret_key,
          cf_s3_bucket = s3_bucket, cf_shared_secret = shared_secret, cf_bind_addr = bind_addr,
          cf_resume_ttl = resume_ttl, cf_heartbeat_reap = heartbeat_reap,
          cf_ws_queue_depth = ws_queue_depth\<rparr>)))))))))"

lemma parse_u64_var_range:
  assumes "parse_u64_var vars v n0 = Inr n" and "0 \<le> n0" and "n0 < 2 ^ 64"
  shows "0 \<le> n \<and> n < 2 ^ 64"
  using assms parse_int_range [of 0 "2 ^ 64 - 1" _ n]
  by (fastforce simp: parse_u64_var_def parse_u64_def split: option.splits sum.splits)

lemma require_var_eq_Inr [simp]: "require_var vars v = Inr s \<longleftrightarrow> vars v = Some s"
  by (simp add: require_var_def)

lemma config_from_env_ranges:
  assumes "config_from_env vars = Inr c"
  shows "0 \<le> cf_resume_ttl c \<and> cf_resume_ttl c < 2 ^ 64"
    and "0 \<le> cf_heartbeat_reap c \<and> cf_heartbeat_reap c < 2 ^ 64"
    and "0 \<le> cf_ws_queue_depth c \<and> cf_ws_queue_depth c < 2 ^ 64"
  using assms parse_u64_var_range
  by (auto simp: config_from_env_def bind_res_eq_Inr Let_def)

subsection \<open>Which settings are rejected\<close>

definition REQUIRED_VARS :: "string list" where
  "REQUIRED_VARS = [''DATABASE_URL'', ''S3_ENDPOINT'', ''S3_ACCESS_KEY'', ''S3_SECRET_KEY'',
     ''S3_BUCKET'', ''SHARED_SECRET'']"

definition NUMERIC_VARS :: "string list" where
  "NUMERIC_VARS = [''RESUME_TTL_SECS'', ''HEARTBEAT_REAP_SECS'', ''WS_QUEUE_DEPTH'']"

definition numeric_error :: "environment \<Rightarrow> string \<Rightarrow> int_error option" where
  "numeric_error vars v = (case vars v of None \<Rightarrow> None
     | Some raw \<Rightarrow> (case parse_u64 raw of Inl k \<Rightarrow> Some k | Inr n \<Rightarrow> None))"

lemma bind_require: 
  "bind_res (require_var vars v) f = (case vars v of None \<Rightarrow> Inl (ConfigMissing v) | Some s \<Rightarrow> f s)"
  by (simp add: bind_res_def require_var_def ok_or_def split: option.split)

lemma bind_numeric: 
  "bind_res (parse_u64_var vars v n0) f = Inl e \<longleftrightarrow>
     (case numeric_error vars v of Some k \<Rightarrow> e = ConfigInvalid v (int_error_text k)
      | None \<Rightarrow> f (projr (parse_u64_var vars v n0)) = Inl e)"
  by (auto simp: bind_res_def parse_u64_var_def numeric_error_def split: option.splits sum.splits)

lemmas config_error_defs = config_from_env_def bind_require bind_numeric REQUIRED_VARS_def
  NUMERIC_VARS_def

text \<open>What stops the start-up: the error of \<^verbatim>\<open>from_env\<close> names the first required variable that
  is not set; when all are set, the first numeric variable that is set to a text that does not parse,
  with the parser's reason; and there is no other error.\<close>

theorem config_errors:
  "config_from_env vars = Inl e \<longleftrightarrow>
     (case List.find (\<lambda>v. vars v = None) REQUIRED_VARS of
        Some v \<Rightarrow> e = ConfigMissing v
      | None \<Rightarrow>
          (case List.find (\<lambda>v. numeric_error vars v \<noteq> None) NUMERIC_VARS of
             Some v \<Rightarrow> e = ConfigInvalid v (int_error_text (the (numeric_error vars v)))
           | None \<Rightarrow> False))"
  apply (cases "vars ''DATABASE_URL''", simp add: config_error_defs eq_commute [of _ e])
  apply (cases "vars ''S3_ENDPOINT''", simp add: config_error_defs eq_commute [of _ e])
  apply (cases "vars ''S3_ACCESS_KEY''", simp add: config_error_defs eq_commute [of _ e])
  apply (cases "vars ''S3_SECRET_KEY''", simp add: config_error_defs eq_commute [of _ e])
  apply (cases "vars ''S3_BUCKET''", simp add: config_error_defs eq_commute [of _ e])
  apply (cases "vars ''SHARED_SECRET''", simp add: config_error_defs eq_commute [of _ e])
  apply (cases "numeric_error vars ''RESUME_TTL_SECS''")
   prefer 2 apply (simp add: config_error_defs Let_def)
  apply (cases "numeric_error vars ''HEARTBEAT_REAP_SECS''")
   prefer 2 apply (simp add: config_error_defs Let_def)
  apply (cases "numeric_error vars ''WS_QUEUE_DEPTH''")
   prefer 2 apply (simp add: config_error_defs Let_def)
  apply (simp add: config_error_defs Let_def)
  done

end
