(* ===== verification/Ws_Filter.thy ===== *)
theory Ws_Filter
  imports Events
begin

section \<open>WebSocket subscriptions\<close>

text \<open>
  \<^verbatim>\<open>src/routes/ws/filter.rs\<close>. A \<^verbatim>\<open>HashSet\<close> is a set: its iteration order is unspecified, so
  \<open>active\<close> answers the set and not a list.
\<close>

record subscription_filter =
  fl_guild_id :: "int option"
  fl_session_id :: "uuid option"

definition filter_default :: subscription_filter where
  "filter_default = \<lparr>fl_guild_id = None, fl_session_id = None\<rparr>"

record subscription =
  su_event :: string
  su_filter :: subscription_filter

type_synonym subscription_set = "subscription set"

definition subscription_set_new :: subscription_set where
  "subscription_set_new = {}"

fun subscribe :: "string list \<Rightarrow> subscription_filter \<Rightarrow> subscription_set \<Rightarrow> subscription_set" where
  "subscribe [] f subs = subs"
| "subscribe (name # names) f subs =
     subscribe names f (insert \<lparr>su_event = name, su_filter = f\<rparr> subs)"

definition unsubscribe :: "string list \<Rightarrow> subscription_set \<Rightarrow> subscription_set" where
  "unsubscribe names subs = Set.filter (\<lambda>s. su_event s \<notin> set names) subs"

definition active :: "subscription_set \<Rightarrow> subscription set" where
  "active subs = subs"

definition subscription_matches :: "event \<Rightarrow> subscription \<Rightarrow> bool" where
  "subscription_matches e s =
     (if su_event s \<noteq> event_name e then False
      else case (fl_guild_id (su_filter s), fl_session_id (su_filter s)) of
          (None, None) \<Rightarrow> True
        | (Some g, None) \<Rightarrow> g = event_guild_id e
        | (None, Some sid) \<Rightarrow> sid = event_session_id e
        | (Some g, Some sid) \<Rightarrow> g = event_guild_id e \<and> sid = event_session_id e)"

definition set_matches :: "subscription_set \<Rightarrow> event \<Rightarrow> bool" where
  "set_matches subs e \<longleftrightarrow> Set.filter (subscription_matches e) subs \<noteq> {}"

subsection \<open>What a subscription admits\<close>

text \<open>A filter admits an event when each field that is set agrees with it.\<close>

definition filter_admits :: "subscription_filter \<Rightarrow> event \<Rightarrow> bool" where
  "filter_admits f e \<longleftrightarrow>
     (\<forall>g. fl_guild_id f = Some g \<longrightarrow> event_guild_id e = g) \<and>
     (\<forall>i. fl_session_id f = Some i \<longrightarrow> event_session_id e = i)"

lemma subscription_matches_iff:
  "subscription_matches e s \<longleftrightarrow> su_event s = event_name e \<and> filter_admits (su_filter s) e"
  by (auto simp: subscription_matches_def filter_admits_def split: option.splits)

lemma subscribe_eq:
  "subscribe names f subs = subs \<union> (\<lambda>n. \<lparr>su_event = n, su_filter = f\<rparr>) ` set names"
  by (induction names f subs rule: subscribe.induct) auto

lemma set_matches_iff:
  "set_matches subs e \<longleftrightarrow>
     (\<exists>s \<in> subs. su_event s = event_name e \<and> filter_admits (su_filter s) e)"
  by (auto simp: set_matches_def subscription_matches_iff)

lemma set_matches_new [simp]: "\<not> set_matches subscription_set_new e"
  by (simp add: set_matches_iff subscription_set_new_def)

lemma set_matches_subscribe:
  "set_matches (subscribe names f subs) e \<longleftrightarrow>
     set_matches subs e \<or> (event_name e \<in> set names \<and> filter_admits f e)"
  unfolding set_matches_iff subscribe_eq by (force simp: image_iff)

lemma set_matches_unsubscribe:
  "set_matches (unsubscribe names subs) e \<longleftrightarrow>
     set_matches subs e \<and> event_name e \<notin> set names"
  by (auto simp: set_matches_iff unsubscribe_def)

end
