(* ===== verification/Ws_Queue.thy ===== *)
theory Ws_Queue
  imports Prelude
begin

section \<open>The drop-oldest queue\<close>

text \<open>
  \<^verbatim>\<open>src/routes/ws/queue.rs\<close>: a bounded queue that makes room by dropping its oldest element,
  and counts what it dropped in a saturating \<open>64 word\<close>. The interface \<open>bounded_queue\<close> is what
  its client relies on; the lemmas inside it say what a run of pushes leaves behind.
\<close>

record 'e drop_oldest_queue =
  q_cap :: nat
  q_inner :: "'e list"
  q_dropped :: "64 word"

definition queue_new :: "nat \<Rightarrow> 'e drop_oldest_queue" where
  "queue_new cap = \<lparr>q_cap = max cap 1, q_inner = [], q_dropped = 0\<rparr>"

definition saturating_inc :: "64 word \<Rightarrow> 64 word" where
  "saturating_inc n = (if n = - 1 then n else n + 1)"

definition queue_push :: "'e \<Rightarrow> 'e drop_oldest_queue \<Rightarrow> bool \<times> 'e drop_oldest_queue" where
  "queue_push e q =
     (if length (q_inner q) \<ge> q_cap q
      then (True, q\<lparr>q_inner := drop 1 (q_inner q) @ [e],
                    q_dropped := saturating_inc (q_dropped q)\<rparr>)
      else (False, q\<lparr>q_inner := q_inner q @ [e]\<rparr>))"

definition queue_pop :: "'e drop_oldest_queue \<Rightarrow> 'e option \<times> 'e drop_oldest_queue" where
  "queue_pop q =
     (case q_inner q of
        [] \<Rightarrow> (None, q)
      | e # es \<Rightarrow> (Some e, q\<lparr>q_inner := es\<rparr>))"

definition queue_len :: "'e drop_oldest_queue \<Rightarrow> nat" where
  "queue_len q = length (q_inner q)"

definition queue_dropped :: "'e drop_oldest_queue \<Rightarrow> 64 word" where
  "queue_dropped q = q_dropped q"

definition queue_ok :: "'e drop_oldest_queue \<Rightarrow> bool" where
  "queue_ok q \<longleftrightarrow> 1 \<le> q_cap q \<and> length (q_inner q) \<le> q_cap q"

subsection \<open>The interface\<close>

text \<open>The last \<open>n\<close> elements of a list.\<close>

definition newest :: "nat \<Rightarrow> 'e list \<Rightarrow> 'e list" where
  "newest n xs = drop (length xs - n) xs"

lemma newest_all [simp]: "length xs \<le> n \<Longrightarrow> newest n xs = xs"
  by (simp add: newest_def)

lemma length_newest: "length (newest n xs) = min n (length xs)"
  by (simp add: newest_def)

lemma newest_newest_append: "newest n (newest n xs @ ys) = newest n (xs @ ys)"
proof (cases "length xs \<le> n")
  case True
  then show ?thesis by simp
next
  case False
  then show ?thesis by (simp add: newest_def add.commute)
qed

locale bounded_queue =
  fixes push :: "'e \<Rightarrow> 'q \<Rightarrow> bool \<times> 'q"
    and pop :: "'q \<Rightarrow> 'e option \<times> 'q"
    and contents :: "'q \<Rightarrow> 'e list"
    and cap :: "'q \<Rightarrow> nat"
    and ok :: "'q \<Rightarrow> bool"
  assumes push_contents:
      "ok q \<Longrightarrow> contents (snd (push e q)) = newest (cap q) (contents q @ [e])"
    and push_overflow: "ok q \<Longrightarrow> fst (push e q) \<longleftrightarrow> length (contents q) = cap q"
    and push_ok: "ok q \<Longrightarrow> ok (snd (push e q))"
    and push_cap: "cap (snd (push e q)) = cap q"
    and pop_empty: "contents q = [] \<Longrightarrow> pop q = (None, q)"
    and pop_first: "contents q = x # xs \<Longrightarrow> fst (pop q) = Some x \<and> contents (snd (pop q)) = xs"
    and pop_ok: "ok q \<Longrightarrow> ok (snd (pop q))"
    and pop_cap: "cap (snd (pop q)) = cap q"
    and ok_bounded: "ok q \<Longrightarrow> 0 < cap q \<and> length (contents q) \<le> cap q"
begin

fun push_all :: "'e list \<Rightarrow> 'q \<Rightarrow> 'q" where
  "push_all [] q = q"
| "push_all (e # es) q = push_all es (snd (push e q))"

lemma push_all_ok: "ok q \<Longrightarrow> ok (push_all es q)"
  by (induction es arbitrary: q) (simp_all add: push_ok)

lemma push_all_contents:
  "ok q \<Longrightarrow> contents (push_all es q) = newest (cap q) (contents q @ es)"
proof (induction es arbitrary: q)
  case Nil
  then show ?case using ok_bounded by simp
next
  case (Cons e es)
  then have "contents (push_all (e # es) q) = newest (cap q) (newest (cap q) (contents q @ [e]) @ es)"
    by (simp add: push_ok push_cap push_contents)
  then show ?case by (simp add: newest_newest_append)
qed

lemma push_then_pop_empty:
  assumes "ok q" and "contents q = []"
  shows "fst (push e q) = False" and "fst (pop (snd (push e q))) = Some e"
    and "contents (snd (pop (snd (push e q)))) = []"
proof -
  have one: "contents (snd (push e q)) = [e]"
    using assms ok_bounded [of q] by (simp add: push_contents)
  show "fst (push e q) = False" using assms ok_bounded [of q] by (simp add: push_overflow)
  show "fst (pop (snd (push e q))) = Some e" "contents (snd (pop (snd (push e q)))) = []"
    using pop_first [OF one] by simp_all
qed

end

interpretation ws_queue: bounded_queue queue_push queue_pop q_inner q_cap queue_ok
proof
  fix q :: "'e drop_oldest_queue" and e x :: 'e and xs
  show "queue_ok q \<Longrightarrow> q_inner (snd (queue_push e q)) = newest (q_cap q) (q_inner q @ [e])"
    by (cases "length (q_inner q) = q_cap q")
      (auto simp: queue_ok_def queue_push_def newest_def Suc_le_eq)
  show "queue_ok q \<Longrightarrow> fst (queue_push e q) \<longleftrightarrow> length (q_inner q) = q_cap q"
    by (auto simp: queue_ok_def queue_push_def)
  show "queue_ok q \<Longrightarrow> queue_ok (snd (queue_push e q))"
    by (auto simp: queue_ok_def queue_push_def)
  show "q_inner q = x # xs \<Longrightarrow> fst (queue_pop q) = Some x \<and> q_inner (snd (queue_pop q)) = xs"
    by (simp add: queue_pop_def)
  show "queue_ok q \<Longrightarrow> queue_ok (snd (queue_pop q))"
    by (cases "q_inner q") (auto simp: queue_ok_def queue_pop_def)
qed (auto simp: queue_push_def queue_pop_def queue_ok_def split: list.splits)

lemma queue_new_ok: "queue_ok (queue_new cap)"
  by (simp add: queue_ok_def queue_new_def)

text \<open>The counter counts the drops, up to its largest value.\<close>

lemma saturating_inc_unat: "unat (saturating_inc n) = min (2 ^ 64 - 1) (Suc (unat n))"
proof (cases "n = - 1")
  case True
  then show ?thesis by (simp add: saturating_inc_def unsigned_minus_1_eq_mask mask_eq_exp_minus_1)
next
  case False
  then have "n + 1 \<noteq> 0" by (metis add_eq_0_iff2)
  then have "unat (n + 1) = Suc (unat n)" using unatSuc [of n] by (simp add: add.commute)
  moreover have "unat (n + 1) < 2 ^ 64" 
    by (rule order_less_le_trans [OF unsigned_less]) simp
  ultimately show ?thesis using False by (simp add: saturating_inc_def)
qed

end
