(* ===== verification/Ws_Session.thy ===== *)
theory Ws_Session
  imports Ws_Filter Ws_Queue Metrics "HOL-Library.Sublist"
begin

section \<open>A WebSocket connection\<close>

text \<open>
  \<^verbatim>\<open>src/routes/ws/session.rs\<close>: the loop of one connection. An iteration first sends one queued
  event, if there is one, then takes one branch of the \<^verbatim>\<open>select!\<close>; which branch is ready is an
  input, with what arrives on it. Instants are nanoseconds. \<open>ws_out\<close> is what the loop hands to the
  socket. A step that returns \<open>Inl\<close> closes the connection for that reason. Serialising an event
  cannot fail, so the branch that logs such a failure is left out.
\<close>

definition PING_PERIOD :: int where
  "PING_PERIOD = 30 * 1000000000"

definition PONG_GRACE :: int where
  "PONG_GRACE = 10 * 1000000000"

datatype client_frame =
    Subscribe "string list" subscription_filter
  | Unsubscribe "string list"
  | Ping

datatype server_frame =
    EventFrame event
  | Subscribed "subscription set"
  | Unsubscribed "subscription set"
  | ErrorFrame string
  | PongFrame "8 word list"
  | PingFrame

datatype closed =
    PeerClosed
  | PeerError string
  | SendFailed string
  | InvalidFrame string
  | HealthcheckTimeout
  | DropBurst

datatype ws_input =
    Recv event
  | Lagged "64 word"
  | BusClosed
  | SocketEnd
  | SocketError string
  | TextMessage "string + client_frame" \<comment> \<open>the frame, or why it does not parse\<close>
  | PongMessage
  | PingMessage "8 word list"
  | CloseMessage
  | BinaryMessage
  | Tick bool \<comment> \<open>whether the ping could be sent\<close>
  | DeadlineReached

record ws_state =
  ws_subs :: subscription_set
  ws_q :: "event drop_oldest_queue"
  ws_pong_deadline :: "int option"
  ws_window_start :: int
  ws_drops :: "64 word"
  ws_out :: "server_frame list"
  ws_metrics :: metrics

record send_env =
  se_error :: "string option"
  se_sample :: bool
  se_elapsed :: rat

type_synonym ws_step = "(closed, ws_state, unit) handler"

definition ws_init :: "nat \<Rightarrow> int \<Rightarrow> metrics \<Rightarrow> ws_state" where
  "ws_init depth now m =
     \<lparr>ws_subs = subscription_set_new, ws_q = queue_new depth, ws_pong_deadline = None,
      ws_window_start = now, ws_drops = 0, ws_out = [], ws_metrics = m\<rparr>"

definition ws_reply :: "server_frame \<Rightarrow> ws_step" where
  "ws_reply f = h_modify (\<lambda>s. s\<lparr>ws_out := ws_out s @ [f]\<rparr>)"

definition ws_count :: "string \<Rightarrow> 64 word \<Rightarrow> ws_step" where
  "ws_count name n = h_modify (\<lambda>s. s\<lparr>ws_metrics := inc_counter name n (ws_metrics s)\<rparr>)"

definition ws_drain :: "send_env \<Rightarrow> ws_step" where
  "ws_drain se s =
     (case queue_pop (ws_q s) of
        (None, _) \<Rightarrow> (Inr (), s)
      | (Some ev, q) \<Rightarrow>
          (case se_error se of
             Some e \<Rightarrow> (Inl (SendFailed e), s\<lparr>ws_q := q\<rparr>)
           | None \<Rightarrow>
               (Inr (), s\<lparr>ws_q := q, ws_out := ws_out s @ [EventFrame ev],
                  ws_metrics := inc_counter ''chronicle_ws_events_sent_total'' 1
                    (if se_sample se
                     then observe_histogram ''chronicle_ws_send_seconds'' (se_elapsed se)
                       (ws_metrics s)
                     else ws_metrics s)\<rparr>)))"

definition ws_overflow :: "int \<Rightarrow> ws_step" where
  "ws_overflow now s =
     (let s1 = s\<lparr>ws_drops := ws_drops s + 1,
                ws_metrics := inc_counter ''chronicle_ws_events_dropped_total'' 1 (ws_metrics s)\<rparr>;
          s2 = (if now - ws_window_start s1 > 60 * 1000000000
                then s1\<lparr>ws_window_start := now, ws_drops := 1\<rparr> else s1)
      in if ws_drops s2 > 10 then (Inl DropBurst, s2) else (Inr (), s2))"

definition ws_recv :: "int \<Rightarrow> event \<Rightarrow> ws_step" where
  "ws_recv now e s =
     (if \<not> set_matches (ws_subs s) e then (Inr (), s)
      else case queue_push e (ws_q s) of
          (overflowed, q) \<Rightarrow>
            (if overflowed then ws_overflow now (s\<lparr>ws_q := q\<rparr>) else (Inr (), s\<lparr>ws_q := q\<rparr>)))"

fun ws_text :: "string + client_frame \<Rightarrow> ws_step" where
  "ws_text (Inr (Subscribe names f)) s =
     (let s1 = s\<lparr>ws_subs := subscribe names f (ws_subs s)\<rparr>
      in ws_reply (Subscribed (active (ws_subs s1))) s1)"
| "ws_text (Inr (Unsubscribe names)) s =
     (let s1 = s\<lparr>ws_subs := unsubscribe names (ws_subs s)\<rparr>
      in ws_reply (Unsubscribed (active (ws_subs s1))) s1)"
| "ws_text (Inr Ping) s = ws_reply (PongFrame []) s"
| "ws_text (Inl e) s = ws_reply (ErrorFrame (''invalid frame: '' @ e)) s"

fun ws_select :: "int \<Rightarrow> ws_input \<Rightarrow> ws_step" where
  "ws_select now (Recv e) s = ws_recv now e s"
| "ws_select now (Lagged n) s = ws_count ''chronicle_ws_events_dropped_total'' n s"
| "ws_select now BusClosed s = (Inl PeerClosed, s)"
| "ws_select now SocketEnd s = (Inl PeerClosed, s)"
| "ws_select now (SocketError e) s = (Inl (PeerError e), s)"
| "ws_select now (TextMessage t) s = ws_text t s"
| "ws_select now PongMessage s = (Inr (), s\<lparr>ws_pong_deadline := None\<rparr>)"
| "ws_select now (PingMessage p) s = ws_reply (PongFrame p) s"
| "ws_select now CloseMessage s = (Inl PeerClosed, s)"
| "ws_select now BinaryMessage s =
     h_bind (ws_reply (ErrorFrame ''binary frames unsupported''))
       (\<lambda>_. h_fail (InvalidFrame ''binary'')) s"
| "ws_select now (Tick sent) s =
     (if \<not> sent then (Inl PeerClosed, s)
      else (Inr (), s\<lparr>ws_out := ws_out s @ [PingFrame],
                      ws_pong_deadline := Some (now + PONG_GRACE)\<rparr>))"
| "ws_select now DeadlineReached s = (Inl HealthcheckTimeout, s)"

text \<open>
  The deadline's branch is ready only when a deadline is set and reached (\<open>wait_deadline\<close>); the
  other branches depend on the peer, the bus and the ticker.
\<close>

definition branch_ready :: "int \<Rightarrow> ws_input \<Rightarrow> ws_state \<Rightarrow> bool" where
  "branch_ready now i s \<longleftrightarrow>
     (i = DeadlineReached \<longrightarrow>
        (case ws_pong_deadline s of None \<Rightarrow> False | Some d \<Rightarrow> d \<le> now))"

record ws_iteration =
  it_send :: send_env
  it_now :: int
  it_input :: ws_input

definition ws_iter :: "ws_iteration \<Rightarrow> ws_step" where
  "ws_iter x = h_bind (ws_drain (it_send x)) (\<lambda>_. ws_select (it_now x) (it_input x))"

fun ws_loop :: "ws_iteration list \<Rightarrow> ws_step" where
  "ws_loop [] s = (Inr (), s)"
| "ws_loop (x # xs) s = h_bind (ws_iter x) (\<lambda>_. ws_loop xs) s"

text \<open>\<open>run\<close> sets the gauge around the loop.\<close>

definition ws_connected :: "metrics \<Rightarrow> metrics" where
  "ws_connected m = set_gauge ''chronicle_ws_subscribers'' 1 m"

definition ws_disconnected :: "metrics \<Rightarrow> metrics" where
  "ws_disconnected m = set_gauge ''chronicle_ws_subscribers'' 0 m"

subsection \<open>The events a connection should deliver\<close>

text \<open>
  The specification knows no queue: the events received while a subscription admits them, in
  order. \<open>subs_after\<close> is the subscription set that a run of inputs leaves.
\<close>

fun input_subs :: "ws_input \<Rightarrow> subscription_set \<Rightarrow> subscription_set" where
  "input_subs (TextMessage (Inr (Subscribe names f))) subs = subscribe names f subs"
| "input_subs (TextMessage (Inr (Unsubscribe names))) subs = unsubscribe names subs"
| "input_subs _ subs = subs"

fun input_events :: "ws_input \<Rightarrow> subscription_set \<Rightarrow> event list" where
  "input_events (Recv e) subs = (if set_matches subs e then [e] else [])"
| "input_events _ subs = []"

fun subs_after :: "ws_input list \<Rightarrow> subscription_set \<Rightarrow> subscription_set" where
  "subs_after [] subs = subs"
| "subs_after (i # is) subs = subs_after is (input_subs i subs)"

fun accepted :: "ws_input list \<Rightarrow> subscription_set \<Rightarrow> event list" where
  "accepted [] subs = []"
| "accepted (i # is) subs = input_events i subs @ accepted is (input_subs i subs)"

fun frame_events :: "server_frame list \<Rightarrow> event list" where
  "frame_events [] = []"
| "frame_events (EventFrame e # fs) = e # frame_events fs"
| "frame_events (_ # fs) = frame_events fs"

lemma frame_events_append [simp]: "frame_events (fs @ gs) = frame_events fs @ frame_events gs"
  by (induction fs rule: frame_events.induct) auto

definition event_frame_free :: "server_frame \<Rightarrow> bool" where
  "event_frame_free f \<longleftrightarrow> frame_events [f] = []"

subsection \<open>At the select, the queue is empty\<close>

text \<open>
  Between two iterations the queue holds at most one event, because each iteration sends one
  and adds at most one. So nothing is ever dropped by the queue.
\<close>

definition ws_inv :: "ws_state \<Rightarrow> bool" where
  "ws_inv s \<longleftrightarrow> queue_ok (ws_q s) \<and> length (q_inner (ws_q s)) \<le> 1 \<and> q_dropped (ws_q s) = 0 \<and>
     ws_drops s = 0"

lemma ws_inv_init: "ws_inv (ws_init depth now m)"
  by (simp add: ws_inv_def ws_init_def queue_new_ok) (simp add: queue_new_def)

lemma ws_drain_ok:
  assumes inv: "ws_inv s" and run: "ws_drain se s = (Inr u, s')"
  shows "ws_inv s'" "q_inner (ws_q s') = []" "ws_subs s' = ws_subs s"
    "ws_pong_deadline s' = ws_pong_deadline s"
    "frame_events (ws_out s') = frame_events (ws_out s) @ q_inner (ws_q s)"
proof -
  have "ws_inv s' \<and> q_inner (ws_q s') = [] \<and> ws_subs s' = ws_subs s \<and>
      ws_pong_deadline s' = ws_pong_deadline s \<and>
      frame_events (ws_out s') = frame_events (ws_out s) @ q_inner (ws_q s)"
  proof (cases "q_inner (ws_q s)")
    case Nil
    with inv run show ?thesis by (auto simp: ws_drain_def queue_pop_def)
  next
    case (Cons e es)
    with inv have "es = []" by (simp add: ws_inv_def)
    with Cons inv run show ?thesis
      by (auto simp: ws_drain_def queue_pop_def ws_inv_def queue_ok_def split: option.splits)
  qed
  then show "ws_inv s'" "q_inner (ws_q s') = []" "ws_subs s' = ws_subs s"
    "ws_pong_deadline s' = ws_pong_deadline s"
    "frame_events (ws_out s') = frame_events (ws_out s) @ q_inner (ws_q s)" by simp_all
qed

lemma ws_drain_closes:
  assumes "ws_drain se s = (Inl c, s')"
  shows "(\<exists>e. c = SendFailed e) \<and> ws_drops s' = ws_drops s \<and> ws_out s' = ws_out s \<and>
    q_dropped (ws_q s') = q_dropped (ws_q s)"
  using assms by (auto simp: ws_drain_def queue_pop_def split: list.splits option.splits)

lemma ws_recv_empty:
  assumes "ws_inv s" and "q_inner (ws_q s) = []"
  shows "ws_recv now e s =
    (Inr (), if set_matches (ws_subs s) e
             then s\<lparr>ws_q := (ws_q s)\<lparr>q_inner := [e]\<rparr>\<rparr> else s)"
  using assms by (auto simp: ws_recv_def queue_push_def ws_inv_def queue_ok_def)

lemma ws_select_spec:
  assumes inv: "ws_inv s" and empty: "q_inner (ws_q s) = []"
    and run: "ws_select now i s = (r, s')"
  shows "ws_drops s' = 0" "q_dropped (ws_q s') = 0" "r \<noteq> Inl DropBurst"
    "frame_events (ws_out s') = frame_events (ws_out s)"
    "r = Inr u \<Longrightarrow> ws_inv s' \<and> ws_subs s' = input_subs i (ws_subs s) \<and>
       q_inner (ws_q s') = input_events i (ws_subs s)"
proof -
  have s0: "ws_drops s = 0" "q_dropped (ws_q s) = 0" "queue_ok (ws_q s)" using inv
    by (simp_all add: ws_inv_def)
  have "ws_drops s' = 0 \<and> q_dropped (ws_q s') = 0 \<and> r \<noteq> Inl DropBurst \<and>
      frame_events (ws_out s') = frame_events (ws_out s) \<and>
      (r = Inr u \<longrightarrow> ws_inv s' \<and> ws_subs s' = input_subs i (ws_subs s) \<and>
         q_inner (ws_q s') = input_events i (ws_subs s))"
  proof (cases i)
    case (Recv e)
    with run s0 inv empty show ?thesis
      by (auto simp: ws_recv_empty [OF inv empty] ws_inv_def queue_ok_def)
  next
    case (TextMessage t)
    with run s0 inv empty show ?thesis
      by (cases t; cases "projr t") (auto simp: ws_reply_def ws_inv_def Let_def)
  qed (use run s0 inv empty in
    \<open>auto simp: ws_reply_def ws_count_def ws_inv_def h_bind_def split: if_splits\<close>)
  then show "ws_drops s' = 0" "q_dropped (ws_q s') = 0" "r \<noteq> Inl DropBurst"
    "frame_events (ws_out s') = frame_events (ws_out s)"
    "r = Inr u \<Longrightarrow> ws_inv s' \<and> ws_subs s' = input_subs i (ws_subs s) \<and>
       q_inner (ws_q s') = input_events i (ws_subs s)" by simp_all
qed

lemma ws_iter_Inr:
  assumes inv: "ws_inv s" and run: "ws_iter x s = (Inr u, s')"
  shows "ws_inv s' \<and> ws_subs s' = input_subs (it_input x) (ws_subs s) \<and>
    frame_events (ws_out s') @ q_inner (ws_q s') =
      frame_events (ws_out s) @ q_inner (ws_q s) @ input_events (it_input x) (ws_subs s)"
proof -
  from run obtain s1 where d: "ws_drain (it_send x) s = (Inr (), s1)"
    and sel: "ws_select (it_now x) (it_input x) s1 = (Inr u, s')"
    by (auto simp: ws_iter_def h_bind_eq_Inr)
  note drained = ws_drain_ok [OF inv d]
  show ?thesis
    using ws_select_spec(4,5) [OF drained(1,2) sel] drained by simp
qed

lemma ws_iter_Inl:
  assumes inv: "ws_inv s" and run: "ws_iter x s = (Inl c, s')"
  shows "c \<noteq> DropBurst \<and> ws_drops s' = 0 \<and> q_dropped (ws_q s') = 0 \<and>
    prefix (frame_events (ws_out s')) (frame_events (ws_out s) @ q_inner (ws_q s))"
proof (cases "\<exists>c' t. ws_drain (it_send x) s = (Inl c', t)")
  case True
  then obtain c' t where d: "ws_drain (it_send x) s = (Inl c', t)" by blast
  with run have "c = c'" "s' = t" by (auto simp: ws_iter_def h_bind_def)
  with ws_drain_closes [OF d] inv show ?thesis by (auto simp: ws_inv_def)
next
  case False
  with run obtain s1 where d: "ws_drain (it_send x) s = (Inr (), s1)"
    and sel: "ws_select (it_now x) (it_input x) s1 = (Inl c, s')"
    by (auto simp: ws_iter_def h_bind_eq_Inl)
  note drained = ws_drain_ok [OF inv d]
  show ?thesis using ws_select_spec(1-4) [OF drained(1,2) sel] drained(5) by auto
qed

lemma ws_loop_spec:
  assumes "ws_inv s" and "ws_loop xs s = (r, s')"
  shows "r \<noteq> Inl DropBurst \<and> ws_drops s' = 0 \<and> q_dropped (ws_q s') = 0 \<and>
    prefix (frame_events (ws_out s'))
      (frame_events (ws_out s) @ q_inner (ws_q s) @ accepted (map it_input xs) (ws_subs s)) \<and>
    (r = Inr () \<longrightarrow> ws_inv s' \<and> ws_subs s' = subs_after (map it_input xs) (ws_subs s) \<and>
       frame_events (ws_out s') @ q_inner (ws_q s') =
         frame_events (ws_out s) @ q_inner (ws_q s) @ accepted (map it_input xs) (ws_subs s))"
  using assms
proof (induction xs arbitrary: s)
  case Nil
  then show ?case by (auto simp: ws_inv_def)
next
  case (Cons x xs)
  obtain q s1 where it: "ws_iter x s = (q, s1)" by fastforce
  show ?case
  proof (cases q)
    case (Inl c)
    with it Cons.prems(2) have "r = Inl c" "s' = s1" by (auto simp: h_bind_def)
    moreover have "prefix (frame_events (ws_out s1)) (frame_events (ws_out s) @ q_inner (ws_q s) @ zs)"
      if "prefix (frame_events (ws_out s1)) (frame_events (ws_out s) @ q_inner (ws_q s))" for zs
      using that by (metis append_assoc prefix_prefix)
    ultimately show ?thesis using ws_iter_Inl [OF Cons.prems(1)] it Inl by auto
  next
    case (Inr u)
    with it Cons.prems(2) have "ws_loop xs s1 = (r, s')" by (simp add: h_bind_def)
    moreover from ws_iter_Inr [OF Cons.prems(1)] it Inr have s1: "ws_inv s1"
      "ws_subs s1 = input_subs (it_input x) (ws_subs s)"
      "frame_events (ws_out s1) @ q_inner (ws_q s1) =
         frame_events (ws_out s) @ q_inner (ws_q s) @ input_events (it_input x) (ws_subs s)"
      by simp_all
    ultimately show ?thesis using Cons.IH [OF s1(1)] s1(2,3)
      by (simp add: append_assoc [symmetric] del: append_assoc)
  qed
qed

subsection \<open>The heartbeat\<close>

text \<open>When the peer's answer is due, as a function of what happened: the last ping counts, unless
  a pong came after it.\<close>

fun pong_due :: "(int \<times> ws_input) list \<Rightarrow> int option \<Rightarrow> int option" where
  "pong_due [] d = d"
| "pong_due ((t, Tick sent) # xs) d = pong_due xs (Some (t + PONG_GRACE))"
| "pong_due ((t, PongMessage) # xs) d = pong_due xs None"
| "pong_due (_ # xs) d = pong_due xs d"

definition timed_input :: "ws_iteration \<Rightarrow> int \<times> ws_input" where
  "timed_input x = (it_now x, it_input x)"

lemma ws_select_deadline:
  assumes "ws_select now i s = (Inr u, s')"
  shows "ws_pong_deadline s' = pong_due [(now, i)] (ws_pong_deadline s)"
proof (cases i)
  case (Recv e)
  with assms show ?thesis
    by (auto simp: ws_recv_def ws_overflow_def Let_def split: if_splits prod.splits)
next
  case (TextMessage t)
  with assms show ?thesis
    by (cases t; cases "projr t") (auto simp: ws_reply_def Let_def)
qed (use assms in \<open>auto simp: ws_reply_def ws_count_def h_bind_def split: if_splits\<close>)

lemma pong_due_Cons: "pong_due (p # xs) d = pong_due xs (pong_due [p] d)"
  by (cases p; cases "snd p") auto

lemma ws_drain_deadline:
  "ws_drain se s = (r, s') \<Longrightarrow> ws_pong_deadline s' = ws_pong_deadline s"
  by (auto simp: ws_drain_def queue_pop_def split: list.splits option.splits)

lemma ws_loop_deadline:
  assumes "ws_loop xs s = (Inr u, s')"
  shows "ws_pong_deadline s' = pong_due (map timed_input xs) (ws_pong_deadline s)"
  using assms
proof (induction xs arbitrary: s)
  case Nil
  then show ?case by simp
next
  case (Cons x xs)
  from Cons.prems obtain s2 where it: "ws_iter x s = (Inr (), s2)"
    and rest: "ws_loop xs s2 = (Inr u, s')"
    unfolding ws_loop.simps h_bind_eq_Inr by auto
  from it obtain s1 where d: "ws_drain (it_send x) s = (Inr (), s1)"
    and sel: "ws_select (it_now x) (it_input x) s1 = (Inr (), s2)"
    unfolding ws_iter_def h_bind_eq_Inr by auto
  have "ws_pong_deadline s2 = pong_due [timed_input x] (ws_pong_deadline s)"
    using ws_select_deadline [OF sel] ws_drain_deadline [OF d] by (simp add: timed_input_def)
  with Cons.IH [OF rest] pong_due_Cons [of "timed_input x" "map timed_input xs" "ws_pong_deadline s"]
  show ?case by simp
qed

text \<open>A deadline comes from a ping that no pong followed.\<close>

lemma pong_due_Some:
  "pong_due xs None = Some d \<Longrightarrow>
   \<exists>ys t sent zs. xs = ys @ (t, Tick sent) # zs \<and> d = t + PONG_GRACE \<and>
     (\<forall>z \<in> set zs. snd z \<noteq> PongMessage)"
proof (induction xs rule: rev_induct)
  case Nil
  then show ?case by simp
next
  case (snoc x xs)
  have app: "pong_due (xs @ [x]) None = pong_due [x] (pong_due xs None)" for x
  proof -
    have "pong_due (xs @ [x]) e = pong_due [x] (pong_due xs e)" for e
      by (induction xs arbitrary: e)
        (simp, metis append_Cons pong_due_Cons)
    then show ?thesis .
  qed
  obtain t i where x: "x = (t, i)" by fastforce
  show ?case
  proof (cases "\<exists>sent. i = Tick sent")
    case True
    then obtain sent where i: "i = Tick sent" by blast
    with snoc.prems x have "xs @ [x] = xs @ (t, Tick sent) # [] \<and> d = t + PONG_GRACE"
      by (simp add: app)
    then show ?thesis by force
  next
    case False
    with snoc.prems x have "pong_due xs None = Some d \<and> i \<noteq> PongMessage"
      by (cases i) (auto simp: app)
    with snoc.IH obtain ys t' sent zs where "xs = ys @ (t', Tick sent) # zs" "d = t' + PONG_GRACE"
      "\<forall>z \<in> set zs. snd z \<noteq> PongMessage" by blast
    then have "xs @ [x] = ys @ (t', Tick sent) # (zs @ [x])" "d = t' + PONG_GRACE"
      "\<forall>z \<in> set (zs @ [x]). snd z \<noteq> PongMessage"
      using x \<open>pong_due xs None = Some d \<and> i \<noteq> PongMessage\<close> by auto
    then show ?thesis by blast
  qed
qed

end
