(* ===== verification/Frames.thy ===== *)
theory Frames
  imports Routes_Chunks Routes_Uniform Routes_Participants Routes_Auth
begin

section \<open>What database operations leave alone\<close>

text \<open>
  \<open>leaves R m\<close> says that the operation \<open>m\<close>, when it succeeds, relates the database before to the one
  after by \<open>R\<close>. For a reflexive and transitive \<open>R\<close> (locale \<open>db_frame\<close>) the operations that do so are
  closed under the combinators of \<open>World\<close>. Most operations of \<^verbatim>\<open>src/db\<close> work on side tables: they
  leave the sessions, the audit log and the chunks as they are (\<open>side_same\<close>), and with that
  whatever depends on one of the three only.
\<close>

definition leaves :: "(database \<Rightarrow> database \<Rightarrow> bool) \<Rightarrow> 'a dbop \<Rightarrow> bool" where
  "leaves R m \<longleftrightarrow> (\<forall>d x d'. m d = Inr (x, d') \<longrightarrow> R d d')"

lemma leavesI: "(\<And>d x d'. m d = Inr (x, d') \<Longrightarrow> R d d') \<Longrightarrow> leaves R m"
  by (simp add: leaves_def)

lemma leavesD: "leaves R m \<Longrightarrow> m d = Inr (x, d') \<Longrightarrow> R d d'"
  by (auto simp: leaves_def)

lemma leaves_mono: "leaves R m \<Longrightarrow> (\<And>d d'. R d d' \<Longrightarrow> S d d') \<Longrightarrow> leaves S m"
  by (auto simp: leaves_def)

locale db_frame =
  fixes R :: "database \<Rightarrow> database \<Rightarrow> bool"
  assumes same: "R d d"
    and linked: "R c d \<Longrightarrow> R d e \<Longrightarrow> R c e"
begin

lemma leaves_basic:
  "leaves R (tx_return x)" "leaves R (tx_fail e)" "leaves R (tx_get f)" "leaves R (tx_lift r)"
  "leaves R (\<lambda>d. Inr (x, d))"
  by (auto simp: leaves_def same)

lemma leaves_bind: "leaves R m \<Longrightarrow> (\<And>x. leaves R (f x)) \<Longrightarrow> leaves R (tx_bind m f)"
  unfolding leaves_def tx_bind_eq_Inr by (blast intro: linked)

lemma leaves_if: "leaves R m \<Longrightarrow> leaves R n \<Longrightarrow> leaves R (if b then m else n)"
  by simp

lemmas leaves_intros = leaves_basic leaves_bind leaves_if

end

subsection \<open>The relations\<close>

definition core_same :: "database \<Rightarrow> database \<Rightarrow> bool" where
  "core_same d d' \<longleftrightarrow> t_sessions d' = t_sessions d \<and> t_audit_log d' = t_audit_log d"

definition chunks_same :: "database \<Rightarrow> database \<Rightarrow> bool" where
  "chunks_same d d' \<longleftrightarrow> t_chunks d' = t_chunks d"

definition sessions_same :: "database \<Rightarrow> database \<Rightarrow> bool" where
  "sessions_same d d' \<longleftrightarrow> t_sessions d' = t_sessions d"

definition side_same :: "database \<Rightarrow> database \<Rightarrow> bool" where
  "side_same d d' \<longleftrightarrow> core_same d d' \<and> t_chunks d' = t_chunks d"

interpretation core: db_frame core_same
  by unfold_locales (simp_all add: core_same_def)

interpretation chunk: db_frame chunks_same
  by unfold_locales (simp_all add: chunks_same_def)

interpretation sess: db_frame sessions_same
  by unfold_locales (simp_all add: sessions_same_def)

interpretation side: db_frame side_same
  by unfold_locales (simp_all add: side_same_def core_same_def)

abbreviation core_frame :: "'a dbop \<Rightarrow> bool" where
  "core_frame \<equiv> leaves core_same"

abbreviation side_frame :: "'a dbop \<Rightarrow> bool" where
  "side_frame \<equiv> leaves side_same"

lemma side_weaken:
  assumes "side_frame m"
  shows "core_frame m" "leaves chunks_same m" "leaves sessions_same m"
  using assms by (auto simp: leaves_def side_same_def core_same_def chunks_same_def sessions_same_def)

lemma core_weaken: "core_frame m \<Longrightarrow> leaves sessions_same m"
  by (auto simp: leaves_def core_same_def sessions_same_def)

lemmas side_defs = side_same_def core_same_def

subsection \<open>The operations on side tables\<close>

named_theorems side_intros \<open>operations that leave the sessions, the audit log and the chunks alone\<close>

lemmas side_frame_intros [side_intros] = side.leaves_intros

lemma users_side [side_intros]:
  "side_frame (users_upsert now p)" "side_frame (users_set_admin now p admin)"
  "side_frame (display_names_upsert now p name src)"
  by (intro leavesI, force simp: users_upsert_def users_set_admin_def
      display_names_upsert_def Let_def side_defs split: if_splits option.splits)+

lemma participant_upsert_row_side [side_intros]:
  "side_frame (participant_upsert_row now new_id sid a)"
  by (intro leavesI)
    (force simp: participant_upsert_row_def Let_def side_defs split: if_splits option.splits)

lemma participants_update_side [side_intros]: "side_frame (participants_update i f)"
  by (intro leavesI) (auto simp: participants_update_eq_Inr side_defs)

lemma seed_users_side [side_intros]: "side_frame (seed_users now ps)"
  by (induction ps) (auto intro!: side_intros)

lemma participant_upsert_rows_side [side_intros]:
  "side_frame (participant_upsert_rows now new_id k sid seen as)"
  by (induction as arbitrary: k seen) (auto intro!: side_intros)

lemma participants_side [side_intros]:
  "side_frame (participants_add now new_id sid a)"
  "side_frame (participants_add_many now ids sid inputs)"
  "side_frame (participants_update_consent now i c)"
  "side_frame (participants_update_license i l)"
  unfolding participants_add_def participants_add_many_def participants_update_consent_def
    participants_update_license_def
  by (intro side_intros)+

lemma participants_rows_side [side_intros]:
  "side_frame (participants_mark_wiped now sid p)"
  "side_frame (participants_delete_for_session sid)"
  by (intro leavesI, force simp: participants_mark_wiped_def
      participants_delete_for_session_def Let_def side_defs)+

lemma metadata_side [side_intros]:
  "side_frame (metadata_replace now tag sid blob)"
  "side_frame (metadata_shallow_merge now tag0 tag1 sid expected patch)"
  "side_frame (metadata_delete_for_session sid)"
proof -
  have up: "side_frame (metadata_upsert now sid b t)" for b t
    by (intro leavesI)
      (force simp: metadata_upsert_def Let_def side_defs split: if_splits option.splits)
  then show "side_frame (metadata_replace now tag sid blob)" by (simp add: metadata_replace_def)
  show "side_frame (metadata_shallow_merge now tag0 tag1 sid expected patch)"
    unfolding metadata_shallow_merge_def by (auto intro!: side_intros up split: prod.splits)
  show "side_frame (metadata_delete_for_session sid)"
    by (intro leavesI) (force simp: metadata_delete_for_session_def side_defs)
qed

lemma set_uniform_table_side [simp]: "side_same d (set_uniform_table rt rs d)"
  by (simp add: side_defs)

lemma insert_rows_side [side_intros]:
  "side_frame (insert_rows rt now ids tags k sid svc is)"
proof (induction "is" arbitrary: k)
  case (Cons i "is")
  have "side_frame (insert_row_in_tx rt now i' sid svc inp tag)" for i' inp tag
    by (intro leavesI) (auto simp: insert_row_in_tx_eq_Inr uniform_insert_pg_eq_Inr)
  with Cons show ?case by (auto intro!: side_intros)
qed (simp add: side_intros)

lemma uniform_side [side_intros]:
  "side_frame (uniform_bulk_insert rt now ids tags sid svc inputs)"
  "side_frame (uniform_patch rt now tag i expected pp)"
  "side_frame (uniform_delete_all_for_session rt sid)"
  "side_frame (uniform_delete_for_participant_segments sid p)"
proof -
  show "side_frame (uniform_bulk_insert rt now ids tags sid svc inputs)"
    unfolding uniform_bulk_insert_def by (intro side_intros)
  show "side_frame (uniform_patch rt now tag i expected pp)"
    by (intro leavesI) (auto simp: uniform_patch_eq_Inr Let_def)
  show "side_frame (uniform_delete_all_for_session rt sid)"
    by (intro leavesI) (auto simp: uniform_delete_all_for_session_def Let_def)
  show "side_frame (uniform_delete_for_participant_segments sid p)"
    by (intro leavesI) (auto simp: uniform_delete_for_participant_segments_def side_defs)
qed

lemma mute_side [side_intros]:
  "side_frame (mute_ranges_create now new_id sid p c)"
  "side_frame (mute_ranges_delete_one sid p i)"
  "side_frame (mute_ranges_delete_for_session sid)"
  "side_frame (mute_ranges_delete_for_participant sid p)"
  by (intro leavesI, force simp: mute_ranges_create_def mute_ranges_delete_one_def
      mute_ranges_delete_for_session_def mute_ranges_delete_for_participant_def Let_def
      side_defs split: if_splits option.splits)+

lemma service_side [side_intros]:
  "side_frame (service_sessions_insert now i name hash)"
  "side_frame (service_sessions_touch now hash)"
  "side_frame (service_sessions_reap_stale now w)"
  "side_frame (consent_tokens_create now i sid pa p)"
  by (intro leavesI, force simp: service_sessions_insert_def service_sessions_touch_def
      service_sessions_reap_stale_def consent_tokens_create_def Let_def
      side_defs split: if_splits option.splits)+

lemmas side_ops = users_side participant_upsert_row_side participants_update_side seed_users_side
  participant_upsert_rows_side participants_side participants_rows_side metadata_side
  insert_rows_side uniform_side mute_side service_side

subsection \<open>The other operations\<close>

named_theorems frame_intros \<open>operations that leave the sessions and the audit log alone\<close>

lemma chunks_delete_core:
  "core_frame (chunks_delete_for_session sid)" "core_frame (chunks_delete_for_participant sid p)"
  by (intro leavesI, force simp: chunks_delete_for_session_def
      chunks_delete_for_participant_def core_same_def)+

lemmas core_ops [frame_intros] = core.leaves_intros chunks_delete_core
  side_ops [THEN side_weaken(1)]

lemma audit_append_frames:
  "leaves chunks_same (audit_append aid now e)" "leaves chunks_same (audit_append_tx aid now e)"
  "leaves sessions_same (audit_append aid now e)" "leaves sessions_same (audit_append_tx aid now e)"
  by (auto simp: leaves_def audit_append_tx_eq audit_append_eq_Inr chunks_same_def sessions_same_def)

text \<open>What leaves the chunks alone: everything but the operations on chunks.\<close>

named_theorems chunk_intros \<open>operations that leave the chunks alone\<close>

lemma sessions_chunks:
  "leaves chunks_same (sessions_create now c)" "leaves chunks_same (sessions_get_in_tx i)"
  "leaves chunks_same (sessions_update i f)" "leaves chunks_same (sessions_update_status now i st)"
  "leaves chunks_same (sessions_patch_fields i e p)"
  "leaves chunks_same (sessions_resume_from_abandoned i)"
  by (auto simp: leaves_def chunks_same_def sessions_create_def Let_def sessions_update_eq_Inr
      sessions_update_status_def sessions_patch_fields_def sessions_resume_from_abandoned_def
      split: if_splits)

lemmas chunk_ops [chunk_intros] = chunk.leaves_intros sessions_chunks audit_append_frames(1,2)
  side_ops [THEN side_weaken(2)]

lemma patch_status_chunks [chunk_intros]: "leaves chunks_same (patch_status now i s st)"
  unfolding patch_status_def by (auto intro!: chunk_intros split: option.split)

lemma txs_chunks [chunk_intros]:
  "leaves chunks_same (sessions_patch_tx now aid svc i body)"
  "leaves chunks_same (sessions_resume_tx now aid clk ttl svc i rb)"
  "leaves chunks_same (patch_user_tx now aid svc p admin)"
  "leaves chunks_same (grant_tx now aid p admin)"
  unfolding sessions_patch_tx_def sessions_resume_tx_def patch_user_tx_def grant_tx_def Let_def
  by (auto intro!: chunk_intros split: prod.split)

end
