(* ===== verification/Core_Invariant.thy ===== *)
theory Core_Invariant
  imports Frames
begin

section \<open>Invariants of the sessions, the audit log and the chunks\<close>

text \<open>
  Three tables are special: sessions are never removed and change their status along the edges of
  the routes only, the audit log only grows, and chunks are added under the next number of their
  stream and deleted a whole stream at a time. The locale \<open>core_invariant\<close> is the contract a
  predicate on these tables must meet to be an invariant of the whole service; inside it,
  every operation is shown to keep the predicate together with \<open>base_inv\<close>.
\<close>

subsection \<open>The contract\<close>

text \<open>The changes the service makes to one session row.\<close>

definition session_change :: "session \<Rightarrow> session \<Rightarrow> bool" where
  "session_change s s' \<longleftrightarrow> ses_id s' = ses_id s \<and> ses_guild_id s' = ses_guild_id s \<and>
     ses_s3_prefix s' = ses_s3_prefix s \<and> ses_started_at s' = ses_started_at s \<and>
     ses_created_at s' = ses_created_at s \<and>
     (ses_status s' = ses_status s \<or> can_transition (ses_status s) (ses_status s') \<or>
      ses_status s = Abandoned \<and> ses_status s' = Recording \<or> ses_status s' = Deleted)"

lemma session_change_refl [simp]: "session_change s s"
  by (simp add: session_change_def)

lemma session_change_patched:
  "(case pb_status body of None \<Rightarrow> True | Some st \<Rightarrow> can_transition (ses_status s) st) \<Longrightarrow>
   session_change s (patched_session now body s)"
  by (auto simp: session_change_def patched_session_def set_fields_def set_status_def
      split: option.splits)

lemma session_change_resumed: "ses_status s = Abandoned \<Longrightarrow> session_change s (set_resumed s)"
  by (simp add: session_change_def set_resumed_def)

lemma session_change_deleted: "session_change s (set_status now Deleted s)"
  by (simp add: session_change_def set_status_def)

locale core_invariant =
  fixes Q :: "session list \<Rightarrow> audit_row list \<Rightarrow> chunk_row list \<Rightarrow> bool"
  assumes log_grows: "Q ss au cs \<Longrightarrow> Q ss (au @ [a]) cs"
    and session_added: "Q ss au cs \<Longrightarrow> \<not> has_key ses_id (ses_id s) ss \<Longrightarrow> Q (ss @ [s]) au cs"
    and chunk_added: "Q ss au (t_chunks d) \<Longrightarrow>
      ch_seq c = next_seq (ch_session_id c) (ch_pseudo_id c) d \<Longrightarrow> Q ss au (t_chunks d @ [c])"
    and chunks_deleted: "Q ss au cs \<Longrightarrow>
      (\<And>c c'. chunk_stream c = chunk_stream c' \<Longrightarrow> q c = q c') \<Longrightarrow> Q ss au (delete_rows q cs)"
    and session_changed:
      "Q ss au cs \<Longrightarrow> (\<And>s. s \<in> set ss \<Longrightarrow> ses_id s = i \<Longrightarrow> session_change s (f s)) \<Longrightarrow>
       (\<And>s. ses_id (f s) = ses_id s) \<Longrightarrow> Q (update_rows (\<lambda>s. ses_id s = i) f ss) au cs"
begin

definition inv :: "database \<Rightarrow> bool" where
  "inv d \<longleftrightarrow> base_inv d \<and> Q (t_sessions d) (t_audit_log d) (t_chunks d)"

lemma inv_frame: "tx_pres base_inv m \<Longrightarrow> side_frame m \<Longrightarrow> tx_pres inv m"
  unfolding tx_pres_def leaves_def side_same_def core_same_def inv_def by metis

lemma audit_append_keeps:
  "tx_pres inv (audit_append aid now e)" "tx_pres inv (audit_append_tx aid now e)"
  using audit_inv [of aid now e]
  by (auto simp: tx_pres_def inv_def audit_append_tx_eq audit_append_eq_Inr intro: log_grows)

lemma frame_ops:
  "tx_pres inv (users_upsert now p)" "tx_pres inv (users_set_admin now p admin)"
  "tx_pres inv (display_names_upsert now p name src)"
  "tx_pres inv (participants_add now new_id sid a)"
  "tx_pres inv (participants_add_many now ids sid inputs)"
  "tx_pres inv (participants_update_consent now pari c)"
  "tx_pres inv (participants_update_license pari l)"
  "tx_pres inv (participants_mark_wiped now sid p)"
  "tx_pres inv (participants_delete_for_session sid)"
  "tx_pres inv (metadata_replace now tag sid blob)"
  "tx_pres inv (metadata_shallow_merge now tag tag' sid expected blob)"
  "tx_pres inv (metadata_delete_for_session sid)"
  "tx_pres inv (uniform_bulk_insert rt now ids tags sid svc inps)"
  "tx_pres inv (uniform_patch rt now tag ui expected pp)"
  "tx_pres inv (uniform_delete_all_for_session rt sid)"
  "tx_pres inv (uniform_delete_for_participant_segments sid p)"
  "tx_pres inv (mute_ranges_create now new_id sid p cm)"
  "tx_pres inv (mute_ranges_delete_one sid p mi)"
  "tx_pres inv (mute_ranges_delete_for_session sid)"
  "tx_pres inv (mute_ranges_delete_for_participant sid p)"
  "tx_pres inv (service_sessions_insert now new_id nm hsh)"
  "tx_pres inv (service_sessions_touch now hsh)"
  "tx_pres inv (service_sessions_reap_stale now w)"
  "tx_pres inv (consent_tokens_create now new_id sid pa p)"
  by (intro inv_frame db_op_inv side_intros)+

lemma chunks_delete_keeps:
  "tx_pres inv (chunks_delete_for_session sid)" "tx_pres inv (chunks_delete_for_participant sid p)"
proof -
  have "Q (t_sessions d) (t_audit_log d) (delete_rows (\<lambda>c. ch_session_id c = sid) (t_chunks d))"
    "Q (t_sessions d) (t_audit_log d) (delete_rows (in_stream sid p) (t_chunks d))" if "inv d" for d
    by (rule chunks_deleted, use that in \<open>simp add: inv_def\<close>,
      simp add: chunk_stream_def in_stream_def)+
  then show "tx_pres inv (chunks_delete_for_session sid)"
    "tx_pres inv (chunks_delete_for_participant sid p)"
    using chunks_delete_inv(1) [of sid] chunks_delete_inv(2) [of sid p]
    by (simp_all add: tx_pres_def chunks_delete_for_session_def chunks_delete_for_participant_def inv_def)
qed

lemma uniform_delete_keeps: "h_pres inv (uniform_delete rt i)"
proof (rule h_presI)
  fix d assume i: "inv d"
  then have "base_inv (snd (uniform_delete rt i d))"
    using h_presD [OF uniform_delete_inv(1)] by (simp add: inv_def)
  then show "inv (snd (uniform_delete rt i d))"
    using i by (auto simp: inv_def uniform_delete_def split: option.splits)
qed

lemma sessions_create_keeps: "tx_pres inv (sessions_create now c)"
proof (rule tx_presI)
  fix d s d' assume i: "inv d" and ok: "sessions_create now c d = Inr (s, d')"
  have "base_inv d'" using tx_presD [OF sessions_create_inv _ ok] i by (simp add: inv_def)
  moreover have "Q (t_sessions d') (t_audit_log d') (t_chunks d')"
    using i ok session_added [of "t_sessions d" "t_audit_log d" "t_chunks d"]
    by (auto simp: inv_def sessions_create_def Let_def split: if_splits)
  ultimately show "inv d'" by (simp add: inv_def)
qed

lemma sessions_patch_keeps: "tx_pres inv (sessions_patch_tx now aid svc i body)"
proof (rule tx_presI)
  fix d x d' assume iv: "inv d" and ok: "sessions_patch_tx now aid svc i body d = Inr (x, d')"
  have inv: "base_inv d" using iv by (simp add: inv_def)
  obtain u ch where x: "x = (u, ch)" by fastforce
  from ok obtain s where s: "find_session i d = Some s"
    and tr: "case pb_status body of None \<Rightarrow> True | Some st \<Rightarrow> can_transition (ses_status s) st"
    unfolding x sessions_patch_tx_eq_Inr by (auto split: option.splits)
  from ok obtain e where d': "d' = d\<lparr>t_sessions := update_rows (\<lambda>s. ses_id s = i)
        (patched_session now body) (t_sessions d), t_audit_log := t_audit_log d @ [e]\<rparr>"
    unfolding x sessions_patch_tx_eq_Inr by blast
  have "session_change q (patched_session now body q)"
    if "q \<in> set (t_sessions d)" "ses_id q = i" for q
    using session_change_patched [OF tr] find_session_unique [OF base_invD(1) [OF inv] s that]
    by simp
  then have "Q (update_rows (\<lambda>s. ses_id s = i) (patched_session now body) (t_sessions d))
      (t_audit_log d) (t_chunks d)"
    using iv keeps_patched by (intro session_changed) (auto simp: inv_def keeps_session_def)
  from log_grows [OF this, of e] show "inv d'"
    using tx_presD [OF sessions_patch_tx_inv inv ok] by (simp add: inv_def d')
qed

lemma sessions_resume_keeps: "tx_pres inv (sessions_resume_tx now aid clk ttl svc i body)"
proof (rule tx_presI)
  fix d u d' assume iv: "inv d"
    and ok: "sessions_resume_tx now aid clk ttl svc i body d = Inr (u, d')"
  have inv: "base_inv d" using iv by (simp add: inv_def)
  from ok obtain s where s: "find_session i d = Some s" and st: "ses_status s = Abandoned"
    unfolding sessions_resume_tx_eq_Inr by blast
  from ok obtain e where d': "d' = d\<lparr>t_sessions := update_rows (\<lambda>s. ses_id s = i) set_resumed
        (t_sessions d), t_audit_log := t_audit_log d @ [e]\<rparr>"
    unfolding sessions_resume_tx_eq_Inr by blast
  have "session_change q (set_resumed q)" if "q \<in> set (t_sessions d)" "ses_id q = i" for q
    using session_change_resumed [OF st] find_session_unique [OF base_invD(1) [OF inv] s that]
    by simp
  then have "Q (update_rows (\<lambda>s. ses_id s = i) set_resumed (t_sessions d)) (t_audit_log d)
      (t_chunks d)"
    using iv by (intro session_changed) (auto simp: inv_def)
  from log_grows [OF this, of e] show "inv d'"
    using tx_presD [OF sessions_resume_tx_inv inv ok] by (simp add: inv_def d')
qed

lemma sessions_delete_status_keeps: "tx_pres inv (sessions_update_status now i Deleted)"
proof (rule tx_presI)
  fix d u d' assume iv: "inv d" and ok: "sessions_update_status now i Deleted d = Inr (u, d')"
  then have d': "d' = d\<lparr>t_sessions := update_rows (\<lambda>s. ses_id s = i) (set_status now Deleted)
      (t_sessions d)\<rparr>"
    by (auto simp: sessions_update_status_def sessions_update_eq_Inr)
  have "Q (t_sessions d') (t_audit_log d') (t_chunks d')"
    using iv unfolding d' by (auto simp: inv_def intro!: session_changed session_change_deleted)
  then show "inv d'"
    using tx_presD [OF sessions_delete_status_inv _ ok] iv by (simp add: inv_def)
qed

lemma sessions_get_keeps: "tx_pres inv (sessions_get_in_tx i)"
  by (rule tx_presI) simp

lemmas op_keeps = frame_ops audit_append_keeps chunks_delete_keeps uniform_delete_keeps sessions_create_keeps
  sessions_patch_keeps sessions_resume_keeps sessions_delete_status_keeps sessions_get_keeps

lemma tx_keeps:
  "tx_pres inv (delete_cascade_tx now aid svc i)" "tx_pres inv (wipe_tx now aid svc sid p)"
  "tx_pres inv (token_wipe_tx now aid sid p)" "tx_pres inv (patch_user_tx now aid svc p admin)"
  "tx_pres inv (grant_tx now aid p admin)"
  unfolding delete_cascade_tx_def wipe_tx_def token_wipe_tx_def patch_user_tx_def grant_tx_def
  by (intro pres_intros op_keeps)+

end

end
