(* ===== verification/Handler_Relations.thy ===== *)
theory Handler_Relations
  imports Routes_Sessions Routes_Chunks Routes_Uniform Routes_Participants Routes_Auth
begin

section \<open>What handlers do to the world, as a relation\<close>

text \<open>
  \<open>along R m\<close> says that every run of the handler \<open>m\<close>, also one that fails, relates the world before
  to the world after by \<open>R\<close>. For a relation that is transitive and holds whenever nothing but the
  metrics has changed (locale \<open>world_relation\<close>), the handlers that do so are closed under the
  combinators of \<open>World\<close>, and those of the reading routes are among them. When \<open>R\<close> does not look at
  the object store (\<open>store_blind\<close>), calls to the store are too; when it does not look at the bus
  (\<open>event_blind\<close>), sending an event is. The instances follow transactions (\<open>Transactions\<close>), audit
  entries (\<open>Audit_Trail\<close>), status events (\<open>Status_Tracking\<close>) and stored audio (\<open>Audio_Archive\<close>).
\<close>

definition along :: "('w \<Rightarrow> 'w \<Rightarrow> bool) \<Rightarrow> ('e, 'w, 'a) handler \<Rightarrow> bool" where
  "along R m \<longleftrightarrow> (\<forall>w r w'. m w = (r, w') \<longrightarrow> R w w')"

lemma alongI: "(\<And>w r w'. m w = (r, w') \<Longrightarrow> R w w') \<Longrightarrow> along R m"
  by (simp add: along_def)

lemma alongD: "along R m \<Longrightarrow> m w = (r, w') \<Longrightarrow> R w w'"
  by (auto simp: along_def)

locale world_relation =
  fixes R :: "'s world \<Rightarrow> 's world \<Rightarrow> bool"
  assumes linked: "R u v \<Longrightarrow> R v w \<Longrightarrow> R u w"
    and framed: "w_db w' = w_db w \<Longrightarrow> w_events w' = w_events w \<Longrightarrow> w_store w' = w_store w \<Longrightarrow>
      R w w'"
begin

lemma along_bind:
  assumes m: "along R m" and f: "\<And>x. along R (f x)"
  shows "along R (h_bind m f)"
proof (rule alongI)
  fix w r w' assume run: "h_bind m f w = (r, w')"
  obtain q w1 where mw: "m w = (q, w1)" by fastforce
  with m have one: "R w w1" by (rule alongD)
  show "R w w'"
  proof (cases q)
    case (Inl e)
    with run mw one show ?thesis by (simp add: h_bind_def)
  next
    case (Inr x)
    with run mw have "f x w1 = (r, w')" by (simp add: h_bind_def)
    with f have "R w1 w'" by (rule alongD)
    with one show ?thesis by (rule linked)
  qed
qed

lemma along_basic:
  "along R (h_return x)" "along R (h_fail e)" "along R (h_lift r)" "along R (h_get f)"
  "along R (read_db q)" "along R (on_metrics g)" "along R (\<lambda>w. (c w, w))"
  by (auto simp: along_def intro: framed)

lemma along_cases:
  "along R m \<Longrightarrow> along R n \<Longrightarrow> along R (if b then m else n)"
  "along R m \<Longrightarrow> (\<And>y. along R (k y)) \<Longrightarrow> along R (case x of None \<Rightarrow> m | Some y \<Rightarrow> k y)"
  by (auto split: option.split)

lemma along_map: "along R m \<Longrightarrow> along R (h_map f m)"
  unfolding h_map_def by (intro along_bind along_basic)

lemma along_best_effort: "along R m \<Longrightarrow> along R (best_effort m)"
  unfolding along_def best_effort_def by (metis prod.collapse prod.inject)

lemma along_run_tx:
  "(\<And>w x d. m (w_db w) = Inr (x, d) \<Longrightarrow> R w (w\<lparr>w_db := d\<rparr>)) \<Longrightarrow> along R (run_tx m)"
  by (auto simp: along_def run_tx_def intro: framed split: sum.splits)

lemma along_validated: "along R (validated ev tok)"
  unfolding validated_def by (intro along_bind along_basic)

lemmas along_intros = along_bind along_basic along_cases along_map along_validated

lemma along_reads:
  "along R (sessions_list_route f)" "along R (sessions_fetch_route i)"
  "along R (sessions_summary_route i)" "along R list_admin_users_route"
  "along R (fetch_admin_user_detail_route raw)" "along R (fetch_user_route raw)"
  "along R (list_display_route raw)" "along R (participants_list_route i)"
  "along R (participants_fetch_route i)" "along R (chunks_list_route i raw)"
  "along R (chunks_download_route st ev i raw n)" "along R (metadata_fetch_route i)"
  "along R (list_rows_route rt i q)" "along R (fetch_row_route rt i)"
  "along R (list_mutes_route i raw)" "along R (audit_query_route af)"
  "along R (get_consent_route ev tok)"
  unfolding sessions_list_route_def sessions_fetch_route_def sessions_summary_route_def
    list_admin_users_route_def fetch_admin_user_detail_route_def fetch_user_route_def
    list_display_route_def participants_list_route_def participants_fetch_route_def
    chunks_list_route_def chunks_download_route_def metadata_fetch_route_def list_rows_route_def
    fetch_row_route_def list_mutes_route_def audit_query_route_def get_consent_route_def
  by (intro along_intros)+

lemma along_health: "along R (health_ready st ok)"
  by (auto simp: along_def health_ready_def Let_def intro: framed)

end

locale store_blind = world_relation R for R :: "'s world \<Rightarrow> 's world \<Rightarrow> bool" +
  assumes unstored: "w_db w' = w_db w \<Longrightarrow> w_events w' = w_events w \<Longrightarrow> R w w'"
begin

lemma along_store: "along R (on_store h)" "along R (sweep_keys st keys)"
  by (auto simp: along_def sweep_keys_eq on_store_eq intro: unstored)

text \<open>An upload that fails leaves database and bus alone.\<close>

lemma along_upload:
  assumes new: "\<And>h x w w'. upload_new st ev svc sid (PseudoId raw) h body (w_db w) w = (Inr x, w') \<Longrightarrow>
      R w w'"
  shows "along R (chunks_upload_route st ev rfc svc sid raw hs body)"
proof (rule alongI)
  fix w r w' assume run: "chunks_upload_route st ev rfc svc sid raw hs body w = (r, w')"
  show "R w w'"
  proof (cases r)
    case (Inl e)
    with run upload_error_frame show ?thesis by (metis unstored)
  next
    case (Inr x)
    with run show ?thesis
      by (auto simp: chunks_upload_route_Inr split: option.splits intro: new unstored)
  qed
qed

end

locale event_blind = world_relation R for R :: "'s world \<Rightarrow> 's world \<Rightarrow> bool" +
  assumes silent: "w_db w' = w_db w \<Longrightarrow> w_store w' = w_store w \<Longrightarrow> R w w'"
begin

lemma along_emit: "along R (emit e)"
  by (auto simp: along_def intro: silent)

end

locale db_relation = store_blind R + event_blind R for R :: "'s world \<Rightarrow> 's world \<Rightarrow> bool"

end
