(* ===== verification/Side_Handlers.thy ===== *)
theory Side_Handlers
  imports Frames Handler_Relations
begin

section \<open>Handlers that leave sessions and audio alone\<close>

text \<open>
  Most routes neither change a session nor touch audio: they work on the side tables, append to the
  audit log and announce what they did with events that are not about a session's status. The
  locale \<open>side_relation\<close> is what a relation must allow for all of them to go along it at once
  (\<open>along_side_routes\<close>). Its instances are the statuses told on the bus (\<open>Status_Tracking\<close>) and the
  stored audio (\<open>Audio_Archive\<close>).
\<close>

definition status_event :: "uuid \<Rightarrow> event \<Rightarrow> bool" where
  "status_event i e \<longleftrightarrow> (\<exists>t c. e = SessionStateChanged t c \<and> ssc_session_id c = i)"

lemma not_status_event [simp]:
  "\<not> status_event i (created_event rt t d)" "\<not> status_event i (updated_event rt t d)"
  "\<not> status_event i (deleted_event rt t d)" "\<not> status_event i (ChunkUploaded t c)"
  "\<not> status_event i (MuteRangeCreated t m)" "\<not> status_event i (MuteRangeDeleted t m)"
  "\<not> status_event i (audio_deleted_event ev sid g p)"
  "\<not> status_event i (chunk_uploaded_event ev sid g p n z)"
  by (cases rt; simp add: status_event_def audio_deleted_event_def chunk_uploaded_event_def)+

lemma uniform_delete_sides:
  "t_sessions (snd (uniform_delete rt i d)) = t_sessions d"
  "t_chunks (snd (uniform_delete rt i d)) = t_chunks d"
  by (auto simp: uniform_delete_def split: option.split)

locale side_relation = world_relation R for R :: "'s world \<Rightarrow> 's world \<Rightarrow> bool" +
  assumes sided: "t_sessions (w_db w') = t_sessions (w_db w) \<Longrightarrow> t_chunks (w_db w') = t_chunks (w_db w) \<Longrightarrow>
      w_events w' = w_events w \<Longrightarrow> w_store w' = w_store w \<Longrightarrow> R w w'"
    and announced: "w_db w' = w_db w \<Longrightarrow> w_store w' = w_store w \<Longrightarrow> w_events w' = w_events w @ [e] \<Longrightarrow>
      (\<And>i. \<not> status_event i e) \<Longrightarrow> R w w'"
begin

lemma along_side_tx: "leaves sessions_same m \<Longrightarrow> leaves chunks_same m \<Longrightarrow> along R (run_tx m)"
  by (rule along_run_tx, rule sided)
    (auto dest!: leavesD simp: sessions_same_def chunks_same_def)

lemma along_side_op: "side_frame m \<Longrightarrow> along R (run_tx m)"
  by (intro along_side_tx side_weaken)

lemma along_audit: "along R (audit ev t k e)"
  unfolding audit_def by (intro along_side_tx audit_append_frames)

lemma along_user_txs:
  "along R (run_tx (patch_user_tx now aid svc p admin))" "along R (run_tx (grant_tx now aid p admin))"
  unfolding patch_user_tx_def grant_tx_def
  by (intro along_side_tx chunk.leaves_bind sess.leaves_bind audit_append_frames side_weaken
      side_intros)+

lemma along_row_delete: "along R (on_db (uniform_delete rt i))"
proof (rule alongI)
  fix w w' :: "'s world" and r assume "on_db (uniform_delete rt i) w = (r, w')"
  then show "R w w'"
    using uniform_delete_sides [of rt i "w_db w"]
    by (intro sided) (auto simp: on_db_def split: prod.splits)
qed

lemma along_announced: "(\<And>i. \<not> status_event i e) \<Longrightarrow> along R (emit e)"
  by (auto simp: along_def intro: announced)

lemma along_announce_rows: "along R (announce_rows rt ev svc sid guild k rows)"
  by (induction rows arbitrary: k)
    (auto intro!: along_intros along_audit along_announced)

lemmas along_side_intros = along_intros along_audit along_user_txs along_row_delete along_announced
  along_announce_rows along_side_op

lemma along_side_routes:
  "along R (metadata_replace_route ev svc sid blob)"
  "along R (metadata_patch_route ev svc sid hs blob)"
  "along R (bulk_create_route rt ev svc sid req)"
  "along R (patch_row_route rt ev svc i hs pb)" "along R (delete_row_route rt ev svc i)"
  "along R (add_one_route ev svc sid ap)" "along R (add_batch_route ev svc sid aps)"
  "along R (patch_consent_route ev svc i uc)" "along R (patch_license_route ev svc i ul)"
  "along R (create_mute_route ev svc sid raw cm)" "along R (delete_mute_route ev svc sid raw rid)"
  "along R (create_token_route ev svc tq)" "along R (patch_consent_token_route ev tok pc)"
  "along R (upsert_user_route ev svc p)" "along R (post_display_route ev svc raw ud)"
  "along R (patch_user_route ev svc raw admin)" "along R (admin_grant_route st ev gq)"
  "along R (authenticate_route st ev hash token aq)" "along R (heartbeat_route ev hash h)"
  unfolding metadata_replace_route_def metadata_patch_route_def
    bulk_create_route_def patch_row_route_def delete_row_route_def add_one_route_def
    add_batch_route_def patch_consent_route_def patch_license_route_def create_mute_route_def
    delete_mute_route_def create_token_route_def patch_consent_token_route_def
    upsert_user_route_def post_display_route_def patch_user_route_def admin_grant_route_def
    authenticate_route_def heartbeat_route_def Let_def
  by (auto intro!: along_side_intros side_intros split: prod.splits)

end

end
