(* ===== verification/Transactions.thy ===== *)
theory Transactions
  imports Core_Invariant Handler_Relations
begin

section \<open>Interleaved transactions\<close>

text \<open>
  What the database sees of the whole service: the transactions (and single statements) of all
  requests and of the reaper, in whatever order the requests interleave. \<open>tx_step\<close> has one rule
  for each transaction of \<^verbatim>\<open>src/routes\<close> and \<^verbatim>\<open>src/auth\<close>, with arbitrary arguments; an upload is
  one transaction around the put of its object. \<open>traced m\<close> says that whatever \<open>m\<close> does to the
  database is a run of such transactions, also when it fails midway.
\<close>

inductive tx_step :: "database \<Rightarrow> database \<Rightarrow> bool" where
  sessions_create: "sessions_create now c d = Inr (x0, d') \<Longrightarrow> tx_step d d'"
| sessions_patch: "sessions_patch_tx now aid svc i body d = Inr (x1, d') \<Longrightarrow> tx_step d d'"
| sessions_resume: "sessions_resume_tx now aid clk ttl svc i rb d = Inr (x2, d') \<Longrightarrow> tx_step d d'"
| delete_cascade: "delete_cascade_tx now aid svc i d = Inr (x3, d') \<Longrightarrow> tx_step d d'"
| metadata_replace: "metadata_replace now tag sid blob d = Inr (x4, d') \<Longrightarrow> tx_step d d'"
| metadata_merge: "metadata_shallow_merge now tag tag1 sid expected blob d = Inr (x5, d') \<Longrightarrow> tx_step d d'"
| bulk_insert: "uniform_bulk_insert rt now ids tags sid svc inps d = Inr (x6, d') \<Longrightarrow> tx_step d d'"
| row_patch: "uniform_patch rt now tag i expected pp d = Inr (x7, d') \<Longrightarrow> tx_step d d'"
| participant_add: "participants_add now pid sid ap d = Inr (x8, d') \<Longrightarrow> tx_step d d'"
| participants_batch: "participants_add_many now pids sid aps d = Inr (x9, d') \<Longrightarrow> tx_step d d'"
| consent_update: "participants_update_consent now i uc d = Inr (x10, d') \<Longrightarrow> tx_step d d'"
| license_update: "participants_update_license i ul d = Inr (x11, d') \<Longrightarrow> tx_step d d'"
| mark_wiped: "participants_mark_wiped now sid p d = Inr (x12, d') \<Longrightarrow> tx_step d d'"
| mute_create: "mute_ranges_create now mid sid p cm d = Inr (x13, d') \<Longrightarrow> tx_step d d'"
| mute_delete: "mute_ranges_delete_one sid p mid d = Inr (x14, d') \<Longrightarrow> tx_step d d'"
| wipe: "wipe_tx now aid svc sid p d = Inr (x15, d') \<Longrightarrow> tx_step d d'"
| token_wipe: "token_wipe_tx now aid sid p d = Inr (x16, d') \<Longrightarrow> tx_step d d'"
| token_create: "consent_tokens_create now tid sid pa p d = Inr (x17, d') \<Longrightarrow> tx_step d d'"
| user_upsert: "users_upsert now p d = Inr (x18, d') \<Longrightarrow> tx_step d d'"
| name_upsert: "display_names_upsert now p name src d = Inr (x19, d') \<Longrightarrow> tx_step d d'"
| user_patch: "patch_user_tx now aid svc p admin d = Inr (x20, d') \<Longrightarrow> tx_step d d'"
| grant: "grant_tx now aid p admin d = Inr (x21, d') \<Longrightarrow> tx_step d d'"
| login: "service_sessions_insert now vid nm hsh d = Inr (x22, d') \<Longrightarrow> tx_step d d'"
| touch: "service_sessions_touch now hsh d = Inr (x23, d') \<Longrightarrow> tx_step d d'"
| reap: "service_sessions_reap_stale now win d = Inr (x24, d') \<Longrightarrow> tx_step d d'"
| audit: "audit_append aid now e d = Inr (x25, d') \<Longrightarrow> tx_step d d'"
| row_delete: "uniform_delete rt i d = (r, d') \<Longrightarrow> tx_step d d'"
| upload: "find_session sid d = Some s \<Longrightarrow> in_int4 (next_seq sid p d) \<Longrightarrow> chunk_pid_ok p \<Longrightarrow>
     \<not> has_key chunk_seq_key (sid, p, next_seq sid p d) (t_chunks d) \<Longrightarrow>
     \<not> has_key chunk_client_key (sid, p, hd_client_chunk_id h) (t_chunks d) \<Longrightarrow>
     \<not> has_key au_id (ev_audit_id ev 0) (t_audit_log d) \<Longrightarrow>
     tx_step d (upload_inserts ev svc sid p h b s d)"

text \<open>A run of transactions.\<close>

abbreviation tx_run :: "database \<Rightarrow> database \<Rightarrow> bool" where
  "tx_run \<equiv> tx_step\<^sup>*\<^sup>*"

subsection \<open>Every transaction keeps a core invariant\<close>

context core_invariant
begin

lemma upload_inserts_keeps:
  assumes "inv d" and "find_session sid d = Some s" and "in_int4 (next_seq sid p d)"
    and "chunk_pid_ok p" and "\<not> has_key chunk_seq_key (sid, p, next_seq sid p d) (t_chunks d)"
    and "\<not> has_key chunk_client_key (sid, p, hd_client_chunk_id h) (t_chunks d)"
    and "\<not> has_key au_id (ev_audit_id ev 0) (t_audit_log d)"
  shows "inv (upload_inserts ev svc sid p h b s d)"
proof -
  have "base_inv (upload_inserts ev svc sid p h b s d)"
    using assms upload_inserts_inv by (simp add: inv_def)
  moreover have "ses_id s = sid" using assms(2) by (auto dest: find_session_SomeD)
  ultimately show ?thesis
    using assms(1) by (simp add: inv_def upload_inserts_def log_grows chunk_added)
qed

lemmas commits_keep = frame_ops [THEN tx_presD] audit_append_keeps [THEN tx_presD]
  sessions_create_keeps [THEN tx_presD] sessions_patch_keeps [THEN tx_presD]
  sessions_resume_keeps [THEN tx_presD] tx_keeps [THEN tx_presD]

lemma tx_step_keeps: "tx_step d d' \<Longrightarrow> inv d \<Longrightarrow> inv d'"
proof (induction rule: tx_step.induct)
  case (row_delete rt i d r d')
  then show ?case using h_presD2 [OF uniform_delete_keeps] by blast
next
  case upload
  then show ?case by (auto intro: upload_inserts_keeps)
qed (drule (1) commits_keep, assumption)+

lemma tx_run_keeps: "tx_run d d' \<Longrightarrow> inv d \<Longrightarrow> inv d'"
  by (induction rule: rtranclp_induct) (auto dest: tx_step_keeps)

end

text \<open>
  Two instances: with numbers that have no gap it is the service's invariant, with numbers that grow
  it is what also holds when a wipe commits in the middle of an upload (\<open>Flights\<close>).
\<close>

interpretation plain: core_invariant "\<lambda>ss au cs. streams_gapless cs"
  by unfold_locales (auto intro: streams_gapless_delete streams_gapless_next)

interpretation rising: core_invariant "\<lambda>ss au cs. streams_rising cs"
  by unfold_locales (auto intro: streams_rising_delete streams_rising_next)

lemma plain_inv [simp]: "plain.inv d \<longleftrightarrow> service_inv d"
  by (simp add: plain.inv_def service_inv_base)

subsection \<open>Handlers run transactions\<close>

abbreviation traced :: "('s, 'a) operation \<Rightarrow> bool" where
  "traced \<equiv> along (\<lambda>w w'. tx_run (w_db w) (w_db w'))"

interpretation runs: db_relation "\<lambda>w w'. tx_run (w_db w) (w_db w')"
  by unfold_locales (auto intro: rtranclp_trans)

named_theorems trace_intros \<open>handlers as runs of transactions\<close>

lemmas traced_intros [trace_intros] = runs.along_intros runs.along_store runs.along_emit
lemmas traced_reads = runs.along_reads runs.along_health

lemma traced_run_tx: "(\<And>d x d'. m d = Inr (x, d') \<Longrightarrow> tx_step d d') \<Longrightarrow> traced (run_tx m)"
  by (intro runs.along_run_tx) auto

lemma traced_transactions [trace_intros]:
  "traced (run_tx (sessions_create now c))"
  "traced (run_tx (sessions_patch_tx now aid svc i body))"
  "traced (run_tx (sessions_resume_tx now aid clk ttl svc i rb))"
  "traced (run_tx (delete_cascade_tx now aid svc i))"
  "traced (run_tx (metadata_replace now tag sid blob))"
  "traced (run_tx (metadata_shallow_merge now tag tag1 sid expected blob))"
  "traced (run_tx (uniform_bulk_insert rt now ids tags sid svc inps))"
  "traced (run_tx (uniform_patch rt now tag i expected pp))"
  "traced (run_tx (participants_add now pid sid ap))"
  "traced (run_tx (participants_add_many now pids sid aps))"
  "traced (run_tx (participants_update_consent now i uc))"
  "traced (run_tx (participants_update_license i ul))"
  "traced (run_tx (participants_mark_wiped now sid p))"
  "traced (run_tx (mute_ranges_create now mid sid p cm))"
  "traced (run_tx (mute_ranges_delete_one sid p mid))"
  "traced (run_tx (wipe_tx now aid svc sid p))"
  "traced (run_tx (token_wipe_tx now aid sid p))"
  "traced (run_tx (consent_tokens_create now tid sid pa p))"
  "traced (run_tx (users_upsert now p))"
  "traced (run_tx (display_names_upsert now p name src))"
  "traced (run_tx (patch_user_tx now aid svc p admin))"
  "traced (run_tx (grant_tx now aid p admin))"
  "traced (run_tx (service_sessions_insert now vid nm hsh))"
  "traced (run_tx (service_sessions_touch now hsh))"
  "traced (run_tx (service_sessions_reap_stale now win))"
  "traced (run_tx (audit_append aid now e))"
  by (rule traced_run_tx, erule tx_step.intros)+

lemma traced_audit [trace_intros]: "traced (audit ev t k e)"
  unfolding audit_def by (rule traced_run_tx, erule tx_step.intros)

lemma traced_row_delete [trace_intros]: "traced (on_db (uniform_delete rt i))"
  by (auto simp: along_def on_db_def split: prod.splits intro: tx_step.row_delete)

lemma traced_reaper: "traced (reaper_tick now win)"
  unfolding reaper_tick_def by (intro runs.along_best_effort traced_run_tx, erule tx_step.reap)

lemma traced_upload: "traced (chunks_upload_route st ev rfc svc sid raw hs body)"
  by (rule runs.along_upload) (auto simp: upload_new_eq_Inr
    intro!: r_into_rtranclp [where r = tx_step, OF tx_step.upload])

lemma traced_announce [trace_intros]: "traced (announce_rows rt ev svc sid guild k rows)"
  by (induction rows arbitrary: k) (auto intro!: trace_intros)

lemma traced_routes:
  "traced (sessions_create_route ev svc inp)" "traced (sessions_patch_route ev svc i body)"
  "traced (sessions_resume_route st ev svc i rb)" "traced (delete_cascade_route st ev svc i)"
  "traced (metadata_replace_route ev svc sid blob)"
  "traced (metadata_patch_route ev svc sid hs blob)" "traced (bulk_create_route rt ev svc sid req)"
  "traced (patch_row_route rt ev svc i hs pb)" "traced (delete_row_route rt ev svc i)"
  "traced (add_one_route ev svc sid ap)" "traced (add_batch_route ev svc sid aps)"
  "traced (patch_consent_route ev svc i uc)" "traced (patch_license_route ev svc i ul)"
  "traced (create_mute_route ev svc sid raw cm)" "traced (delete_mute_route ev svc sid raw rid)"
  "traced (wipe_participant_audio_route st ev svc sid raw)" "traced (create_token_route ev svc tq)"
  "traced (patch_consent_token_route ev tok pc)" "traced (delete_audio_token_route st ev tok)"
  "traced (upsert_user_route ev svc p)" "traced (post_display_route ev svc raw ud)"
  "traced (patch_user_route ev svc raw admin)" "traced (admin_grant_route st ev gq)"
  "traced (authenticate_route st ev hash token aq)" "traced (heartbeat_route ev hash h)"
  unfolding sessions_create_route_def sessions_patch_route_def sessions_resume_route_def
    delete_cascade_route_def metadata_replace_route_def metadata_patch_route_def
    bulk_create_route_def patch_row_route_def delete_row_route_def add_one_route_def
    add_batch_route_def patch_consent_route_def patch_license_route_def create_mute_route_def
    delete_mute_route_def wipe_participant_audio_route_def create_token_route_def
    patch_consent_token_route_def delete_audio_token_route_def upsert_user_route_def
    post_display_route_def patch_user_route_def admin_grant_route_def authenticate_route_def
    heartbeat_route_def Let_def
  by (auto intro!: trace_intros split: prod.splits)

end
