(* ===== verification/Flights.thy ===== *)
theory Flights
  imports Transactions
begin

section \<open>Uploads in flight\<close>

text \<open>
  The upload of \<^verbatim>\<open>src/routes/chunks.rs\<close> keeps its transaction open while the object store takes the
  object: it locks the session's row (\<^verbatim>\<open>FOR UPDATE\<close>), inserts the chunk, puts the object, sets the key
  and commits. \<open>tx_step\<close> takes that as one step. Here it is two, the insert and the commit, any number
  of uploads are between the two at a time, and every other transaction of the service can commit
  meanwhile, as far as the locks let it. The state is the rows that are inserted but not committed
  and the committed database. An upload that fails after its insert rolls back.

  One transaction is not kept out by the lock: a wipe of the speaker deletes the committed chunks of
  the stream and leaves the row in flight with its number. A run is \<open>calm\<close> if that does not happen.
\<close>

subsection \<open>Insert, commit and the locks\<close>

text \<open>
  What the lock on the row of a session keeps other transactions from: a change of the row, and new
  chunks of the session, because an upload takes the same lock.
\<close>

definition respects_lock :: "uuid \<Rightarrow> database \<Rightarrow> database \<Rightarrow> bool" where
  "respects_lock i d d' \<longleftrightarrow> find_session i d' = find_session i d \<and>
     (\<forall>c \<in> set (t_chunks d'). ch_session_id c = i \<longrightarrow> c \<in> set (t_chunks d))"

definition same_stream :: "chunk_row \<Rightarrow> database \<Rightarrow> database \<Rightarrow> bool" where
  "same_stream c d d' \<longleftrightarrow>
     stream_rows (ch_session_id c) (ch_pseudo_id c) d' = stream_rows (ch_session_id c) (ch_pseudo_id c) d"

inductive flight_step ::
    "bool \<Rightarrow> chunk_row list \<times> database \<Rightarrow> chunk_row list \<times> database \<Rightarrow> bool" for calm where
  insert: "find_session sid d = Some s \<Longrightarrow> sid \<notin> ch_session_id ` set rows \<Longrightarrow>
    chunks_insert now sid p '''' size_bytes cap dur cid d = Inr (row, d1) \<Longrightarrow>
    flight_step calm (rows, d) (row # rows, d)"
| commit: "row \<in> set rows \<Longrightarrow> find_session (ch_session_id row) d = Some s \<Longrightarrow>
    upload_finish_tx now aid svc (ch_session_id row) (ch_pseudo_id row) (ch_seq row)
      (chunk_s3_key (ses_s3_prefix s) (ch_pseudo_id row) (ch_seq row)) (ch_size_bytes row)
      (d\<lparr>t_chunks := t_chunks d @ [row]\<rparr>) = Inr (u, d') \<Longrightarrow>
    flight_step calm (rows, d) (remove1 row rows, d')"
| rollback: "flight_step calm (rows, d) (remove1 row rows, d)"
| other: "tx_step d d' \<Longrightarrow> \<forall>row \<in> set rows. respects_lock (ch_session_id row) d d' \<Longrightarrow>
    calm \<longrightarrow> (\<forall>row \<in> set rows. same_stream row d d') \<Longrightarrow> flight_step calm (rows, d) (rows, d')"

abbreviation flight_run where
  "flight_run calm \<equiv> (flight_step calm)\<^sup>*\<^sup>*"

text \<open>With no upload in flight every run of transactions is such a run.\<close>

lemma tx_run_flies: "tx_run d d' \<Longrightarrow> flight_run calm ([], d) ([], d')"
proof (induction rule: rtranclp_induct)
  case (step e d')
  then have "flight_step calm ([], e) ([], d')" by (intro flight_step.other) simp_all
  with step.IH show ?case by (rule rtranclp.rtrancl_into_rtrancl)
qed simp

subsection \<open>A row in flight\<close>

definition pending :: "database \<Rightarrow> chunk_row \<Rightarrow> bool" where
  "pending d row \<longleftrightarrow> find_session (ch_session_id row) d \<noteq> None \<and> in_int4 (ch_seq row) \<and>
     chunk_pid_ok (ch_pseudo_id row) \<and> 0 \<le> ch_seq row \<and>
     (\<forall>c \<in> set (t_chunks d). chunk_stream c = chunk_stream row \<longrightarrow>
        ch_seq c < ch_seq row \<and> ch_client_chunk_id c \<noteq> ch_client_chunk_id row)"

lemma pending_new:
  assumes "streams_rising (t_chunks d)" and s: "find_session sid d = Some s"
    and "chunks_insert now sid p '''' size_bytes cap dur cid d = Inr (row, d1)"
  shows "pending d row \<and> ch_session_id row = sid \<and> ch_seq row = next_seq sid p d \<and> ch_pseudo_id row = p"
  using assms next_seq_nonneg [OF assms(1)] next_seq_above [of _ sid p d]
  by (auto simp: pending_def chunks_insert_eq_Inr has_key_def chunk_client_key_def chunk_stream_def
      stream_rows_def in_stream_def)

lemma pending_kept:
  assumes "pending d row" and "respects_lock (ch_session_id row) d d'"
  shows "pending d' row"
  using assms by (auto simp: pending_def respects_lock_def chunk_stream_def)

lemma pending_fresh:
  assumes "pending d row"
  shows "\<not> has_key chunk_seq_key (ch_session_id row, ch_pseudo_id row, ch_seq row) (t_chunks d)"
    "\<not> has_key chunk_client_key (ch_session_id row, ch_pseudo_id row, ch_client_chunk_id row) (t_chunks d)"
  using assms by (fastforce simp: pending_def has_key_def chunk_seq_key_def chunk_client_key_def chunk_stream_def)+

text \<open>What a commit does, and that it keeps the invariants.\<close>

lemma commit_row:
  assumes p: "pending d row" and sid: "ch_session_id row = sid" and pid: "ch_pseudo_id row = p"
    and fin: "upload_finish_tx now aid svc sid p (ch_seq row) key z (d\<lparr>t_chunks := t_chunks d @ [row]\<rparr>) =
      Inr (u, d')"
  shows "\<not> has_key au_id aid (t_audit_log d) \<and>
    d' = d\<lparr>t_chunks := t_chunks d @ [row\<lparr>ch_s3_key := key\<rparr>],
      t_audit_log := t_audit_log d @
        [audit_row_of aid now (upload_entry svc sid p (ch_seq row) z)]\<rparr>"
  using fin set_key_of_new_row [OF pending_fresh(1) [OF p] refl refl refl]
  by (auto simp: upload_finish_tx_def tx_bind_eq_Inr chunks_set_s3_key_def audit_append_tx_eq
      audit_append_eq_Inr sid pid)

lemma commit_keeps:
  assumes inv: "rising.inv d" and p: "pending d row" and s: "find_session (ch_session_id row) d = Some s"
    and key: "key = chunk_s3_key (ses_s3_prefix s) (ch_pseudo_id row) (ch_seq row)"
    and fin: "upload_finish_tx now aid svc (ch_session_id row) (ch_pseudo_id row) (ch_seq row) key z
      (d\<lparr>t_chunks := t_chunks d @ [row]\<rparr>) = Inr (u, d')"
  shows "rising.inv d'"
proof -
  let ?row = "row\<lparr>ch_s3_key := key\<rparr>"
  let ?d = "d\<lparr>t_chunks := t_chunks d @ [?row]\<rparr>"
  have base: "base_inv d" and rise: "streams_rising (t_chunks d)"
    using inv by (simp_all add: rising.inv_def)
  have "chunks_wf (t_sessions d) (t_chunks d @ [?row])"
    using db_wfD(6) [OF base_invD(1) [OF base]] p pending_fresh [OF p] find_session_has_key [OF s]
    by (auto simp: chunks_wf_def has_key_iff_image chunk_seq_key_def chunk_client_key_def pending_def)
  then have "db_wf ?d" by (rule db_wf_leaf_tables(3) [OF base_invD(1) [OF base]])
  moreover have "chunk_keys_ok ?d"
    using base_invD(5) [OF base] s by (auto simp: chunk_keys_ok_def key)
  ultimately have "base_inv ?d" using base by (simp add: base_inv_def base_facts_def)
  moreover note d' = commit_row [OF p refl refl fin]
  ultimately have "base_inv d'" using base_inv_audit_log [of ?d] by simp
  moreover have "streams_rising (t_chunks ?d)"
    using streams_rising_snoc [OF rise, of ?row] p by (simp add: pending_def chunk_stream_def)
  ultimately show ?thesis using d' by (simp add: rising.inv_def)
qed

subsection \<open>What every state of a run satisfies\<close>

definition flight_inv :: "chunk_row list \<times> database \<Rightarrow> bool" where
  "flight_inv x \<longleftrightarrow> (case x of (rows, d) \<Rightarrow> rising.inv d \<and> distinct (map ch_session_id rows) \<and>
     (\<forall>row \<in> set rows. pending d row))"

definition gapless_so_far :: "chunk_row list \<times> database \<Rightarrow> bool" where
  "gapless_so_far x \<longleftrightarrow> (case x of (rows, d) \<Rightarrow> streams_gapless (t_chunks d) \<and>
     (\<forall>row \<in> set rows. ch_seq row = next_seq (ch_session_id row) (ch_pseudo_id row) d))"

lemma pending_others:
  assumes "flight_inv (rows, d)" and "row \<in> set rows" and "r \<in> set (remove1 row rows)"
    and "respects_lock (ch_session_id r) d d'" 
  shows "pending d' r \<and> ch_session_id r \<noteq> ch_session_id row"
proof -
  have "distinct (map ch_session_id rows)" "r \<in> set rows" "pending d r"
    using assms(1) set_remove1_subset [of row rows] assms(3) by (auto simp: flight_inv_def)
  moreover from this(1) have "distinct rows" by (simp add: distinct_map)
  with assms(3) have "r \<noteq> row" by simp
  ultimately show ?thesis
    using pending_kept assms(2,4) by (auto simp: distinct_map dest: inj_onD)
qed

lemma flight_step_inv:
  assumes "flight_step calm x y" and "flight_inv x"
  shows "flight_inv y"
  using assms
proof (induction rule: flight_step.induct)
  case (insert sid d s rows now p size_bytes cap dur cid row d1)
  then show ?case
    using pending_new [OF _ insert(1,3)] by (auto simp: flight_inv_def rising.inv_def)
next
  case (commit row rows d s now aid svc u d')
  let ?key = "chunk_s3_key (ses_s3_prefix s) (ch_pseudo_id row) (ch_seq row)"
  have p: "pending d row" and inv: "rising.inv d" and dist: "distinct (map ch_session_id rows)"
    using commit by (auto simp: flight_inv_def)
  have d': "t_sessions d' = t_sessions d" "t_chunks d' = t_chunks d @ [row\<lparr>ch_s3_key := ?key\<rparr>]"
    using commit_row [OF p refl refl commit(3)] by simp_all
  have "pending d' r" if r: "r \<in> set (remove1 row rows)" for r
  proof -
    have "pending d r" "ch_session_id r \<noteq> ch_session_id row"
      using pending_others [OF commit(4,1) r, of d] by (simp_all add: respects_lock_def)
    then show ?thesis by (auto simp: pending_def d' find_session_def chunk_stream_def)
  qed
  moreover have "rising.inv d'" by (rule commit_keeps [OF inv p commit(2) refl commit(3)])
  moreover have "distinct (map ch_session_id (remove1 row rows))"
    using dist by (auto simp: distinct_map inj_on_def dest: notin_set_remove1)
  ultimately show ?case by (simp add: flight_inv_def)
next
  case (rollback rows d row)
  then show ?case
    by (auto simp: flight_inv_def distinct_map inj_on_def dest: notin_set_remove1)
next
  case (other d d' rows)
  then show ?case
    using rising.tx_step_keeps pending_kept by (auto simp: flight_inv_def)
qed

lemma calm_step:
  assumes "flight_step True x y" and "flight_inv x" and "gapless_so_far x"
  shows "gapless_so_far y"
  using assms
proof (induction rule: flight_step.induct)
  case (insert sid d s rows now p size_bytes cap dur cid row d1)
  then show ?case
    using pending_new [OF _ insert(1,3)]
    by (auto simp: gapless_so_far_def flight_inv_def rising.inv_def)
next
  case (commit row rows d s now aid svc u d')
  let ?key = "chunk_s3_key (ses_s3_prefix s) (ch_pseudo_id row) (ch_seq row)"
  have p: "pending d row" using commit by (auto simp: flight_inv_def)
  have d': "t_chunks d' = t_chunks d @ [row\<lparr>ch_s3_key := ?key\<rparr>]"
    using commit_row [OF p refl refl commit(3)] by simp
  have "ch_seq r = next_seq (ch_session_id r) (ch_pseudo_id r) d'" if r: "r \<in> set (remove1 row rows)" for r
  proof -
    have "ch_session_id r \<noteq> ch_session_id row"
      using pending_others [OF commit(4,1) r, of d] by (simp add: respects_lock_def)
    then have "stream_rows (ch_session_id r) (ch_pseudo_id r) d' =
        stream_rows (ch_session_id r) (ch_pseudo_id r) d"
      by (auto simp: stream_rows_def d' in_stream_def)
    moreover have "r \<in> set rows" using r set_remove1_subset by fast
    ultimately show ?thesis using commit(5) by (simp add: gapless_so_far_def next_seq_def)
  qed
  moreover have "streams_gapless (t_chunks d')"
    using streams_gapless_next [of d "row\<lparr>ch_s3_key := ?key\<rparr>"] commit by (simp add: gapless_so_far_def d')
  ultimately show ?case by (simp add: gapless_so_far_def)
next
  case (rollback rows d row)
  then show ?case by (auto simp: gapless_so_far_def dest: notin_set_remove1)
next
  case (other d d' rows)
  then have "service_inv d"
    by (simp add: flight_inv_def gapless_so_far_def rising.inv_def service_inv_base)
  then have "streams_gapless (t_chunks d')"
    using plain.tx_step_keeps [OF other(1)] by (simp add: service_inv_base)
  with other show ?case by (auto simp: gapless_so_far_def next_seq_def same_stream_def)
qed

lemma flight_run_inv:
  assumes "flight_run calm x y" and "flight_inv x"
  shows "flight_inv y"
  using assms by (induction rule: rtranclp_induct) (auto dest: flight_step_inv)

lemma calm_run:
  assumes "flight_run True x y" and "flight_inv x" and "gapless_so_far x"
  shows "gapless_so_far y"
  using assms(1)
proof (induction rule: rtranclp_induct)
  case (step y z)
  from calm_step [OF step.hyps(2) flight_run_inv [OF step.hyps(1) assms(2)] step.IH] show ?case .
qed (rule assms(3))

text \<open>A started service has nothing in flight.\<close>

lemma flight_start:
  assumes "service_inv d"
  shows "flight_inv ([], d)" "gapless_so_far ([], d)"
  using assms gapless_rising
  by (simp_all add: flight_inv_def gapless_so_far_def rising.inv_def service_inv_base)

subsection \<open>The upload of the code as its two steps\<close>

text \<open>The handler's upload, run without interruption, is the insert and the commit of one flight.\<close>

lemma upload_flies:
  assumes up: "upload_new st ev svc sid p h body (w_db w) w = (Inr r, w')"
    and free: "sid \<notin> ch_session_id ` set rows"
  shows "\<exists>row. ch_session_id row = sid \<and> ch_pseudo_id row = p \<and> ch_seq row = ur_seq r \<and>
    flight_step calm (rows, w_db w) (row # rows, w_db w) \<and>
    flight_step calm (row # rows, w_db w) (rows, w_db w')"
proof -
  from up obtain s b where s: "find_session sid (w_db w) = Some s" and b: "body = Inr b"
    and ok: "in_int4 (next_seq sid p (w_db w))" "chunk_pid_ok p"
      "\<not> has_key chunk_seq_key (sid, p, next_seq sid p (w_db w)) (t_chunks (w_db w))"
      "\<not> has_key chunk_client_key (sid, p, hd_client_chunk_id h) (t_chunks (w_db w))"
      "\<not> has_key au_id (ev_audit_id ev 0) (t_audit_log (w_db w))"
    and r: "ur_seq r = next_seq sid p (w_db w)"
    and db: "w_db w' = upload_inserts ev svc sid p h b s (w_db w)"
    unfolding upload_new_eq_Inr by auto
  have sid: "ses_id s = sid" using s by (auto dest: find_session_SomeD)
  obtain row d1 where row: "chunks_insert (ev_db_now ev 0) sid p '''' (int (length b))
      (hd_capture_started_at h) (hd_duration_ms h) (hd_client_chunk_id h) (w_db w) = Inr (row, d1)"
    using ok find_session_has_key [OF s] by (auto simp: chunks_insert_eq_Inr)
  then have f: "ch_session_id row = sid" "ch_pseudo_id row = p" "ch_seq row = next_seq sid p (w_db w)"
      "ch_size_bytes row = int (length b)"
    and final: "row\<lparr>ch_s3_key := chunk_s3_key (ses_s3_prefix s) p (next_seq sid p (w_db w))\<rparr> =
      uploaded_row (ev_db_now ev 0) s p h b (w_db w)"
    by (auto simp: chunks_insert_eq_Inr uploaded_row_def Let_def sid)
  have "upload_finish_tx (ev_db_now ev 0) (ev_audit_id ev 0) svc (ch_session_id row) (ch_pseudo_id row)
      (ch_seq row) (chunk_s3_key (ses_s3_prefix s) (ch_pseudo_id row) (ch_seq row)) (ch_size_bytes row)
      ((w_db w)\<lparr>t_chunks := t_chunks (w_db w) @ [row]\<rparr>) = Inr ((), w_db w')"
    using set_key_of_new_row [OF ok(3) f(1-3)] ok(5) final
    by (simp add: upload_finish_tx_def tx_bind_eq_Inr chunks_set_s3_key_def audit_append_tx_eq
        audit_append_eq_Inr f db upload_inserts_def)
  then have "flight_step calm (row # rows, w_db w) (remove1 row (row # rows), w_db w')"
    using s f by (intro flight_step.commit) auto
  moreover have "flight_step calm (rows, w_db w) (row # rows, w_db w)"
    by (rule flight_step.insert [OF s free row])
  ultimately show ?thesis using f r by auto
qed

end
