(* ===== verification/Service.thy ===== *)
theory Service
  imports Transactions
begin

section \<open>The service: routing, authentication, reachable states\<close>

text \<open>
  \<^verbatim>\<open>build_router\<close> of \<^verbatim>\<open>src/routes/mod.rs\<close>: an \<open>endpoint\<close> is a route with the arguments its
  extractors produce. Matching paths, decoding JSON and query strings is the web framework's
  work. Two routes are not among them, as they do not answer JSON: the metrics (\<open>metrics_route\<close>) and
  the handshake of the socket (\<open>ws_upgrade\<close>). \<open>serve\<close> puts the middleware in front of the protected routes and turns errors into
  responses. \<open>service_step\<close> is one request, or one tick of the reaper.
\<close>

datatype (plugins only: code size) endpoint =
    SessionsCreate create_session
  | SessionsList list_filter
  | SessionsFetch uuid
  | SessionsPatch uuid patch_session
  | SessionsResume uuid resume_body
  | SessionsDelete uuid
  | SessionsSummary uuid
  | UsersUpsert pseudo_id
  | AdminUsersList
  | AdminUsersFetch string
  | UsersFetch string
  | UsersPatch string bool
  | DisplayNamesPost string upsert_display_name
  | DisplayNamesList string
  | ParticipantsAdd uuid add_participant
  | ParticipantsList uuid
  | ParticipantsAddBatch uuid "add_participant list"
  | ParticipantsFetch uuid
  | ParticipantsPatchConsent uuid update_consent
  | ParticipantsPatchLicense uuid update_license
  | ChunksUpload uuid string request_body
  | ChunksList uuid string
  | ChunksDownload uuid string int
  | MetadataReplace uuid json
  | MetadataPatch uuid json
  | MetadataFetch uuid
  | RowsBulkCreate resource_table uuid bulk_request
  | RowsList resource_table uuid list_query
  | RowsFetch resource_table uuid
  | RowsPatch resource_table uuid patch_input
  | RowsDelete resource_table uuid
  | MutesList uuid string
  | MutesCreate uuid string create_mute_range
  | MutesDelete uuid string uuid
  | AudioWipe uuid string
  | AuditQuery query_filter
  | ConsentTokensCreate create_token_request
  | Authenticate auth_request
  | Heartbeat
  | AdminGrant grant_request
  | ConsentFetch uuid
  | ConsentPatch uuid patch_consent_body
  | ConsentDeleteAudio uuid
  | HealthLive
  | HealthReady bool

text \<open>The router without the middleware.\<close>

fun unprotected :: "endpoint \<Rightarrow> bool" where
  "unprotected (Authenticate _) = True"
| "unprotected Heartbeat = True"
| "unprotected (AdminGrant _) = True"
| "unprotected (ConsentFetch _) = True"
| "unprotected (ConsentPatch _ _) = True"
| "unprotected (ConsentDeleteAudio _) = True"
| "unprotected HealthLive = True"
| "unprotected (HealthReady _) = True"
| "unprotected _ = False"

datatype (plugins only: code size) reply =
    RSessionCreated session
  | RSession session
  | RSessions "session list"
  | RSummary session_summary
  | RUser user
  | RUserName "user \<times> string option"
  | RAdminUsers "admin_user_list_item list"
  | RAdminUser admin_user_detail
  | RDisplayName display_name
  | RDisplayNames "display_name list"
  | RParticipant participant
  | RParticipants "participant list"
  | RUpload upload_response
  | RChunks "chunk_row list"
  | RAudio bytes
  | RTaggedJson "string \<times> json"
  | RBulk bulk_result
  | RRows "uniform_row list"
  | RTaggedRow "string \<times> uniform_row"
  | RMute mute_range
  | RMutes "mute_range list"
  | RAudit "audit_row list"
  | RConsent consent_token_with_context
  | RToken string
  | RJson json
  | RNoContent

fun reply_status :: "reply \<Rightarrow> nat" where
  "reply_status (RSessionCreated _) = 201"
| "reply_status RNoContent = 204"
| "reply_status _ = 200"

record request =
  rq_headers :: headers
  rq_endpoint :: endpoint

text \<open>What is fixed when the process starts, and the functions of third-party crates.\<close>

record 's deployment =
  dp_state :: "'s app_state"
  dp_hash :: token_hash
  dp_rfc3339 :: rfc3339

definition handle ::
    "'s deployment \<Rightarrow> env \<Rightarrow> string \<Rightarrow> string \<Rightarrow> headers \<Rightarrow> endpoint \<Rightarrow> ('s, reply) operation" where
  "handle dp ev tok svc h e =
     (case e of
        SessionsCreate c \<Rightarrow> h_map RSessionCreated (sessions_create_route ev svc c)
      | SessionsList f \<Rightarrow> h_map RSessions (sessions_list_route f)
      | SessionsFetch i \<Rightarrow> h_map RSession (sessions_fetch_route i)
      | SessionsPatch i b \<Rightarrow> h_map RSession (sessions_patch_route ev svc i b)
      | SessionsResume i b \<Rightarrow>
          h_map RSession (sessions_resume_route (dp_state dp) ev svc i b)
      | SessionsDelete i \<Rightarrow> h_map RJson (delete_cascade_route (dp_state dp) ev svc i)
      | SessionsSummary i \<Rightarrow> h_map RSummary (sessions_summary_route i)
      | UsersUpsert p \<Rightarrow> h_map RUser (upsert_user_route ev svc p)
      | AdminUsersList \<Rightarrow> h_map RAdminUsers list_admin_users_route
      | AdminUsersFetch p \<Rightarrow> h_map RAdminUser (fetch_admin_user_detail_route p)
      | UsersFetch p \<Rightarrow> h_map RUserName (fetch_user_route p)
      | UsersPatch p b \<Rightarrow> h_map RUser (patch_user_route ev svc p b)
      | DisplayNamesPost p b \<Rightarrow> h_map RDisplayName (post_display_route ev svc p b)
      | DisplayNamesList p \<Rightarrow> h_map RDisplayNames (list_display_route p)
      | ParticipantsAdd i a \<Rightarrow> h_map RParticipant (add_one_route ev svc i a)
      | ParticipantsList i \<Rightarrow> h_map RParticipants (participants_list_route i)
      | ParticipantsAddBatch i as \<Rightarrow> h_map RParticipants (add_batch_route ev svc i as)
      | ParticipantsFetch i \<Rightarrow> h_map RParticipant (participants_fetch_route i)
      | ParticipantsPatchConsent i c \<Rightarrow>
          h_map RParticipant (patch_consent_route ev svc i c)
      | ParticipantsPatchLicense i l \<Rightarrow>
          h_map RParticipant (patch_license_route ev svc i l)
      | ChunksUpload i p b \<Rightarrow>
          h_map RUpload (chunks_upload_route (dp_state dp) ev (dp_rfc3339 dp) svc i p h b)
      | ChunksList i p \<Rightarrow> h_map RChunks (chunks_list_route i p)
      | ChunksDownload i p n \<Rightarrow>
          h_map RAudio (chunks_download_route (dp_state dp) ev i p n)
      | MetadataReplace i b \<Rightarrow> h_map RTaggedJson (metadata_replace_route ev svc i b)
      | MetadataPatch i b \<Rightarrow> h_map RTaggedJson (metadata_patch_route ev svc i h b)
      | MetadataFetch i \<Rightarrow> h_map RTaggedJson (metadata_fetch_route i)
      | RowsBulkCreate rt i b \<Rightarrow> h_map RBulk (bulk_create_route rt ev svc i b)
      | RowsList rt i q \<Rightarrow> h_map RRows (list_rows_route rt i q)
      | RowsFetch rt i \<Rightarrow> h_map RTaggedRow (fetch_row_route rt i)
      | RowsPatch rt i b \<Rightarrow> h_map RTaggedRow (patch_row_route rt ev svc i h b)
      | RowsDelete rt i \<Rightarrow> h_map (\<lambda>_. RNoContent) (delete_row_route rt ev svc i)
      | MutesList i p \<Rightarrow> h_map RMutes (list_mutes_route i p)
      | MutesCreate i p c \<Rightarrow> h_map RMute (create_mute_route ev svc i p c)
      | MutesDelete i p r \<Rightarrow>
          h_map (\<lambda>_. RNoContent) (delete_mute_route ev svc i p r)
      | AudioWipe i p \<Rightarrow>
          h_map RJson (wipe_participant_audio_route (dp_state dp) ev svc i p)
      | AuditQuery f \<Rightarrow> h_map RAudit (audit_query_route f)
      | ConsentTokensCreate q \<Rightarrow> h_map RJson (create_token_route ev svc q)
      | Authenticate q \<Rightarrow>
          h_map RToken (authenticate_route (dp_state dp) ev (dp_hash dp) tok q)
      | Heartbeat \<Rightarrow> h_map RJson (heartbeat_route ev (dp_hash dp) h)
      | AdminGrant q \<Rightarrow> h_map RJson (admin_grant_route (dp_state dp) ev q)
      | ConsentFetch t \<Rightarrow> h_map RConsent (get_consent_route ev t)
      | ConsentPatch t b \<Rightarrow> h_map RParticipant (patch_consent_token_route ev t b)
      | ConsentDeleteAudio t \<Rightarrow>
          h_map (\<lambda>_. RNoContent) (delete_audio_token_route (dp_state dp) ev t)
      | HealthLive \<Rightarrow> h_return (RJson health_live)
      | HealthReady ok \<Rightarrow> h_map RJson (health_ready (dp_state dp) ok))"

definition respond :: "('s, reply) operation \<Rightarrow> 's world \<Rightarrow> (response + reply) \<times> 's world" where
  "respond m w =
     (case m w of
        (Inl e, w') \<Rightarrow> (Inl (app_error_response e), w')
      | (Inr x, w') \<Rightarrow> (Inr x, w'))"

definition serve ::
    "'s deployment \<Rightarrow> env \<Rightarrow> string \<Rightarrow> request \<Rightarrow> 's world \<Rightarrow> (response + reply) \<times> 's world" where
  "serve dp ev tok rq w =
     (if unprotected (rq_endpoint rq)
      then respond (handle dp ev tok '''' (rq_headers rq) (rq_endpoint rq)) w
      else case require_service_auth (ev_auth_now ev) (st_heartbeat_reap (dp_state dp))
                  (dp_hash dp) (rq_headers rq) (w_db w) of
          Inl r \<Rightarrow> (Inl r, w)
        | Inr svc \<Rightarrow> respond (handle dp ev tok svc (rq_headers rq) (rq_endpoint rq)) w)"

definition status_of :: "response + reply \<Rightarrow> nat" where
  "status_of r = (case r of Inl e \<Rightarrow> resp_status e | Inr x \<Rightarrow> reply_status x)"

inductive service_step :: "'s deployment \<Rightarrow> 's world \<Rightarrow> 's world \<Rightarrow> bool"
  for dp :: "'s deployment" where
  request: "serve dp ev tok rq w = (r, w') \<Longrightarrow> service_step dp w w'"
| reap: "reaper_tick now (st_heartbeat_reap (dp_state dp)) w = (r, w') \<Longrightarrow> service_step dp w w'"

inductive_cases service_stepE: "service_step dp w w'"

definition world_init :: "'s \<Rightarrow> 's world" where
  "world_init s = \<lparr>w_db = empty_db, w_store = s, w_events = [], w_metrics = metrics_new\<rparr>"

subsection \<open>Requests as runs of transactions\<close>

lemma traced_handle: "traced (handle dp ev tok svc h e)"
  by (cases e)
    (simp_all add: handle_def runs.along_map runs.along_basic traced_routes traced_reads
      traced_upload)

lemma traced_respond:
  "respond (handle dp ev tok svc h e) w = (r, w') \<Longrightarrow> tx_run (w_db w) (w_db w')"
  using traced_handle [of dp ev tok svc h e]
  by (auto simp: along_def respond_def split: sum.splits prod.splits)

lemma serve_run: "serve dp ev tok rq w = (r, w') \<Longrightarrow> tx_run (w_db w) (w_db w')"
  by (auto simp: serve_def dest: traced_respond split: if_splits sum.splits)

lemma service_step_run: "service_step dp w w' \<Longrightarrow> tx_run (w_db w) (w_db w')"
  by (elim service_stepE) (auto dest: serve_run alongD [OF traced_reaper])

subsection \<open>Invariants of every interleaving\<close>

text \<open>The third instance: the history of a session.\<close>

definition has_session_where :: "uuid \<Rightarrow> (session \<Rightarrow> bool) \<Rightarrow> session list \<Rightarrow> bool" where
  "has_session_where i P ss \<longleftrightarrow> (case List.find (\<lambda>s. ses_id s = i) ss of None \<Rightarrow> False | Some s \<Rightarrow> P s)"

lemma has_session_where_core:
  assumes P: "\<And>s s'. P s \<Longrightarrow> session_change s s' \<Longrightarrow> P s'"
  shows "core_invariant (\<lambda>ss au cs. has_session_where i P ss)"
proof
  fix ss :: "session list" and au :: "audit_row list" and a s j f
  show "has_session_where i P ss \<Longrightarrow> has_session_where i P ss" .
  show "has_session_where i P (ss @ [s])" if "has_session_where i P ss"
    using that by (simp add: has_session_where_def find_append split: option.splits)
  show "has_session_where i P (update_rows (\<lambda>s. ses_id s = j) f ss)"
    if Q: "has_session_where i P ss"
      and ch: "\<And>s. s \<in> set ss \<Longrightarrow> ses_id s = j \<Longrightarrow> session_change s (f s)"
      and idf: "\<And>s. ses_id (f s) = ses_id s"
  proof -
    from Q obtain s where s: "List.find (\<lambda>s. ses_id s = i) ss = Some s" "P s"
      by (auto simp: has_session_where_def split: option.splits)
    have "List.find (\<lambda>s. ses_id s = i) (update_rows (\<lambda>s. ses_id s = j) f ss) =
        Some (if ses_id s = j then f s else s)"
      using s(1) by (simp add: find_update_rows idf)
    moreover have "P (if ses_id s = j then f s else s)"
      using s P ch find_SomeD [OF s(1)] by auto
    ultimately show ?thesis by (simp add: has_session_where_def)
  qed
qed

text \<open>What a session that was \<open>s0\<close> may have become.\<close>

definition session_later :: "session \<Rightarrow> session \<Rightarrow> bool" where
  "session_later s0 s \<longleftrightarrow> ses_guild_id s = ses_guild_id s0 \<and> ses_s3_prefix s = ses_s3_prefix s0 \<and>
     ses_started_at s = ses_started_at s0 \<and> ses_created_at s = ses_created_at s0 \<and>
     session_edge\<^sup>*\<^sup>* (ses_status s0) (ses_status s)"

lemma session_later_change:
  assumes "session_later s0 s" and "session_change s s'"
  shows "session_later s0 s'"
proof -
  have "session_edge\<^sup>*\<^sup>* (ses_status s) (ses_status s')"
    using assms(2) session_edges.path_to_final
    by (auto simp: session_change_def session_edge_def intro: r_into_rtranclp)
  with assms show ?thesis by (auto simp: session_later_def session_change_def)
qed

interpretation history: core_invariant "\<lambda>ss au cs. has_session_where i (session_later s0) ss"
  by (rule has_session_where_core) (rule session_later_change)

lemma has_session_where_find:
  "has_session_where i P (t_sessions d) \<longleftrightarrow> (\<exists>s. find_session i d = Some s \<and> P s)"
  by (auto simp: has_session_where_def find_session_def split: option.splits)

lemma session_kept:
  assumes run: "tx_run d d'" and inv: "service_inv d" and s: "find_session i d = Some s"
  shows "\<exists>s'. find_session i d' = Some s' \<and> session_later s s'"
proof -
  have "history.inv i s d"
    using inv s by (auto simp: history.inv_def service_inv_base has_session_where_find session_later_def)
  from history.tx_run_keeps [OF run this] show ?thesis
    by (auto simp: history.inv_def has_session_where_find)
qed

end
