(* ===== verification/Router.thy ===== *)
theory Router
  imports Service
begin

section \<open>The routing tables\<close>

text \<open>
  The \<^verbatim>\<open>routes()\<close> functions of \<^verbatim>\<open>src/routes\<close> as tables of path patterns, each with the methods it
  serves, and \<^verbatim>\<open>build_router\<close> of \<^verbatim>\<open>src/routes/mod.rs\<close> as their merge in three groups. A handler is
  named by its module and function; a handler of the macro \<^verbatim>\<open>resource_router!\<close> also by its
  resource. Matching is what axum documents: a segment in braces captures one non-empty segment of
  the path, any other segment matches itself; a path without a route is not found, a method
  without a handler is not allowed. Percent-decoding is left out.
\<close>

datatype http_method = GET | POST | PATCH | DELETE

datatype route_handler = Fn string string | Row_Fn resource_table string

datatype route_group = Public | Protected | WebSocket

type_synonym route_table = "(string \<times> (http_method \<times> route_handler) list) list"

subsection \<open>The tables\<close>

definition auth_routes :: route_table where
  "auth_routes =
     [(''/internal/auth'', [(POST, Fn ''auth'' ''authenticate'')]),
      (''/internal/heartbeat'', [(POST, Fn ''auth'' ''heartbeat'')])]"

definition admin_routes :: route_table where
  "admin_routes = [(''/internal/admin/grant'', [(POST, Fn ''admin'' ''grant'')])]"

definition health_routes :: route_table where
  "health_routes =
     [(''/health/live'', [(GET, Fn ''health'' ''live'')]),
      (''/health/ready'', [(GET, Fn ''health'' ''ready'')])]"

definition metrics_routes :: route_table where
  "metrics_routes = [(''/metrics'', [(GET, Fn ''metrics'' ''metrics'')])]"

definition consent_public_routes :: route_table where
  "consent_public_routes =
     [(''/public/consent/{token}'',
         [(GET, Fn ''consent'' ''get_consent''), (PATCH, Fn ''consent'' ''patch_consent'')]),
      (''/public/consent/{token}/audio'', [(DELETE, Fn ''consent'' ''delete_audio'')])]"

definition sessions_routes :: route_table where
  "sessions_routes =
     [(''/internal/sessions'', [(POST, Fn ''sessions'' ''create''), (GET, Fn ''sessions'' ''list'')]),
      (''/internal/sessions/{id}'',
         [(GET, Fn ''sessions'' ''fetch''), (PATCH, Fn ''sessions'' ''patch'')]),
      (''/internal/sessions/{id}/resume'', [(POST, Fn ''sessions'' ''resume'')]),
      (''/internal/sessions/{id}/delete'', [(POST, Fn ''sessions'' ''delete_cascade'')]),
      (''/internal/sessions/{id}/summary'', [(GET, Fn ''sessions'' ''summary'')])]"

definition users_routes :: route_table where
  "users_routes =
     [(''/internal/users'', [(POST, Fn ''users'' ''upsert_user'')]),
      (''/internal/admin/users'', [(GET, Fn ''users'' ''list_admin_users'')]),
      (''/internal/admin/users/{pseudo_id}'', [(GET, Fn ''users'' ''fetch_admin_user_detail'')]),
      (''/internal/users/{pseudo_id}'',
         [(GET, Fn ''users'' ''fetch_user''), (PATCH, Fn ''users'' ''patch_user'')]),
      (''/internal/users/{pseudo_id}/display_names'',
         [(POST, Fn ''users'' ''post_display''), (GET, Fn ''users'' ''list_display'')])]"

definition participants_routes :: route_table where
  "participants_routes =
     [(''/internal/sessions/{id}/participants'',
         [(POST, Fn ''participants'' ''add_one''), (GET, Fn ''participants'' ''list'')]),
      (''/internal/sessions/{id}/participants/batch'', [(POST, Fn ''participants'' ''add_batch'')]),
      (''/internal/participants/{id}'', [(GET, Fn ''participants'' ''fetch'')]),
      (''/internal/participants/{id}/consent'', [(PATCH, Fn ''participants'' ''patch_consent'')]),
      (''/internal/participants/{id}/license'', [(PATCH, Fn ''participants'' ''patch_license'')])]"

definition chunks_routes :: route_table where
  "chunks_routes =
     [(''/internal/sessions/{id}/audio/{pseudo_id}/chunk'', [(POST, Fn ''chunks'' ''upload'')]),
      (''/internal/sessions/{id}/audio/{pseudo_id}/chunks'', [(GET, Fn ''chunks'' ''list'')]),
      (''/internal/sessions/{id}/audio/{pseudo_id}/chunk/{seq}'',
         [(GET, Fn ''chunks'' ''download'')])]"

definition metadata_routes :: route_table where
  "metadata_routes =
     [(''/internal/sessions/{id}/metadata'',
         [(POST, Fn ''metadata'' ''replace''), (PATCH, Fn ''metadata'' ''shallow_patch''),
          (GET, Fn ''metadata'' ''fetch'')])]"

text \<open>The macro \<^verbatim>\<open>resource_router!\<close> with its collection and its single name.\<close>

definition resource_router :: "resource_table \<Rightarrow> string \<Rightarrow> string \<Rightarrow> route_table" where
  "resource_router rt coll single =
     [(''/internal/sessions/{id}/'' @ coll,
         [(POST, Row_Fn rt ''bulk_create''), (GET, Row_Fn rt ''list_rows'')]),
      (''/internal/'' @ single @ ''/{id}'',
         [(GET, Row_Fn rt ''fetch_row''), (PATCH, Row_Fn rt ''patch_row''),
          (DELETE, Row_Fn rt ''delete_row'')])]"

definition uniform_crud_routes :: route_table where
  "uniform_crud_routes =
     resource_router SEGMENTS ''segments'' ''segments'' @
     resource_router BEATS ''beats'' ''beats'' @
     resource_router SCENES ''scenes'' ''scenes''"

definition mute_routes :: route_table where
  "mute_routes =
     [(''/internal/sessions/{id}/participants/{pid}/mute'',
         [(GET, Fn ''mute'' ''list_mutes''), (POST, Fn ''mute'' ''create_mute'')]),
      (''/internal/sessions/{id}/participants/{pid}/mute/{range_id}'',
         [(DELETE, Fn ''mute'' ''delete_mute'')]),
      (''/internal/sessions/{id}/participants/{pid}/audio'',
         [(DELETE, Fn ''mute'' ''wipe_participant_audio'')])]"

definition audit_routes :: route_table where
  "audit_routes = [(''/internal/audit'', [(GET, Fn ''audit'' ''query'')])]"

definition consent_internal_routes :: route_table where
  "consent_internal_routes =
     [(''/internal/consent-tokens'', [(POST, Fn ''consent'' ''create_token'')])]"

definition ws_routes :: route_table where
  "ws_routes = [(''/internal/ws'', [(GET, Fn ''ws'' ''upgrade'')])]"

definition in_group :: "route_group \<Rightarrow> route_table \<Rightarrow> (route_group \<times> string \<times> (http_method \<times> route_handler) list) list" where
  "in_group g t = map (\<lambda>(p, ms). (g, p, ms)) t"

definition build_router :: "(route_group \<times> string \<times> (http_method \<times> route_handler) list) list" where
  "build_router =
     in_group Public (auth_routes @ admin_routes @ health_routes @ metrics_routes @
       consent_public_routes) @
     in_group Protected (sessions_routes @ users_routes @ participants_routes @ chunks_routes @
       metadata_routes @ uniform_crud_routes @ mute_routes @ audit_routes @
       consent_internal_routes) @
     in_group WebSocket ws_routes"

subsection \<open>Matching\<close>

fun split_slash :: "string \<Rightarrow> string list" where
  "split_slash [] = [[]]"
| "split_slash (c # cs) =
     (if c = CHR ''/'' then [] # split_slash cs
      else case split_slash cs of [] \<Rightarrow> [[c]] | w # ws \<Rightarrow> (c # w) # ws)"

text \<open>The segments of a path, which starts with a slash.\<close>

fun path_segments :: "string \<Rightarrow> string list" where
  "path_segments [] = []"
| "path_segments (c # cs) = split_slash cs"

definition is_capture :: "string \<Rightarrow> bool" where
  "is_capture seg \<longleftrightarrow> take 1 seg = ''{''"

fun match_segments :: "string list \<Rightarrow> string list \<Rightarrow> string list option" where
  "match_segments [] [] = Some []"
| "match_segments (p # ps) (s # ss) =
     (if is_capture p
      then if s = [] then None else map_option ((#) s) (match_segments ps ss)
      else if p = s then match_segments ps ss else None)"
| "match_segments _ _ = None"

definition match_route :: "string \<Rightarrow> string \<Rightarrow> string list option" where
  "match_route pattern path = match_segments (path_segments pattern) (path_segments path)"

datatype dispatched =
    Found route_group route_handler "string list"
  | MethodNotAllowed
  | RouteNotFound

fun dispatch_in ::
    "(route_group \<times> string \<times> (http_method \<times> route_handler) list) list \<Rightarrow> http_method \<Rightarrow> string \<Rightarrow>
     dispatched" where
  "dispatch_in [] m path = RouteNotFound"
| "dispatch_in ((g, pattern, ms) # rs) m path =
     (case match_route pattern path of
        None \<Rightarrow> dispatch_in rs m path
      | Some captures \<Rightarrow>
          (case map_of ms m of
             None \<Rightarrow> MethodNotAllowed
           | Some h \<Rightarrow> Found g h captures))"

definition dispatch :: "http_method \<Rightarrow> string \<Rightarrow> dispatched" where
  "dispatch = dispatch_in build_router"

subsection \<open>Patterns that can match the same path\<close>

fun overlap :: "string list \<Rightarrow> string list \<Rightarrow> bool" where
  "overlap [] [] = True"
| "overlap (p # ps) (q # qs) \<longleftrightarrow> (is_capture p \<or> is_capture q \<or> p = q) \<and> overlap ps qs"
| "overlap _ _ = False"

lemma match_overlap:
  "match_segments p s = Some as \<Longrightarrow> match_segments q s = Some bs \<Longrightarrow> overlap p q"
proof (induction p arbitrary: q s as bs)
  case Nil
  then show ?case by (cases s; cases q) auto
next
  case (Cons p ps)
  then show ?case by (cases s; cases q) (auto split: if_splits)
qed

fun no_overlaps :: "string list list \<Rightarrow> bool" where
  "no_overlaps [] = True"
| "no_overlaps (p # ps) \<longleftrightarrow> list_all (\<lambda>q. \<not> overlap p q) ps \<and> no_overlaps ps"

lemma no_overlaps_nth:
  "no_overlaps ps \<Longrightarrow> i < j \<Longrightarrow> j < length ps \<Longrightarrow> \<not> overlap (ps ! i) (ps ! j)"
proof (induction ps arbitrary: i j)
  case (Cons p ps)
  then show ?case by (cases i; cases j) (auto simp: list_all_length)
qed simp

lemmas route_table_defs = build_router_def in_group_def auth_routes_def admin_routes_def
  health_routes_def metrics_routes_def consent_public_routes_def sessions_routes_def
  users_routes_def participants_routes_def chunks_routes_def metadata_routes_def
  uniform_crud_routes_def resource_router_def mute_routes_def audit_routes_def
  consent_internal_routes_def ws_routes_def

lemma build_router_no_overlaps:
  "no_overlaps (map (\<lambda>(g, p, ms). path_segments p) build_router)"
  by code_simp

lemma overlap_refl: "overlap p p"
  by (induction p) simp_all

lemma overlap_sym: "overlap p q \<Longrightarrow> overlap q p"
  by (induction p q rule: overlap.induct) auto

lemma dispatch_in_eq_Found:
  assumes "no_overlaps (map (\<lambda>(g, p, ms). path_segments p) rs)"
    and "\<forall>(g, p, ms) \<in> set rs. distinct (map fst ms)"
  shows "dispatch_in rs m path = Found g h caps \<longleftrightarrow>
    (\<exists>p ms. (g, p, ms) \<in> set rs \<and> match_route p path = Some caps \<and> (m, h) \<in> set ms)"
  using assms
proof (induction rs)
  case Nil
  then show ?case by simp
next
  case (Cons r rs)
  obtain g' p' ms' where r: "r = (g', p', ms')" by (cases r)
  have other: "match_route p path = None"
    if "match_route p' path = Some as" and "(g, p, ms) \<in> set rs" for as g p ms
  proof (cases "match_route p path")
    case (Some bs)
    then have "overlap (path_segments p') (path_segments p)"
      using that(1) match_overlap unfolding match_route_def by blast
    then show ?thesis using Cons.prems(1) that(2) by (auto simp: r list_all_iff)
  qed simp
  show ?case
  proof (cases "match_route p' path")
    case None
    have "no_overlaps (map (\<lambda>(g, p, ms). path_segments p) rs)" using Cons.prems(1) by (simp add: r)
    from Cons.IH [OF this] Cons.prems(2) None show ?thesis by (auto simp: r)
  next
    case (Some as)
    have "distinct (map fst ms')" using Cons.prems(2) by (simp add: r)
    then have "map_of ms' m = Some h \<longleftrightarrow> (m, h) \<in> set ms'" by simp
    with Some show ?thesis by (auto simp: r dest: other split: option.splits)
  qed
qed

lemma build_router_methods: "\<forall>(g, p, ms) \<in> set build_router. distinct (map fst ms)"
  by (simp add: route_table_defs)

text \<open>The merged routing tables are unambiguous: no path matches two patterns and no pattern lists
  a method twice, so merging can neither fail nor shadow a handler, and a request is dispatched to
  a handler exactly when some table lists it, in whatever order the tables are merged.\<close>

theorem dispatch_unambiguous:
  "dispatch m path = Found g h caps \<longleftrightarrow>
     (\<exists>p ms. (g, p, ms) \<in> set build_router \<and> match_route p path = Some caps \<and> (m, h) \<in> set ms)"
  using dispatch_in_eq_Found [OF build_router_no_overlaps build_router_methods]
  by (simp add: dispatch_def)

subsection \<open>Endpoints on the wire\<close>

fun coll_name :: "resource_table \<Rightarrow> string" where
  "coll_name SEGMENTS = ''segments''"
| "coll_name BEATS = ''beats''"
| "coll_name SCENES = ''scenes''"

primrec endpoint_route :: "endpoint \<Rightarrow> http_method \<times> string \<times> route_handler" where
  "endpoint_route (SessionsCreate _) = (POST, ''/internal/sessions'', Fn ''sessions'' ''create'')"
| "endpoint_route (SessionsList _) = (GET, ''/internal/sessions'', Fn ''sessions'' ''list'')"
| "endpoint_route (SessionsFetch _) = (GET, ''/internal/sessions/{id}'', Fn ''sessions'' ''fetch'')"
| "endpoint_route (SessionsPatch _ _) =
     (PATCH, ''/internal/sessions/{id}'', Fn ''sessions'' ''patch'')"
| "endpoint_route (SessionsResume _ _) =
     (POST, ''/internal/sessions/{id}/resume'', Fn ''sessions'' ''resume'')"
| "endpoint_route (SessionsDelete _) =
     (POST, ''/internal/sessions/{id}/delete'', Fn ''sessions'' ''delete_cascade'')"
| "endpoint_route (SessionsSummary _) =
     (GET, ''/internal/sessions/{id}/summary'', Fn ''sessions'' ''summary'')"
| "endpoint_route (UsersUpsert _) = (POST, ''/internal/users'', Fn ''users'' ''upsert_user'')"
| "endpoint_route AdminUsersList = (GET, ''/internal/admin/users'', Fn ''users'' ''list_admin_users'')"
| "endpoint_route (AdminUsersFetch _) =
     (GET, ''/internal/admin/users/{pseudo_id}'', Fn ''users'' ''fetch_admin_user_detail'')"
| "endpoint_route (UsersFetch _) =
     (GET, ''/internal/users/{pseudo_id}'', Fn ''users'' ''fetch_user'')"
| "endpoint_route (UsersPatch _ _) =
     (PATCH, ''/internal/users/{pseudo_id}'', Fn ''users'' ''patch_user'')"
| "endpoint_route (DisplayNamesPost _ _) =
     (POST, ''/internal/users/{pseudo_id}/display_names'', Fn ''users'' ''post_display'')"
| "endpoint_route (DisplayNamesList _) =
     (GET, ''/internal/users/{pseudo_id}/display_names'', Fn ''users'' ''list_display'')"
| "endpoint_route (ParticipantsAdd _ _) =
     (POST, ''/internal/sessions/{id}/participants'', Fn ''participants'' ''add_one'')"
| "endpoint_route (ParticipantsList _) =
     (GET, ''/internal/sessions/{id}/participants'', Fn ''participants'' ''list'')"
| "endpoint_route (ParticipantsAddBatch _ _) =
     (POST, ''/internal/sessions/{id}/participants/batch'', Fn ''participants'' ''add_batch'')"
| "endpoint_route (ParticipantsFetch _) =
     (GET, ''/internal/participants/{id}'', Fn ''participants'' ''fetch'')"
| "endpoint_route (ParticipantsPatchConsent _ _) =
     (PATCH, ''/internal/participants/{id}/consent'', Fn ''participants'' ''patch_consent'')"
| "endpoint_route (ParticipantsPatchLicense _ _) =
     (PATCH, ''/internal/participants/{id}/license'', Fn ''participants'' ''patch_license'')"
| "endpoint_route (ChunksUpload _ _ _) =
     (POST, ''/internal/sessions/{id}/audio/{pseudo_id}/chunk'', Fn ''chunks'' ''upload'')"
| "endpoint_route (ChunksList _ _) =
     (GET, ''/internal/sessions/{id}/audio/{pseudo_id}/chunks'', Fn ''chunks'' ''list'')"
| "endpoint_route (ChunksDownload _ _ _) =
     (GET, ''/internal/sessions/{id}/audio/{pseudo_id}/chunk/{seq}'', Fn ''chunks'' ''download'')"
| "endpoint_route (MetadataReplace _ _) =
     (POST, ''/internal/sessions/{id}/metadata'', Fn ''metadata'' ''replace'')"
| "endpoint_route (MetadataPatch _ _) =
     (PATCH, ''/internal/sessions/{id}/metadata'', Fn ''metadata'' ''shallow_patch'')"
| "endpoint_route (MetadataFetch _) =
     (GET, ''/internal/sessions/{id}/metadata'', Fn ''metadata'' ''fetch'')"
| "endpoint_route (RowsBulkCreate rt _ _) =
     (POST, ''/internal/sessions/{id}/'' @ coll_name rt, Row_Fn rt ''bulk_create'')"
| "endpoint_route (RowsList rt _ _) =
     (GET, ''/internal/sessions/{id}/'' @ coll_name rt, Row_Fn rt ''list_rows'')"
| "endpoint_route (RowsFetch rt _) =
     (GET, ''/internal/'' @ coll_name rt @ ''/{id}'', Row_Fn rt ''fetch_row'')"
| "endpoint_route (RowsPatch rt _ _) =
     (PATCH, ''/internal/'' @ coll_name rt @ ''/{id}'', Row_Fn rt ''patch_row'')"
| "endpoint_route (RowsDelete rt _) =
     (DELETE, ''/internal/'' @ coll_name rt @ ''/{id}'', Row_Fn rt ''delete_row'')"
| "endpoint_route (MutesList _ _) =
     (GET, ''/internal/sessions/{id}/participants/{pid}/mute'', Fn ''mute'' ''list_mutes'')"
| "endpoint_route (MutesCreate _ _ _) =
     (POST, ''/internal/sessions/{id}/participants/{pid}/mute'', Fn ''mute'' ''create_mute'')"
| "endpoint_route (MutesDelete _ _ _) =
     (DELETE, ''/internal/sessions/{id}/participants/{pid}/mute/{range_id}'',
        Fn ''mute'' ''delete_mute'')"
| "endpoint_route (AudioWipe _ _) =
     (DELETE, ''/internal/sessions/{id}/participants/{pid}/audio'',
        Fn ''mute'' ''wipe_participant_audio'')"
| "endpoint_route (AuditQuery _) = (GET, ''/internal/audit'', Fn ''audit'' ''query'')"
| "endpoint_route (ConsentTokensCreate _) =
     (POST, ''/internal/consent-tokens'', Fn ''consent'' ''create_token'')"
| "endpoint_route (Authenticate _) = (POST, ''/internal/auth'', Fn ''auth'' ''authenticate'')"
| "endpoint_route Heartbeat = (POST, ''/internal/heartbeat'', Fn ''auth'' ''heartbeat'')"
| "endpoint_route (AdminGrant _) = (POST, ''/internal/admin/grant'', Fn ''admin'' ''grant'')"
| "endpoint_route (ConsentFetch _) = (GET, ''/public/consent/{token}'', Fn ''consent'' ''get_consent'')"
| "endpoint_route (ConsentPatch _ _) =
     (PATCH, ''/public/consent/{token}'', Fn ''consent'' ''patch_consent'')"
| "endpoint_route (ConsentDeleteAudio _) =
     (DELETE, ''/public/consent/{token}/audio'', Fn ''consent'' ''delete_audio'')"
| "endpoint_route HealthLive = (GET, ''/health/live'', Fn ''health'' ''live'')"
| "endpoint_route (HealthReady _) = (GET, ''/health/ready'', Fn ''health'' ''ready'')"

text \<open>The captured arguments; \<open>u\<close> and \<open>n\<close> print a UUID and a sequence number.\<close>

primrec endpoint_args :: "(uuid \<Rightarrow> string) \<Rightarrow> (int \<Rightarrow> string) \<Rightarrow> endpoint \<Rightarrow> string list" where
  "endpoint_args u n (SessionsCreate _) = []"
| "endpoint_args u n (SessionsList _) = []"
| "endpoint_args u n (SessionsFetch i) = [u i]"
| "endpoint_args u n (SessionsPatch i _) = [u i]"
| "endpoint_args u n (SessionsResume i _) = [u i]"
| "endpoint_args u n (SessionsDelete i) = [u i]"
| "endpoint_args u n (SessionsSummary i) = [u i]"
| "endpoint_args u n (UsersUpsert _) = []"
| "endpoint_args u n AdminUsersList = []"
| "endpoint_args u n (AdminUsersFetch p) = [p]"
| "endpoint_args u n (UsersFetch p) = [p]"
| "endpoint_args u n (UsersPatch p _) = [p]"
| "endpoint_args u n (DisplayNamesPost p _) = [p]"
| "endpoint_args u n (DisplayNamesList p) = [p]"
| "endpoint_args u n (ParticipantsAdd i _) = [u i]"
| "endpoint_args u n (ParticipantsList i) = [u i]"
| "endpoint_args u n (ParticipantsAddBatch i _) = [u i]"
| "endpoint_args u n (ParticipantsFetch i) = [u i]"
| "endpoint_args u n (ParticipantsPatchConsent i _) = [u i]"
| "endpoint_args u n (ParticipantsPatchLicense i _) = [u i]"
| "endpoint_args u n (ChunksUpload i p _) = [u i, p]"
| "endpoint_args u n (ChunksList i p) = [u i, p]"
| "endpoint_args u n (ChunksDownload i p q) = [u i, p, n q]"
| "endpoint_args u n (MetadataReplace i _) = [u i]"
| "endpoint_args u n (MetadataPatch i _) = [u i]"
| "endpoint_args u n (MetadataFetch i) = [u i]"
| "endpoint_args u n (RowsBulkCreate _ i _) = [u i]"
| "endpoint_args u n (RowsList _ i _) = [u i]"
| "endpoint_args u n (RowsFetch _ i) = [u i]"
| "endpoint_args u n (RowsPatch _ i _) = [u i]"
| "endpoint_args u n (RowsDelete _ i) = [u i]"
| "endpoint_args u n (MutesList i p) = [u i, p]"
| "endpoint_args u n (MutesCreate i p _) = [u i, p]"
| "endpoint_args u n (MutesDelete i p r) = [u i, p, u r]"
| "endpoint_args u n (AudioWipe i p) = [u i, p]"
| "endpoint_args u n (AuditQuery _) = []"
| "endpoint_args u n (ConsentTokensCreate _) = []"
| "endpoint_args u n (Authenticate _) = []"
| "endpoint_args u n Heartbeat = []"
| "endpoint_args u n (AdminGrant _) = []"
| "endpoint_args u n (ConsentFetch t) = [u t]"
| "endpoint_args u n (ConsentPatch t _) = [u t]"
| "endpoint_args u n (ConsentDeleteAudio t) = [u t]"
| "endpoint_args u n HealthLive = []"
| "endpoint_args u n (HealthReady _) = []"

text \<open>The path a client writes: the pattern with its captures filled in.\<close>

fun fill_segments :: "string list \<Rightarrow> string list \<Rightarrow> string list" where
  "fill_segments [] as = []"
| "fill_segments (p # ps) [] = p # fill_segments ps []"
| "fill_segments (p # ps) (a # as) =
     (if is_capture p then a # fill_segments ps as else p # fill_segments ps (a # as))"

definition fill_route :: "string \<Rightarrow> string list \<Rightarrow> string" where
  "fill_route pattern as =
     concat (map (\<lambda>s. CHR ''/'' # s) (fill_segments (path_segments pattern) as))"

definition path_arg :: "string \<Rightarrow> bool" where
  "path_arg a \<longleftrightarrow> a \<noteq> [] \<and> CHR ''/'' \<notin> set a"

lemma split_slash_append:
  "CHR ''/'' \<notin> set a \<Longrightarrow> split_slash (a @ CHR ''/'' # rest) = a # split_slash rest"
  by (induction a) auto

lemma split_slash_last: "CHR ''/'' \<notin> set a \<Longrightarrow> split_slash a = [a]"
  by (induction a) auto

lemma path_segments_concat:
  assumes "\<forall>s \<in> set ss. CHR ''/'' \<notin> set s" and "ss \<noteq> []"
  shows "path_segments (concat (map (\<lambda>s. CHR ''/'' # s) ss)) = ss"
  using assms
proof (induction ss rule: induct_list012)
  case (2 s)
  then show ?case by (simp add: split_slash_last)
next
  case (3 s t ts)
  have "path_segments (concat (map ((#) CHR ''/'') (s # t # ts))) =
      split_slash (s @ CHR ''/'' # t @ concat (map ((#) CHR ''/'') ts))" by simp
  also have "\<dots> = s # split_slash (t @ concat (map ((#) CHR ''/'') ts))"
    using 3(3) by (intro split_slash_append) simp
  also have "split_slash (t @ concat (map ((#) CHR ''/'') ts)) = t # ts"
    using 3(2,3) by simp
  finally show ?case .
qed simp

lemma match_fill:
  assumes "length as = length (filter is_capture ps)" and "\<forall>a \<in> set as. a \<noteq> []"
  shows "match_segments ps (fill_segments ps as) = Some as"
  using assms
  by (induction ps as rule: fill_segments.induct) (auto split: if_splits)

lemma fill_segments_set: "set (fill_segments ps as) \<subseteq> set ps \<union> set as"
  by (induction ps as rule: fill_segments.induct) auto

lemma fill_segments_Nil [simp]: "fill_segments ps as = [] \<longleftrightarrow> ps = []"
  by (cases "(ps, as)" rule: fill_segments.cases) auto

lemma match_route_fill:
  assumes "length as = length (filter is_capture (path_segments pat))" and "path_segments pat \<noteq> []"
    and "\<forall>s \<in> set (path_segments pat). CHR ''/'' \<notin> set s" and "\<forall>a \<in> set as. path_arg a"
  shows "match_route pat (fill_route pat as) = Some as"
proof -
  have "\<forall>s \<in> set (fill_segments (path_segments pat) as). CHR ''/'' \<notin> set s"
    using assms(3,4) fill_segments_set [of "path_segments pat" as] by (auto simp: path_arg_def)
  then have "path_segments (fill_route pat as) = fill_segments (path_segments pat) as"
    unfolding fill_route_def using assms(2) by (intro path_segments_concat) simp_all
  with assms(1,4) show ?thesis by (simp add: match_route_def match_fill path_arg_def)
qed

lemma split_slash_free: "s \<in> set (split_slash cs) \<Longrightarrow> CHR ''/'' \<notin> set s"
  by (induction cs arbitrary: s) (auto split: if_splits list.splits)

lemma path_segments_free: "s \<in> set (path_segments p) \<Longrightarrow> CHR ''/'' \<notin> set s"
  by (cases p) (auto dest: split_slash_free)

text \<open>Every pattern's captures are as many as the arguments of the endpoints it serves.\<close>

lemma coll_name_segments:
  "path_segments (''/internal/sessions/{id}/'' @ coll_name rt) =
     [''internal'', ''sessions'', ''{id}'', coll_name rt]"
  "path_segments (''/internal/'' @ coll_name rt @ ''/{id}'') = [''internal'', coll_name rt, ''{id}'']"
  "\<not> is_capture (coll_name rt)"
  by (cases rt; simp add: is_capture_def)+

lemma is_capture_simps: "\<not> is_capture []" "is_capture (c # cs) \<longleftrightarrow> c = CHR ''{''"
  by (simp_all add: is_capture_def)

lemma endpoint_args_length:
  "length (endpoint_args u n e) = length (filter is_capture (path_segments (fst (snd (endpoint_route e)))))"
  by (cases e) (simp_all add: coll_name_segments is_capture_simps del: append.simps)

lemma endpoint_pattern_nonempty: "path_segments (fst (snd (endpoint_route e))) \<noteq> []"
  by (cases e) (simp_all add: coll_name_segments del: append.simps)

definition listed :: "route_group \<Rightarrow> http_method \<times> string \<times> route_handler \<Rightarrow> bool" where
  "listed g r \<longleftrightarrow>
     list_ex (\<lambda>(g', p, ms). g' = g \<and> p = fst (snd r) \<and> list_ex (\<lambda>mh. mh = (fst r, snd (snd r))) ms) build_router"

lemma listed_iff:
  "listed g (m, p, h) \<longleftrightarrow> (\<exists>ms. (g, p, ms) \<in> set build_router \<and> (m, h) \<in> set ms)"
  by (force simp: listed_def list_ex_iff)

lemma endpoint_listed: "listed (if unprotected e then Public else Protected) (endpoint_route e)"
proof -
  have rows: "listed Protected (POST, ''/internal/sessions/{id}/'' @ coll_name rt, Row_Fn rt ''bulk_create'')"
    "listed Protected (GET, ''/internal/sessions/{id}/'' @ coll_name rt, Row_Fn rt ''list_rows'')"
    "listed Protected (GET, ''/internal/'' @ coll_name rt @ ''/{id}'', Row_Fn rt ''fetch_row'')"
    "listed Protected (PATCH, ''/internal/'' @ coll_name rt @ ''/{id}'', Row_Fn rt ''patch_row'')"
    "listed Protected (DELETE, ''/internal/'' @ coll_name rt @ ''/{id}'', Row_Fn rt ''delete_row'')"
    for rt
    by (cases rt; simp only:; code_simp)+
  show ?thesis
    by (cases e; simp only: endpoint_route.simps unprotected.simps if_True if_False rows;
        code_simp?)
qed

text \<open>C38. Every endpoint is reachable, at the place its protection asks for: the request a client
  writes for it (method and path, with printed identifiers that are non-empty and have no slash)
  is dispatched to the endpoint's own handler with these identifiers, behind the authentication
  middleware exactly when the endpoint is one that requires it.\<close>

theorem endpoint_reached:
  assumes "endpoint_route e = (m, p, h)" and "\<forall>a \<in> set (endpoint_args u n e). path_arg a"
  shows "dispatch m (fill_route p (endpoint_args u n e)) =
    Found (if unprotected e then Public else Protected) h (endpoint_args u n e)"
proof -
  from endpoint_listed [of e] assms(1) obtain ms where
    "((if unprotected e then Public else Protected), p, ms) \<in> set build_router" "(m, h) \<in> set ms"
    by (auto simp: listed_iff)
  moreover have "match_route p (fill_route p (endpoint_args u n e)) = Some (endpoint_args u n e)"
    using endpoint_args_length [of u n e] endpoint_pattern_nonempty [of e] assms path_segments_free
    by (intro match_route_fill) auto
  ultimately show ?thesis
    using dispatch_in_eq_Found [OF build_router_no_overlaps build_router_methods]
    unfolding dispatch_def by blast
qed

theorem endpoint_reached_witness:
  "dispatch POST (fill_route ''/internal/sessions/{id}/resume'' [''s1'']) =
     Found Protected (Fn ''sessions'' ''resume'') [''s1'']"
  using endpoint_reached [of "SessionsResume 1 \<lparr>rb_resumed_by_service_name = ''bot'', rb_reason = None\<rparr>" POST
      "''/internal/sessions/{id}/resume''" "Fn ''sessions'' ''resume''" "\<lambda>_. ''s1''" "\<lambda>_. []"]
  by (simp add: path_arg_def)

end
