(* ===== verification/Startup.thy ===== *)
theory Startup
  imports Service Flights Config Tokens
begin

section \<open>Start-up\<close>

text \<open>
  \<^verbatim>\<open>main\<close> of \<^verbatim>\<open>src/main.rs\<close> with \<^verbatim>\<open>connect\<close> and \<^verbatim>\<open>run_migrations\<close> of \<^verbatim>\<open>src/db/pool.rs\<close> and
  \<^verbatim>\<open>new\<close> of \<^verbatim>\<open>src/storage/s3.rs\<close>: the settings become a deployment, or the process ends with
  the first failure. What other programs and crates do (Postgres, the migrator, the builders of
  the \<^verbatim>\<open>s3\<close> crate, the socket) is a \<open>platform\<close>. Log lines and the type of the listener's service are
  left out; the reaper that \<^verbatim>\<open>main\<close> spawns is the step \<open>reap\<close> of \<open>service_step\<close>.
\<close>

record s3_settings =
  s3_region :: string
  s3_endpoint :: string
  s3_access_key :: string
  s3_secret_key :: string
  s3_bucket_name :: string
  s3_path_style :: bool

record 'b platform =
  pf_connect :: "string \<Rightarrow> nat \<Rightarrow> string + database"
  pf_migrate :: "database \<Rightarrow> string + database"
  pf_credentials :: "string \<Rightarrow> string \<Rightarrow> bool"
  pf_bucket :: "s3_settings \<Rightarrow> ('b bucket \<times> 'b) option"
  pf_bind :: "string \<Rightarrow> string option"
  pf_hex :: hex_encoder
  pf_sha256 :: "bytes \<Rightarrow> bytes"
  pf_rfc3339 :: rfc3339

datatype startup_error =
    ConfigFailed config_error
  | DatabaseFailed string
  | BindFailed string
  | Panicked string

definition map_err :: "('e \<Rightarrow> 'f) \<Rightarrow> 'e + 'a \<Rightarrow> 'f + 'a" where
  "map_err f r = (case r of Inl e \<Rightarrow> Inl (f e) | Inr x \<Rightarrow> Inr x)"

definition connect :: "'b platform \<Rightarrow> string \<Rightarrow> startup_error + database" where
  "connect pf database_url = map_err DatabaseFailed (pf_connect pf database_url 10)"

definition run_migrations :: "'b platform \<Rightarrow> database \<Rightarrow> startup_error + database" where
  "run_migrations pf pool =
     map_err (\<lambda>e. DatabaseFailed (''migration failed: '' @ e)) (pf_migrate pf pool)"

text \<open>Both builders are unwrapped with \<^verbatim>\<open>expect\<close>.\<close>

definition s3_new :: "'b platform \<Rightarrow> config \<Rightarrow> startup_error + ('b object_store \<times> 'b)" where
  "s3_new pf cfg =
     (if \<not> pf_credentials pf (cf_s3_access_key cfg) (cf_s3_secret_key cfg)
      then Inl (Panicked ''valid s3 credentials'')
      else case pf_bucket pf
          \<lparr>s3_region = ''auto'', s3_endpoint = cf_s3_endpoint cfg,
           s3_access_key = cf_s3_access_key cfg, s3_secret_key = cf_s3_secret_key cfg,
           s3_bucket_name = cf_s3_bucket cfg, s3_path_style = True\<rparr> of
        None \<Rightarrow> Inl (Panicked ''bucket builder'')
      | Some (bucket, s) \<Rightarrow> Inr (s3_store bucket, s))"

text \<open>
  The bus: the events sent so far, and how many of them the channel keeps for a slow receiver. One that
  falls further behind is told so by the channel, which is the input \<open>Lagged\<close> of the socket's loop.
\<close>

record event_bus =
  bus_capacity :: nat
  bus_sent :: "event list"

definition create_bus :: event_bus where
  "create_bus = \<lparr>bus_capacity = 4096, bus_sent = []\<rparr>"

definition startup :: "'b platform \<Rightarrow> environment \<Rightarrow> startup_error + ('b deployment \<times> 'b world)" where
  "startup pf vars =
     bind_res (map_err ConfigFailed (config_from_env vars)) (\<lambda>config.
     bind_res (connect pf (cf_database_url config)) (\<lambda>pool.
     bind_res (run_migrations pf pool) (\<lambda>db.
     bind_res (s3_new pf config) (\<lambda>(store, objects).
       let state = \<lparr>st_store = store, st_shared_secret = cf_shared_secret config,
             st_resume_ttl = word_of_int (cf_resume_ttl config),
             st_ws_queue_depth = word_of_int (cf_ws_queue_depth config),
             st_heartbeat_reap = word_of_int (cf_heartbeat_reap config)\<rparr>
       in case pf_bind pf (cf_bind_addr config) of
            Some e \<Rightarrow> Inl (BindFailed e)
          | None \<Rightarrow> Inr (\<lparr>dp_state = state, dp_hash = hash_token (pf_hex pf) (pf_sha256 pf),
              dp_rfc3339 = pf_rfc3339 pf\<rparr>,
              \<lparr>w_db = db, w_store = objects, w_events = bus_sent create_bus,
               w_metrics = metrics_new\<rparr>)))))"

lemma map_err_eq [simp]:
  "map_err f r = Inr x \<longleftrightarrow> r = Inr x"
  "map_err f r = Inl e \<longleftrightarrow> (\<exists>e'. r = Inl e' \<and> e = f e')"
  by (auto simp: map_err_def split: sum.split)

lemma startup_eq_Inr:
  "startup pf vars = Inr (dp, w) \<longleftrightarrow>
     (\<exists>cfg d d' store objects. config_from_env vars = Inr cfg \<and>
        pf_connect pf (cf_database_url cfg) 10 = Inr d \<and> pf_migrate pf d = Inr d' \<and>
        s3_new pf cfg = Inr (store, objects) \<and> pf_bind pf (cf_bind_addr cfg) = None \<and>
        dp = \<lparr>dp_state = \<lparr>st_store = store, st_shared_secret = cf_shared_secret cfg,
               st_resume_ttl = word_of_int (cf_resume_ttl cfg),
               st_ws_queue_depth = word_of_int (cf_ws_queue_depth cfg),
               st_heartbeat_reap = word_of_int (cf_heartbeat_reap cfg)\<rparr>,
             dp_hash = hash_token (pf_hex pf) (pf_sha256 pf), dp_rfc3339 = pf_rfc3339 pf\<rparr> \<and>
        w = \<lparr>w_db = d', w_store = objects, w_events = bus_sent create_bus,
              w_metrics = metrics_new\<rparr>)"
  by (fastforce simp: startup_def bind_res_eq_Inr connect_def run_migrations_def Let_def
      split: option.splits)

lemma started_inv:
  assumes start: "startup pf vars = Inr (dp, w0)"
    and fresh: "\<And>d d'. pf_migrate pf d = Inr d' \<Longrightarrow> d' = empty_db"
  shows "service_inv (w_db w0)"
proof -
  from start fresh have "w_db w0 = empty_db" by (auto simp: startup_eq_Inr)
  then show ?thesis by (simp add: service_inv_empty)
qed

text \<open>C1. Whatever requests are served, in every order in which their transactions and the reaper's
  commit, and with any number of uploads between their insert and their commit at a time: when the
  process starts on a new database (the migrations leave empty tables), every state the committed
  database reaches satisfies the keys and checks of the schema; the time stamps of every session agree
  with its status, the numbers of every stream of chunks are not negative and grow, every chunk
  carries the object key of its number, every stored row decodes, and mute ranges are ordered. The
  numbers of every stream are \<open>0, 1, 2, \<dots>\<close> without a gap in every run that is calm: no wipe of a
  speaker (nor any other transaction) deletes committed chunks of a stream while an upload to the
  same stream is in flight. (Without that they need not be, see \<open>Wipe_Races\<close>.) Transactions other
  than uploads are single steps.\<close>

theorem service_invariant:
  assumes start: "startup pf vars = Inr (dp, w0)"
    and fresh: "\<And>d d'. pf_migrate pf d = Inr d' \<Longrightarrow> d' = empty_db"
    and run: "flight_run calm ([], w_db w0) (rows, d)"
  shows "db_wf d \<and> (\<forall>s \<in> set (t_sessions d). stamps_ok s) \<and> streams_rising (t_chunks d) \<and>
    chunk_keys_ok d \<and> all_rows_decode d \<and> mutes_ordered (t_mute_ranges d) \<and>
    (calm \<longrightarrow> streams_gapless (t_chunks d))"
proof -
  note first = flight_start [OF started_inv [OF start fresh]]
  have "rising.inv d"
    using flight_run_inv [OF run first(1)] by (simp add: flight_inv_def)
  moreover have "streams_gapless (t_chunks d)" if calm
    using calm_run [OF _ first, of "(rows, d)"] run that by (simp add: gapless_so_far_def)
  ultimately show ?thesis by (simp add: rising.inv_def base_inv_def base_facts_def)
qed

subsection \<open>A sample platform\<close>

definition sample_platform :: "mem_objects platform" where
  "sample_platform = \<lparr>pf_connect = (\<lambda>url n. Inr empty_db), pf_migrate = (\<lambda>d. Inr empty_db),
     pf_credentials = (\<lambda>a s. a \<noteq> [] \<and> s \<noteq> []), pf_bucket = (\<lambda>st. Some (sample_bucket, Map.empty)),
     pf_bind = (\<lambda>addr. None), pf_hex = sample_hex, pf_sha256 = rev, pf_rfc3339 = (\<lambda>s. Inl s)\<rparr>"

definition sample_vars :: environment where
  "sample_vars = [''DATABASE_URL'' \<mapsto> ''postgres'', ''S3_ENDPOINT'' \<mapsto> ''https'',
     ''S3_ACCESS_KEY'' \<mapsto> ''key'', ''S3_SECRET_KEY'' \<mapsto> ''key'', ''S3_BUCKET'' \<mapsto> ''audio'',
     ''SHARED_SECRET'' \<mapsto> ''secret'']"

lemma sample_startup:
  "\<exists>dp w. startup sample_platform sample_vars = Inr (dp, w) \<and> w_db w = empty_db \<and>
     st_shared_secret (dp_state dp) = ''secret''"
  by (simp add: startup_def sample_platform_def sample_vars_def config_from_env_def
      parse_u64_var_def Let_def bind_res_def require_var_def connect_def run_migrations_def
      s3_new_def map_err_def ok_or_def)

definition sample_login :: request where
  "sample_login = \<lparr>rq_headers = Map.empty,
     rq_endpoint = Authenticate \<lparr>ar_shared_secret = ''secret'', ar_service_name = ''bot''\<rparr>\<rparr>"

theorem service_invariant_witness:
  "\<exists>dp w0 w1. startup sample_platform sample_vars = Inr (dp, w0) \<and> service_step dp w0 w1 \<and>
     t_service_sessions (w_db w1) \<noteq> [] \<and> db_wf (w_db w1) \<and> streams_gapless (t_chunks (w_db w1))"
proof -
  obtain dp w0 where start: "startup sample_platform sample_vars = Inr (dp, w0)"
    and w0: "w_db w0 = empty_db" and secret: "st_shared_secret (dp_state dp) = ''secret''"
    using sample_startup by blast
  obtain r w1 where served: "serve dp sample_env ''tok'' sample_login w0 = (r, w1)" by fastforce
  then have "t_service_sessions (w_db w1) \<noteq> []"
    using w0 secret
    by (auto simp: serve_def sample_login_def handle_def respond_def h_map_def h_bind_def
        authenticate_route_def run_tx_def service_sessions_insert_def empty_db_def Let_def
        split: if_splits)
  moreover have step: "service_step dp w0 w1" using served by (rule service_step.request)
  have "db_wf (w_db w1) \<and> streams_gapless (t_chunks (w_db w1))"
    using service_invariant [OF start _ tx_run_flies [OF service_step_run [OF step]], of True]
    by (simp add: sample_platform_def)
  ultimately show ?thesis using start step by blast
qed

text \<open>The settings arrive unchanged: a process that starts answers under exactly the shared secret,
  resume window, reap window and queue depth of its environment (or their defaults of a day, 90
  seconds and 64), none of them truncated by its 64 bits, with no event sent yet.\<close>

theorem startup_settings:
  assumes start: "startup pf vars = Inr (dp, w)"
  shows "vars ''SHARED_SECRET'' = Some (st_shared_secret (dp_state dp)) \<and>
    parse_u64_var vars ''RESUME_TTL_SECS'' 86400 = Inr (uint (st_resume_ttl (dp_state dp))) \<and>
    parse_u64_var vars ''HEARTBEAT_REAP_SECS'' 90 = Inr (uint (st_heartbeat_reap (dp_state dp))) \<and>
    parse_u64_var vars ''WS_QUEUE_DEPTH'' 64 = Inr (uint (st_ws_queue_depth (dp_state dp))) \<and>
    w_events w = []"
proof -
  from start obtain cfg where cfg: "config_from_env vars = Inr cfg"
    and st: "st_shared_secret (dp_state dp) = cf_shared_secret cfg"
      "st_resume_ttl (dp_state dp) = word_of_int (cf_resume_ttl cfg)"
      "st_heartbeat_reap (dp_state dp) = word_of_int (cf_heartbeat_reap cfg)"
      "st_ws_queue_depth (dp_state dp) = word_of_int (cf_ws_queue_depth cfg)"
    and ev: "w_events w = []"
    by (auto simp: startup_eq_Inr create_bus_def)
  have uint: "uint (word_of_int n :: u64) = n" if "0 \<le> n \<and> n < 2 ^ 64" for n
    using that by (simp add: uint_word_of_int)
  from cfg have "vars ''SHARED_SECRET'' = Some (cf_shared_secret cfg)"
    "parse_u64_var vars ''RESUME_TTL_SECS'' 86400 = Inr (cf_resume_ttl cfg)"
    "parse_u64_var vars ''HEARTBEAT_REAP_SECS'' 90 = Inr (cf_heartbeat_reap cfg)"
    "parse_u64_var vars ''WS_QUEUE_DEPTH'' 64 = Inr (cf_ws_queue_depth cfg)"
    by (auto simp: config_from_env_def bind_res_eq_Inr Let_def)
  with config_from_env_ranges [OF cfg] show ?thesis by (simp add: st ev uint)
qed

theorem startup_settings_witness:
  "\<exists>dp w. startup sample_platform sample_vars = Inr (dp, w) \<and>
     uint (st_resume_ttl (dp_state dp)) = 86400"
proof -
  obtain dp w where start: "startup sample_platform sample_vars = Inr (dp, w)"
    using sample_startup by blast
  from startup_settings [OF start] have "uint (st_resume_ttl (dp_state dp)) = 86400"
    by (simp add: parse_u64_var_def sample_vars_def)
  with start show ?thesis by blast
qed

end
