(* ===== verification/Session_Properties.thy ===== *)
theory Session_Properties
  imports Routes_Sessions
begin

section \<open>Properties of the session routes\<close>

text \<open>
  The life of a session through \<^verbatim>\<open>src/routes/sessions.rs\<close>: which patches are accepted, when an
  abandoned session may be resumed, and what the cascading delete removes.
\<close>

lemma find_session_updated:
  assumes "find_session i d = Some s" and "keeps_session f"
  shows "find_session j (d\<lparr>t_sessions := update_rows (\<lambda>s. ses_id s = i) f (t_sessions d),
      t_audit_log := au\<rparr>) = (if j = i then Some (f s) else find_session j d)"
proof -
  have "find_session j (d\<lparr>t_sessions := update_rows (\<lambda>s. ses_id s = i) f (t_sessions d),
      t_audit_log := au\<rparr>) =
    find_session j (d\<lparr>t_sessions := update_rows (\<lambda>s. ses_id s = i) f (t_sessions d)\<rparr>)"
    by (simp add: find_session_def)
  also have "\<dots> = map_option (\<lambda>s. if ses_id s = i then f s else s) (find_session j d)"
    by (rule find_session_keeps [OF assms(2)])
  also have "\<dots> = (if j = i then Some (f s) else find_session j d)"
    using assms(1) by (cases "find_session j d") (auto dest: find_session_SomeD)
  finally show ?thesis .
qed

text \<open>A \<^verbatim>\<open>PATCH\<close> that proposes a transition outside the table answers with the conflict error that
  names both states, and leaves the whole world as it was: no row, no audit entry, no event, no
  counter.\<close>

theorem patch_illegal_transition:
  assumes "find_session i (w_db w) = Some s"
    and "pb_status body = Some st"
    and "\<not> can_transition (ses_status s) st"
  shows "sessions_patch_route ev svc i body w =
    (Inl (IllegalTransition (status_as_str (ses_status s)) (status_as_str st)), w)"
  using assms
  by (simp add: sessions_patch_route_def h_bind_def run_tx_def sessions_patch_tx_def tx_bind_def
      sessions_get_in_tx_def patch_status_def)

theorem patch_illegal_transition_witness:
  "sessions_patch_route sample_env ''bot'' 1
     \<lparr>pb_status = Some Recording, pb_ended_at = None, pb_participant_count = None\<rparr>
     (sample_world (sample_db Uploaded)) =
   (Inl (IllegalTransition ''uploaded'' ''recording''), sample_world (sample_db Uploaded))"
  using patch_illegal_transition [of 1 "sample_world (sample_db Uploaded)" "sample_session Uploaded"
      "\<lparr>pb_status = Some Recording, pb_ended_at = None, pb_participant_count = None\<rparr>"]
  by (simp add: sample_defs find_session_def)

text \<open>C33. A \<^verbatim>\<open>PATCH\<close> that succeeds proposed nothing or a transition of the table; it stores exactly
  the patched row under the session's id and returns it, touches no other session, writes one
  audit entry, and announces the change of status if and only if the status really changed
  (re-asserting \<^verbatim>\<open>transcribing\<close> is silent).\<close>

theorem patch_success:
  assumes "sessions_patch_route ev svc i body w = (Inr u, w')"
  shows "\<exists>s. find_session i (w_db w) = Some s \<and> u = patched_session (ev_db_now ev 0) body s \<and>
    (\<forall>j. find_session j (w_db w') = (if j = i then Some u else find_session j (w_db w))) \<and>
    length (t_audit_log (w_db w')) = Suc (length (t_audit_log (w_db w))) \<and>
    (case pb_status body of
       None \<Rightarrow> ses_status u = ses_status s \<and> w_events w' = w_events w
     | Some st \<Rightarrow> can_transition (ses_status s) st \<and> ses_status u = st \<and>
         w_events w' = w_events w @
           (if ses_status s = st then []
            else [state_changed ev i (ses_guild_id s) (ses_status s) st]))"
proof -
  from assms obtain ch d' where tx: "sessions_patch_tx (ev_db_now ev 0) (ev_audit_id ev 0) svc i body
      (w_db w) = Inr ((u, ch), d')"
    and rest: "h_bind (case ch of None \<Rightarrow> h_return ()
        | Some (a, b) \<Rightarrow> h_bind (emit (state_changed ev i (ses_guild_id u) a b)) (\<lambda>_.
            on_metrics (inc_counter (''chronicle_session_state_'' @ status_as_str b @ ''_total'') 1)))
      (\<lambda>_. h_return u) (w\<lparr>w_db := d'\<rparr>) = (Inr u, w')"
    by (auto simp: sessions_patch_route_def h_bind_eq_Inr run_tx_eq_Inr)
  from rest have db: "w_db w' = d'"
    and evs: "w_events w' = w_events w @ (case ch of None \<Rightarrow> []
      | Some (a, b) \<Rightarrow> [state_changed ev i (ses_guild_id u) a b])"
    by (cases ch; auto simp: h_bind_def)+
  from tx obtain s where s: "find_session i (w_db w) = Some s"
    and u: "u = patched_session (ev_db_now ev 0) body s"
    and ch: "case pb_status body of None \<Rightarrow> ch = None
        | Some st \<Rightarrow> can_transition (ses_status s) st \<and>
            ch = (if ses_status s \<noteq> st then Some (ses_status s, st) else None)"
    unfolding sessions_patch_tx_eq_Inr by blast
  from tx obtain a where d': "d' = (w_db w)\<lparr>t_sessions := update_rows (\<lambda>s. ses_id s = i)
      (patched_session (ev_db_now ev 0) body) (t_sessions (w_db w)),
      t_audit_log := t_audit_log (w_db w) @ [a]\<rparr>"
    unfolding sessions_patch_tx_eq_Inr by blast
  have "find_session j (w_db w') = (if j = i then Some u else find_session j (w_db w))" for j
    using find_session_updated [OF s keeps_patched] by (simp add: db d' u)
  moreover have "ses_guild_id u = ses_guild_id s"
    by (simp add: u patched_session_def split: option.split)
  moreover have "ses_status u = (case pb_status body of None \<Rightarrow> ses_status s | Some st \<Rightarrow> st)"
    by (simp add: u patched_session_def split: option.split)
  ultimately show ?thesis using s u ch evs by (auto simp: db d' split: option.splits if_splits)
qed

theorem patch_success_witness:
  "\<exists>u w'. sessions_patch_route sample_env ''bot'' 1
     \<lparr>pb_status = Some Uploaded, pb_ended_at = Some (Some 99), pb_participant_count = None\<rparr>
     (sample_world (sample_db Recording)) = (Inr u, w') \<and>
     find_session 1 (w_db w') = Some u \<and> ses_status u = Uploaded"
proof -
  let ?b = "\<lparr>pb_status = Some Uploaded, pb_ended_at = Some (Some 99), pb_participant_count = None\<rparr>"
  have "\<exists>u w'. sessions_patch_route sample_env ''bot'' 1 ?b (sample_world (sample_db Recording)) =
      (Inr u, w')"
    by (simp add: sample_defs sessions_patch_route_def h_bind_def run_tx_def sessions_patch_tx_def
        tx_bind_def sessions_get_in_tx_def patch_status_def find_session_def
        sessions_update_status_def sessions_update_def sessions_patch_fields_def set_status_def
        set_fields_def audit_append_tx_def)
  then obtain u w' where run: "sessions_patch_route sample_env ''bot'' 1 ?b
      (sample_world (sample_db Recording)) = (Inr u, w')" by blast
  from patch_success [OF this] run show ?thesis by auto
qed

lemma num_seconds_le:
  assumes "0 \<le> n"
  shows "max 0 (num_seconds t) \<le> n \<longleftrightarrow> t < (n + 1) * 1000000"
proof (cases "t < 0")
  case True
  have "0 \<le> (- t) div 1000000" using True by (intro pos_imp_zdiv_nonneg_iff [THEN iffD2]) auto
  with True assms show ?thesis by (auto simp: num_seconds_def)
next
  case False
  define q r where "q = t div 1000000" and "r = t mod 1000000"
  have t: "t = 1000000 * q + r" "0 \<le> r" "r < 1000000" by (simp_all add: q_def r_def)
  have "q \<le> n \<longleftrightarrow> t < (n + 1) * 1000000"
  proof
    assume "q \<le> n"
    then have "1000000 * q \<le> 1000000 * n" by simp
    with t show "t < (n + 1) * 1000000" by (simp add: distrib_right)
  next
    assume "t < (n + 1) * 1000000"
    with t have "1000000 * q < 1000000 * (n + 1)" by (simp add: distrib_right)
    then show "q \<le> n" by simp
  qed
  then have "t div 1000000 \<le> n \<longleftrightarrow> t < (n + 1) * 1000000" by (simp only: q_def)
  with False assms show ?thesis
    by (auto simp: num_seconds_def max_def pos_imp_zdiv_nonneg_iff)
qed

text \<open>C35. In a state the service can be in, a resume succeeds exactly on an abandoned session
  whose age, counted from the time it was abandoned and cut to whole seconds, is within the
  limit: up to one second less a microsecond past it. The fallback to the start time is never
  used: the abandonment time is always there. (A clock behind the stored time counts as age 0.)\<close>

theorem resume_window:
  assumes inv: "service_inv (w_db w)" and s: "find_session i (w_db w) = Some s"
    and aid: "\<not> has_key au_id (ev_audit_id ev 0) (t_audit_log (w_db w))"
  shows "(\<exists>u w'. sessions_resume_route st ev svc i body w = (Inr u, w')) \<longleftrightarrow>
    ses_status s = Abandoned \<and>
    (\<exists>t. ses_abandoned_at s = Some t \<and>
       ev_utc_now ev 1 - t < (uint (st_resume_ttl st) + 1) * 1000000)"
proof -
  have stamp: "ses_status s = Abandoned \<Longrightarrow> \<exists>t. ses_abandoned_at s = Some t"
    using service_invD(2) [OF inv] s by (auto simp: stamps_ok_def dest: find_session_SomeD)
  have age: "resume_age s (ev_utc_now ev 1) \<le> uint (st_resume_ttl st) \<longleftrightarrow>
      ev_utc_now ev 1 - t < (uint (st_resume_ttl st) + 1) * 1000000"
    if "ses_abandoned_at s = Some t" for t
    using that num_seconds_le [of "uint (st_resume_ttl st)"] by (simp add: resume_age_def)
  have "(\<exists>u w'. sessions_resume_route st ev svc i body w = (Inr u, w')) \<longleftrightarrow>
      (\<exists>u d'. sessions_resume_tx (ev_db_now ev 0) (ev_audit_id ev 0) (ev_utc_now ev 1)
         (st_resume_ttl st) svc i body (w_db w) = Inr (u, d'))"
    by (auto simp: sessions_resume_route_def h_bind_eq_Inr run_tx_eq_Inr)
  also have "\<dots> \<longleftrightarrow> ses_status s = Abandoned \<and>
      resume_age s (ev_utc_now ev 1) \<le> uint (st_resume_ttl st)"
    unfolding sessions_resume_tx_eq_Inr using s aid by auto
  finally show ?thesis using stamp age by auto
qed

lemma sample_inv: "service_inv (sample_db st)"
proof -
  have stamps: "stamps_ok (sample_session st)"
    by (cases st) (simp_all add: stamps_ok_def sample_session_def)
  have "uniform_table rt (sample_db st) = []" for rt
    by (cases rt) (simp_all add: sample_db_def empty_db_def)
  then show ?thesis
    using stamps
    by (simp add: service_inv_def facts_inv_def base_facts_def streams_gapless_def all_rows_decode_def
        rows_decode_def chunk_keys_ok_def db_wf_def table_wf_defs mutes_ordered_def)
      (simp add: sample_db_def empty_db_def)
qed

theorem resume_window_witness:
  "\<exists>u w'. sessions_resume_route sample_state sample_env ''bot'' 1
     \<lparr>rb_resumed_by_service_name = ''bot'', rb_reason = None\<rparr>
     (sample_world (sample_db Abandoned)) = (Inr u, w')"
proof -
  let ?w = "sample_world (sample_db Abandoned)"
  have inv: "service_inv (w_db ?w)" by (simp add: sample_world_def sample_inv)
  have s: "find_session 1 (w_db ?w) = Some (sample_session Abandoned)"
    by (simp add: sample_defs find_session_def)
  have aid: "\<not> has_key au_id (ev_audit_id sample_env 0) (t_audit_log (w_db ?w))"
    by (simp add: sample_defs)
  have "ses_status (sample_session Abandoned) = Abandoned \<and>
      (\<exists>t. ses_abandoned_at (sample_session Abandoned) = Some t \<and>
         ev_utc_now sample_env 1 - t < (uint (st_resume_ttl sample_state) + 1) * 1000000)"
    by (simp add: sample_session_def sample_env_def sample_state_def)
  then show ?thesis using resume_window [OF inv s aid] by blast
qed

text \<open>C15. After a delete that succeeds, nothing of the session is left but its tombstone: its row has the
  status deleted, every count of its summary is zero and it has no metadata. Every table is otherwise
  as before, row by row: exactly the participants, chunks, segments, beats, scenes, mute ranges and
  metadata of the session are gone, sessions other than this one are the same, so are users, display
  names and service tokens, and the log has one entry more. A consent token goes with its participant:
  those of the session's participants are gone, also one that names another session, and all others
  are left. Objects outside the session's own keys are never touched, whether the sweep works or
  fails half-way; if it reports success, all the session's objects are gone.\<close>

theorem delete_cascade_effect:
  assumes store: "object_store (st_store st) contents"
    and run: "delete_cascade_route st ev svc i w = (Inr j, w')"
    and d: "d = w_db w" and d': "d' = w_db w'"
  shows "(\<exists>s. find_session i d = Some s \<and>
      find_session i d' = Some (set_status (ev_db_now ev 0) Deleted s) \<and>
      w_events w' = w_events w @ [state_changed ev i (ses_guild_id s) (ses_status s) Deleted]) \<and>
    sessions_summary i d' =
      \<lparr>sm_session_id = i, sm_chunk_count = 0, sm_participant_count = 0, sm_duration_ms = 0,
       sm_segment_count = 0, sm_beat_count = 0, sm_scene_count = 0, sm_mute_range_count = 0,
       sm_no_llm_training = False, sm_no_public_release = False\<rparr> \<and>
    \<not> metadata_is_present i d' \<and>
    t_sessions d' = map (\<lambda>s. if ses_id s = i then set_status (ev_db_now ev 0) Deleted s else s)
      (t_sessions d) \<and>
    t_participants d' = filter (\<lambda>p. par_session_id p \<noteq> i) (t_participants d) \<and>
    t_chunks d' = filter (\<lambda>c. ch_session_id c \<noteq> i) (t_chunks d) \<and>
    t_segments d' = filter (\<lambda>r. pg_session_id r \<noteq> i) (t_segments d) \<and>
    t_beats d' = filter (\<lambda>r. pg_session_id r \<noteq> i) (t_beats d) \<and>
    t_scenes d' = filter (\<lambda>r. pg_session_id r \<noteq> i) (t_scenes d) \<and>
    t_mute_ranges d' = filter (\<lambda>m. mu_session_id m \<noteq> i) (t_mute_ranges d) \<and>
    t_metadata d' = filter (\<lambda>m. md_session_id m \<noteq> i) (t_metadata d) \<and>
    t_consent_tokens d' = filter (\<lambda>t. \<not> (\<exists>p \<in> set (t_participants d).
      par_session_id p = i \<and> par_id p = ct_participant_id t)) (t_consent_tokens d) \<and>
    t_users d' = t_users d \<and> t_display_names d' = t_display_names d \<and>
    t_service_sessions d' = t_service_sessions d \<and>
    t_audit_log d' = t_audit_log d @ [audit_row_of (ev_audit_id ev 0) (ev_db_now ev 0)
      (session_entry svc i ''deleted'' (jobject [(''chunk_count'', JInt (int (length (session_keys i d))))]))] \<and>
    (\<forall>key. key \<notin> set (session_keys i d) \<longrightarrow> contents (w_store w') key = contents (w_store w) key) \<and>
    (\<forall>n s'. os_delete_many (st_store st) (session_keys i d) (w_store w) = (Inr n, s') \<longrightarrow>
       (\<forall>key \<in> set (session_keys i d). contents (w_store w') key = None))"
proof -
  let ?keys = "session_keys i d"
  from run obtain s u where tx: "delete_cascade_tx (ev_db_now ev 0) (ev_audit_id ev 0) svc i d =
      Inr ((s, ?keys, u), d')"
    and st': "w_store w' = (if ?keys = [] then w_store w
        else snd (os_delete_many (st_store st) ?keys (w_store w)))"
    and evs: "w_events w' = w_events w @ [state_changed ev i (ses_guild_id s) (ses_status s) Deleted]"
    unfolding d d' by (auto simp: delete_cascade_route_def h_bind_eq_Inr run_tx_eq_Inr sweep_keys_eq
        delete_cascade_tx_eq_Inr)
  note rows = tx [unfolded delete_cascade_tx_eq_Inr]
  then have s: "find_session i d = Some s" by simp
  have found: "find_session i d' = Some (set_status (ev_db_now ev 0) Deleted s)"
    using rows find_session_updated [OF s, of "set_status (ev_db_now ev 0) Deleted" i]
    by (simp add: wiped_session_def find_session_def)
  have gone: "sessions_summary i d' = \<lparr>sm_session_id = i, sm_chunk_count = 0,
      sm_participant_count = 0, sm_duration_ms = 0, sm_segment_count = 0, sm_beat_count = 0,
      sm_scene_count = 0, sm_mute_range_count = 0, sm_no_llm_training = False,
      sm_no_public_release = False\<rparr>"
    using rows by (auto simp: wiped_session_def sessions_summary_def filter_delete_rows list_ex_iff)
  have meta: "\<not> metadata_is_present i d'"
    using rows by (auto simp: metadata_is_present_def metadata_get_opt_def find_metadata_None
        wiped_session_def has_key_def)
  have tables: "t_participants d' = filter (\<lambda>p. par_session_id p \<noteq> i) (t_participants d)"
    "t_chunks d' = filter (\<lambda>c. ch_session_id c \<noteq> i) (t_chunks d)"
    "t_segments d' = filter (\<lambda>r. pg_session_id r \<noteq> i) (t_segments d)"
    "t_beats d' = filter (\<lambda>r. pg_session_id r \<noteq> i) (t_beats d)"
    "t_scenes d' = filter (\<lambda>r. pg_session_id r \<noteq> i) (t_scenes d)"
    "t_mute_ranges d' = filter (\<lambda>m. mu_session_id m \<noteq> i) (t_mute_ranges d)"
    "t_metadata d' = filter (\<lambda>m. md_session_id m \<noteq> i) (t_metadata d)"
    "t_users d' = t_users d" "t_display_names d' = t_display_names d"
    "t_service_sessions d' = t_service_sessions d"
    using rows by (simp_all add: wiped_session_def delete_rows_def)
  have sessions: "t_sessions d' = map (\<lambda>s. if ses_id s = i then set_status (ev_db_now ev 0) Deleted s else s)
      (t_sessions d)"
    using rows by (simp add: wiped_session_def update_rows_def)
  have tokens: "t_consent_tokens d' = filter (\<lambda>t. \<not> (\<exists>p \<in> set (t_participants d).
      par_session_id p = i \<and> par_id p = ct_participant_id t)) (t_consent_tokens d)"
    using rows by (simp add: wiped_session_def delete_rows_def image_iff Bex_def) metis
  have log: "t_audit_log d' = t_audit_log d @ [audit_row_of (ev_audit_id ev 0) (ev_db_now ev 0)
      (session_entry svc i ''deleted'' (jobject [(''chunk_count'', JInt (int (length ?keys)))]))]"
    using rows by simp
  have frame: "contents (w_store w') key = contents (w_store w) key" if "key \<notin> set ?keys" for key
    using that object_store.delete_frame [OF store, of ?keys "w_store w"]
    by (cases "os_delete_many (st_store st) ?keys (w_store w)") (simp add: st')
  have swept: "contents (w_store w') key = None"
    if "os_delete_many (st_store st) ?keys (w_store w) = (Inr n, s')" "key \<in> set ?keys" for n s' key
    using that object_store.delete_contents [OF store that(1)] by (auto simp: st')
  show ?thesis
    by (intro conjI tables sessions tokens log gone meta)
      (use s found evs frame swept in blast)+
qed

lemma delete_cascade_sample:
  "\<exists>j w'. delete_cascade_route sample_state sample_env ''bot'' 1 (sample_world (sample_db Uploaded)) =
     (Inr j, w')"
proof -
  have "delete_cascade_tx 100 2000 ''bot'' 1 (sample_db Uploaded) = Inr ((sample_session Uploaded, [],
      set_status 100 Deleted (sample_session Uploaded)), (wiped_session 100 1 (sample_db Uploaded))\<lparr>
      t_audit_log := [audit_row_of 2000 100 (session_entry ''bot'' 1 ''deleted''
          (jobject [(''chunk_count'', JInt 0)]))]\<rparr>)"
    unfolding delete_cascade_tx_eq_Inr by (simp add: sample_defs find_session_def session_keys_def)
  then show ?thesis
    by (simp add: delete_cascade_route_def h_bind_def run_tx_def sample_world_def sample_env_def
        sweep_keys_eq)
qed

theorem delete_cascade_effect_witness:
  "\<exists>j w'. delete_cascade_route sample_state sample_env ''bot'' 1 (sample_world (sample_db Uploaded)) =
     (Inr j, w') \<and> (\<exists>s. find_session 1 (w_db w') = Some s \<and> ses_status s = Deleted)"
proof -
  obtain j w' where run: "delete_cascade_route sample_state sample_env ''bot'' 1
      (sample_world (sample_db Uploaded)) = (Inr j, w')"
    using delete_cascade_sample by blast
  have store: "object_store (st_store sample_state) (\<lambda>m. m)"
    using mem.object_store_axioms by (simp add: sample_state_def)
  from delete_cascade_effect [OF store run refl refl] run show ?thesis by auto
qed

end
