(* ===== verification/Chunk_Properties.thy ===== *)
theory Chunk_Properties
  imports Routes_Chunks Session_Properties Chunk_Key
begin

section \<open>Properties of uploads and downloads\<close>

text \<open>
  What a recorder that talks to \<^verbatim>\<open>src/routes/chunks.rs\<close> may rely on: an upload is stored once,
  retried without effect, read back as sent, and undone when it fails.
\<close>

definition sample_headers :: headers where
  "sample_headers = [''x-capture-started-at'' \<mapsto> ''t0'', ''x-duration-ms'' \<mapsto> ''2000'',
     ''x-client-chunk-id'' \<mapsto> ''c1'']"

definition sample_rfc3339 :: rfc3339 where
  "sample_rfc3339 s = (if s = ''t0'' then Inr 12 else Inl ''input contains invalid characters'')"

definition sample_upload :: "(mem_objects, upload_response) operation" where
  "sample_upload = chunks_upload_route sample_state sample_env sample_rfc3339 ''bot'' 1
     (pid_str sample_pid) sample_headers (Inr [1, 2, 3])"

lemma sample_headers_parse:
  "parse_chunk_headers sample_rfc3339 sample_headers =
     Inr \<lparr>hd_capture_started_at = 12, hd_duration_ms = 2000, hd_client_chunk_id = ''c1''\<rparr>"
  by code_simp

lemma sample_upload_ok:
  "\<exists>r w'. sample_upload (sample_world (sample_db Recording)) = (Inr r, w') \<and> ur_seq r = 0"
proof -
  have "\<exists>r w'. upload_new sample_state sample_env ''bot'' 1 sample_pid
      \<lparr>hd_capture_started_at = 12, hd_duration_ms = 2000, hd_client_chunk_id = ''c1''\<rparr>
      (Inr [1, 2, 3]) (w_db (sample_world (sample_db Recording)))
      (sample_world (sample_db Recording)) = (Inr r, w') \<and> ur_seq r = 0"
    unfolding upload_new_eq_Inr
    by (simp add: sample_defs find_session_def next_seq_def max_seq_def stream_rows_def
        in_int4_def chunk_pid_ok_def MAX_CHUNK_BYTES_def mem_store_def mem_put_def)
  then show ?thesis
    using sample_headers_parse
    by (auto simp: sample_upload_def chunks_upload_route_Inr sample_defs
        chunks_lookup_by_client_id_def)
qed

lemma sample_store: "object_store (st_store sample_state) (\<lambda>m. m)"
  using mem.object_store_axioms by (simp add: sample_state_def)

text \<open>The sample upload into any world that has the session and no chunks yet.\<close>

lemma sample_upload_into:
  assumes s: "find_session 1 (w_db w) = Some (sample_session stat)" and none: "t_chunks (w_db w) = []"
    and aid: "\<not> has_key au_id (ev_audit_id ev 0) (t_audit_log (w_db w))"
    and st: "st_store st = mem_store"
    and h: "parse_chunk_headers rfc hs =
      Inr \<lparr>hd_capture_started_at = 12, hd_duration_ms = 2000, hd_client_chunk_id = ''c1''\<rparr>"
  shows "\<exists>r w'. chunks_upload_route st ev rfc svc 1 (pid_str sample_pid) hs (Inr [1, 2, 3]) w = (Inr r, w')"
proof -
  have "\<exists>r w'. upload_new st ev svc 1 sample_pid
      \<lparr>hd_capture_started_at = 12, hd_duration_ms = 2000, hd_client_chunk_id = ''c1''\<rparr>
      (Inr [1, 2, 3]) (w_db w) w = (Inr r, w')"
    unfolding upload_new_eq_Inr using s none aid
    by (simp add: next_seq_def max_seq_def stream_rows_def in_int4_def chunk_pid_ok_def
        MAX_CHUNK_BYTES_def st mem_store_def mem_put_def sample_pid_def)
  then show ?thesis
    using h none by (auto simp: chunks_upload_route_Inr chunks_lookup_by_client_id_def sample_pid_def)
qed

text \<open>C8. Uploads are idempotent per client chunk id: once an upload has succeeded, any later
  upload that names the same session, speaker and client chunk id, whatever its body and its other
  headers and whatever chunks were added in between, answers with the same sequence number and
  object key, marked as deduplicated, and changes nothing at all.\<close>

theorem upload_retry_idempotent:
  assumes first: "chunks_upload_route st ev rfc svc sid raw headers body w = (Inr r, w')"
    and h: "parse_chunk_headers rfc headers = Inr h"
    and h2: "parse_chunk_headers rfc headers2 = Inr h2"
    and same: "hd_client_chunk_id h2 = hd_client_chunk_id h"
    and later: "t_chunks (w_db w2) = t_chunks (w_db w') @ cs"
  shows "chunks_upload_route st2 ev2 rfc svc2 sid raw headers2 body2 w2 =
    (Inr (r\<lparr>ur_deduplicated := True\<rparr>), w2)"
proof -
  obtain c where c: "chunks_lookup_by_client_id sid (PseudoId raw) (hd_client_chunk_id h) (w_db w') =
      Some c" "ch_seq c = ur_seq r" "ch_s3_key c = ur_s3_key r"
    using upload_then_lookup [OF first h] by blast
  then have "chunks_lookup_by_client_id sid (PseudoId raw) (hd_client_chunk_id h2) (w_db w2) = Some c"
    by (simp add: chunks_lookup_by_client_id_def find_append later same)
  moreover have "raw = MIXED_PSEUDO_ID \<or> is_valid_pseudo_id raw"
    using first by (auto simp: chunks_upload_route_Inr)
  ultimately show ?thesis using h2 c by (simp add: chunks_upload_route_Inr)
qed

theorem upload_retry_idempotent_witness:
  "\<exists>r w'. sample_upload (sample_world (sample_db Recording)) = (Inr r, w') \<and>
     chunks_upload_route sample_state sample_env2 sample_rfc3339 ''bot'' 1 (pid_str sample_pid)
       sample_headers (Inr [9]) w' = (Inr (r\<lparr>ur_deduplicated := True\<rparr>), w')"
proof -
  obtain r w' where run: "sample_upload (sample_world (sample_db Recording)) = (Inr r, w')"
    using sample_upload_ok by blast
  have "t_chunks (w_db w') = t_chunks (w_db w') @ []" by simp
  from upload_retry_idempotent [OF run [unfolded sample_upload_def] sample_headers_parse
      sample_headers_parse refl this] run show ?thesis by blast
qed



text \<open>A failed upload can have left an object behind, but under a key that no row has.\<close>

lemma upload_new_failed:
  assumes store: "object_store (st_store st) contents"
    and up: "upload_new st ev svc i p h body (w_db w) w = (Inl e, w')"
    and k: "contents (w_store w') k \<noteq> contents (w_store w) k"
  shows "chunk_pid_ok p \<and> (\<exists>s. find_session i (w_db w) = Some s \<and>
    k = chunk_s3_key (ses_s3_prefix s) p (next_seq i p (w_db w)))"
  using up k unfolding upload_new_def Let_def
  by (auto simp: h_bind_eq_Inl on_store_eq chunks_insert_eq_Inr
      dest: object_store.put_frame [OF store])

text \<open>C13. An upload that fails, for whatever reason (a header, the body, the size limit, the
  session, the insert, the object store, the update after it), leaves the database and the bus
  exactly as they were, and can have touched no object but the one at the next free slot of the
  stream.\<close>

theorem upload_failure_rolls_back:
  assumes store: "object_store (st_store st) contents"
    and run: "chunks_upload_route st ev rfc svc sid raw headers body w = (Inl e, w')"
  shows "w_db w' = w_db w \<and> w_events w' = w_events w \<and>
    (\<forall>key. contents (w_store w') key = contents (w_store w) key \<or>
       (\<exists>s. find_session sid (w_db w) = Some s \<and>
          key = chunk_s3_key (ses_s3_prefix s) (PseudoId raw)
            (next_seq sid (PseudoId raw) (w_db w))))"
proof -
  have "contents (w_store w') key = contents (w_store w) key \<or>
       (\<exists>s. find_session sid (w_db w) = Some s \<and>
          key = chunk_s3_key (ses_s3_prefix s) (PseudoId raw)
            (next_seq sid (PseudoId raw) (w_db w)))" for key
    using run upload_new_failed [OF store] unfolding chunks_upload_route_def
    by (fastforce simp: h_bind_eq_Inl split: option.splits)
  with upload_error_frame [OF run] show ?thesis by blast
qed

theorem upload_failure_rolls_back_witness:
  "\<exists>e w'. chunks_upload_route sample_state sample_env sample_rfc3339 ''bot'' 2 (pid_str sample_pid)
       sample_headers (Inr [1, 2, 3]) (sample_world (sample_db Recording)) = (Inl e, w') \<and>
     w_db w' = sample_db Recording"
proof -
  let ?run = "chunks_upload_route sample_state sample_env sample_rfc3339 ''bot'' 2
      (pid_str sample_pid) sample_headers (Inr [1, 2, 3]) (sample_world (sample_db Recording))"
  have "\<exists>e w'. ?run = (Inl e, w')"
    using sample_headers_parse
    by (simp add: chunks_upload_route_def h_bind_def pseudo_id_new_or_mixed_def sample_defs
        chunks_lookup_by_client_id_def upload_new_def sessions_get_in_tx_def find_session_def)
  then obtain e w' where run: "?run = (Inl e, w')" by blast
  with upload_failure_rolls_back [OF sample_store run] show ?thesis
    by (auto simp: sample_world_def)
qed

lemma chunks_get_new:
  assumes "t_chunks d' = t_chunks d @ [c]" and "in_stream sid p c"
    and "\<not> has_key chunk_seq_key (sid, p, ch_seq c) (t_chunks d)"
  shows "chunks_get sid p (ch_seq c) d' = Inr c"
proof -
  have "List.find (\<lambda>c'. in_stream sid p c' \<and> ch_seq c' = ch_seq c) (t_chunks d) = None"
    using assms(3) by (auto simp: find_None_iff has_key_def chunk_seq_key_def in_stream_def)
  with assms(1,2) show ?thesis by (simp add: chunks_get_def find_append)
qed

text \<open>Round trip: a download of the chunk just uploaded, by any service, answers with exactly
  what the object store answers for the key of that chunk, and when it answers with bytes they
  are the bytes that were uploaded.\<close>

theorem upload_download_roundtrip:
  assumes store: "object_store (st_store st) contents"
    and h: "parse_chunk_headers rfc headers = Inr h"
    and new: "chunks_lookup_by_client_id sid (PseudoId raw) (hd_client_chunk_id h) (w_db w) = None"
    and run: "chunks_upload_route st ev rfc svc sid raw headers body w = (Inr r, w')"
  shows "fst (chunks_download_route st ev2 sid raw (ur_seq r) w') =
      os_get (st_store st) (ur_s3_key r) (w_store w') \<and>
    (\<forall>b. fst (chunks_download_route st ev2 sid raw (ur_seq r) w') = Inr b \<longrightarrow> body = Inr b)"
proof -
  have up: "upload_new st ev svc sid (PseudoId raw) h body (w_db w) w = (Inr r, w')"
    and raw: "raw = MIXED_PSEUDO_ID \<or> is_valid_pseudo_id raw"
    using run h new by (auto simp: chunks_upload_route_Inr)
  obtain c where c: "t_chunks (w_db w') = t_chunks (w_db w) @ [c]" "in_stream sid (PseudoId raw) c"
      "ch_seq c = ur_seq r" "ch_s3_key c = ur_s3_key r"
    using upload_new_row [OF up] by blast
  have "\<not> has_key chunk_seq_key (sid, PseudoId raw, ch_seq c) (t_chunks (w_db w))"
    using up c(3) unfolding upload_new_eq_Inr by auto
  from chunks_get_new [OF c(1,2) this] c(3)
  have get: "chunks_get sid (PseudoId raw) (ur_seq r) (w_db w') = Inr c" by simp
  have down: "fst (chunks_download_route st ev2 sid raw (ur_seq r) w') =
      os_get (st_store st) (ur_s3_key r) (w_store w')"
    using raw get c(4)
    by (auto simp: chunks_download_route_def h_bind_def pseudo_id_new_or_mixed_def split: sum.split)
  moreover have "body = Inr b" if "os_get (st_store st) (ur_s3_key r) (w_store w') = Inr b" for b
    using upload_new_stored [OF store up] object_store.get_contents [OF store that] by auto
  ultimately show ?thesis by simp
qed

theorem upload_download_roundtrip_witness:
  "\<exists>r w'. sample_upload (sample_world (sample_db Recording)) = (Inr r, w') \<and>
     fst (chunks_download_route sample_state sample_env2 1 (pid_str sample_pid) (ur_seq r) w') =
       os_get mem_store (ur_s3_key r) (w_store w')"
proof -
  let ?w = "sample_world (sample_db Recording)"
  obtain r w' where run: "sample_upload ?w = (Inr r, w')" using sample_upload_ok by blast
  have new: "chunks_lookup_by_client_id 1 (PseudoId (pid_str sample_pid)) (hd_client_chunk_id
      \<lparr>hd_capture_started_at = 12, hd_duration_ms = 2000, hd_client_chunk_id = ''c1''\<rparr>)
      (w_db ?w) = None"
    by (simp add: sample_defs chunks_lookup_by_client_id_def)
  from upload_download_roundtrip [OF sample_store sample_headers_parse new
      run [unfolded sample_upload_def]] run show ?thesis
    by (auto simp: sample_state_def)
qed

lemma chunk_session:
  assumes inv: "service_inv d" and c: "c \<in> set (t_chunks d)"
  obtains s where "find_session (ch_session_id c) d = Some s"
    "ch_s3_key c = chunk_s3_key (ses_s3_prefix s) (ch_pseudo_id c) (ch_seq c)"
  using service_invD(6) [OF inv] c by (auto simp: chunk_keys_ok_def)

text \<open>Sequence numbers count up from 0 within their stream.\<close>

lemma chunk_seq_range:
  assumes inv: "service_inv d" and c: "c \<in> set (t_chunks d)"
  shows "0 \<le> ch_seq c \<and> ch_seq c < next_seq (ch_session_id c) (ch_pseudo_id c) d"
proof -
  let ?rows = "stream_rows (ch_session_id c) (ch_pseudo_id c) d"
  have "ch_seq c \<in> set (map ch_seq ?rows)" using c by (auto simp: stream_rows_def in_stream_def)
  then show ?thesis
    using streams_gaplessD [OF service_invD(3) [OF inv] stream_rows_def [symmetric]]
    by (auto simp: next_seq_gapless [OF service_invD(3) [OF inv]])
qed

lemma chunk_pid:
  "service_inv d \<Longrightarrow> c \<in> set (t_chunks d) \<Longrightarrow> chunk_pid_ok (ch_pseudo_id c)"
  using db_wfD(6) [OF service_invD(1)] by (auto simp: chunks_wf_def)

text \<open>In a state the service can be in, an object key names one chunk within a session: two
  chunk rows with the same key agree in speaker and sequence number and their sessions share the
  prefix, so rows of one session with the same key are the same row.\<close>

theorem chunk_key_determines:
  assumes inv: "service_inv d" and c: "c \<in> set (t_chunks d)" and c': "c' \<in> set (t_chunks d)"
    and eq: "ch_s3_key c = ch_s3_key c'"
  shows "ch_pseudo_id c = ch_pseudo_id c' \<and> ch_seq c = ch_seq c' \<and>
    map_option ses_s3_prefix (find_session (ch_session_id c) d) =
      map_option ses_s3_prefix (find_session (ch_session_id c') d) \<and>
    (ch_session_id c = ch_session_id c' \<longrightarrow> c = c')"
proof -
  obtain s s' where s: "find_session (ch_session_id c) d = Some s"
      "ch_s3_key c = chunk_s3_key (ses_s3_prefix s) (ch_pseudo_id c) (ch_seq c)"
    and s': "find_session (ch_session_id c') d = Some s'"
      "ch_s3_key c' = chunk_s3_key (ses_s3_prefix s') (ch_pseudo_id c') (ch_seq c')"
    using chunk_session [OF inv c] chunk_session [OF inv c'] by metis
  have parts: "ses_s3_prefix s = ses_s3_prefix s' \<and> ch_pseudo_id c = ch_pseudo_id c' \<and>
      ch_seq c = ch_seq c'"
    using chunk_s3_key_inj [OF _ chunk_pid [OF inv c] chunk_pid [OF inv c']] s(2) s'(2) eq
      chunk_seq_range [OF inv c] chunk_seq_range [OF inv c'] by metis
  moreover have "c = c'" if "ch_session_id c = ch_session_id c'"
  proof -
    have "chunk_seq_key c = chunk_seq_key c'" using parts that by (simp add: chunk_seq_key_def)
    then show ?thesis
      using db_wfD(6) [OF service_invD(1) [OF inv]] c c'
      by (auto simp: chunks_wf_def distinct_map inj_on_def)
  qed
  ultimately show ?thesis using s(1) s'(1) by simp
qed

end
