(* ===== verification/Uniform_Properties.thy ===== *)
theory Uniform_Properties
  imports Routes_Uniform Versioned Tokens
begin

section \<open>Properties of the metadata and uniform resource routes\<close>

text \<open>
  What a client of \<^verbatim>\<open>src/routes/metadata.rs\<close> and \<^verbatim>\<open>src/routes/uniform_crud.rs\<close> may rely on: tags
  decide races, a patch touches only what it names, and a bulk create is atomic and can be
  repeated.
\<close>

subsection \<open>Properties of the metadata routes\<close>

definition sample_tag :: etag where
  "sample_tag = ETag ''00000000000000ff''"

definition sample_metadata :: metadata_blob where
  "sample_metadata = \<lparr>md_session_id = 1, md_blob = JObj [(''a'', JInt 1), (''b'', JInt 2)],
     md_etag = sample_tag, md_updated_at = 6\<rparr>"

definition sample_segment :: pg_row where
  "sample_segment = \<lparr>pg_id = 70, pg_session_id = 1, pg_client_id = ''s1'', pg_start_ms = 0,
     pg_end_ms = 10, pg_natural = SegmentColumns None ''hello'' None, pg_flags = JObj [],
     pg_original = None, pg_etag = etag_str sample_tag, pg_author_service = ''bot'',
     pg_author_user_pseudo_id = None, pg_created_at = 6, pg_updated_at = 6\<rparr>"

definition sample_docs :: database where
  "sample_docs = (sample_db Recording)\<lparr>t_metadata := [sample_metadata],
     t_segments := [sample_segment]\<rparr>"

definition if_match_headers :: "etag \<Rightarrow> headers" where
  "if_match_headers t = [''if-match'' \<mapsto> etag_header t]"

lemmas sample_doc_defs = sample_docs_def sample_metadata_def sample_segment_def sample_defs

lemma if_match_header_sent:
  assumes "list_all is_lower_hex (etag_str t)" and "h ''if-match'' = Some (etag_header t)"
  shows "if_match_header_of h = Some t"
proof -
  have "list_all visible_ascii (etag_header t)"
    using assms(1) hex_visible by (auto simp: etag_header_def list_all_iff quote_char_def)
      (simp_all add: visible_ascii_def)
  then have "header_str h ''if-match'' = Some (etag_header t)"
    using assms(2) by (simp add: header_str_eq_Some)
  then show ?thesis using if_match_header [OF assms(1)] by (simp add: if_match_header_of_def)
qed

lemma metadata_patch_route_Inr:
  "metadata_patch_route ev svc sid headers body w = (Inr r, w') \<longleftrightarrow>
     (\<exists>m d. metadata_shallow_merge (ev_db_now ev 0) (ev_tag ev 0) (ev_tag ev 1) sid
         (if_match_header_of headers) body (w_db w) = Inr (m, d) \<and>
       \<not> has_key au_id (ev_audit_id ev 0) (t_audit_log d) \<and> r = metadata_response m \<and>
       w' = w\<lparr>w_db := d\<lparr>t_audit_log := t_audit_log d @ [audit_row_of (ev_audit_id ev 0)
         (ev_db_now ev 1) (metadata_entry svc sid ''merged'' (md_etag m))]\<rparr>\<rparr>)"
  by (auto simp: metadata_patch_route_def h_bind_eq_Inr run_tx_eq_Inr audit_eq_Inr)

lemma metadata_upsert_frame:
  "metadata_upsert now sid blob tag d = Inr (m, d') \<Longrightarrow> t_audit_log d' = t_audit_log d"
  by (auto simp: metadata_upsert_def Let_def split: option.splits if_splits)

lemma find_metadata_audit [simp]:
  "find_metadata sid (d\<lparr>t_audit_log := a\<rparr>) = find_metadata sid d"
  by (simp add: find_metadata_def)

text \<open>A metadata patch whose \<^verbatim>\<open>If-Match\<close> tag is not the current tag of the blob answers with
  the precondition failure that carries the current tag and changes nothing; where no blob exists
  the current tag is a random one nobody can know.\<close>

theorem metadata_stale_tag_rejected:
  assumes "if_match_header_of headers = Some e"
    and "current = (case find_metadata sid (w_db w) of Some m \<Rightarrow> md_etag m | None \<Rightarrow> ev_tag ev 0)"
    and "e \<noteq> current"
  shows "metadata_patch_route ev svc sid headers body w = (Inl (PreconditionFailed current), w)"
  using assms
  by (cases "find_metadata sid (w_db w)")
    (simp_all add: metadata_patch_route_def h_bind_def run_tx_def metadata_shallow_merge_def
      tx_bind_def check_expected_stale)

theorem metadata_stale_tag_rejected_witness:
  "metadata_patch_route sample_env ''bot'' 1 (if_match_headers (ETag ''ab'')) (JObj [])
     (sample_world sample_docs) = (Inl (PreconditionFailed sample_tag), sample_world sample_docs)"
proof -
  have h: "if_match_header_of (if_match_headers (ETag ''ab'')) = Some (ETag ''ab'')"
    by (rule if_match_header_sent) (simp_all add: if_match_headers_def is_lower_hex_def)
  have "sample_tag = (case find_metadata 1 (w_db (sample_world sample_docs)) of
      Some m \<Rightarrow> md_etag m | None \<Rightarrow> ev_tag sample_env 0)"
    by (simp add: sample_doc_defs find_metadata_def)
  from metadata_stale_tag_rejected [OF h this] show ?thesis by (simp add: sample_tag_def)
qed

text \<open>C26. A metadata patch that succeeds stores, under the new tag it answers with, the
  right-biased union of the two top-level maps: keys of the patch win, keys it does not name are
  kept, and the result is again a proper map. Blobs of other sessions are untouched, one audit
  entry is written and no event is sent.\<close>

theorem metadata_patch_effect:
  assumes run: "metadata_patch_route ev svc sid headers (JObj p) w = (Inr r, w')"
    and p: "bmap_wf p"
  shows "\<exists>base m q.
    (case find_metadata sid (w_db w) of
       Some m0 \<Rightarrow> md_blob m0 = JObj base \<or> md_blob m0 = JNull \<and> base = []
     | None \<Rightarrow> base = []) \<and>
    find_metadata sid (w_db w') = Some m \<and> md_blob m = JObj q \<and>
    map_of q = map_of base ++ map_of p \<and> (bmap_wf base \<longrightarrow> bmap_wf q) \<and>
    md_etag m = ev_tag ev 1 \<and> r = metadata_response m \<and>
    (\<forall>j. j \<noteq> sid \<longrightarrow> find_metadata j (w_db w') = find_metadata j (w_db w)) \<and>
    length (t_audit_log (w_db w')) = Suc (length (t_audit_log (w_db w))) \<and>
    w_events w' = w_events w"
proof -
  from run obtain m d where mg: "metadata_shallow_merge (ev_db_now ev 0) (ev_tag ev 0) (ev_tag ev 1)
      sid (if_match_header_of headers) (JObj p) (w_db w) = Inr (m, d)"
    and r: "r = metadata_response m"
    and w': "w' = w\<lparr>w_db := d\<lparr>t_audit_log := t_audit_log d @ [audit_row_of (ev_audit_id ev 0)
         (ev_db_now ev 1) (metadata_entry svc sid ''merged'' (md_etag m))]\<rparr>\<rparr>"
    unfolding metadata_patch_route_Inr by blast
  from mg obtain b current merged where
    b: "case find_metadata sid (w_db w) of Some r \<Rightarrow> b = md_blob r \<and> current = md_etag r
        | None \<Rightarrow> b = JObj [] \<and> current = ev_tag ev 0"
    and merged: "merge_shallow b (JObj p) = Inr merged"
    and up: "metadata_upsert (ev_db_now ev 0) sid merged (ev_tag ev 1) (w_db w) = Inr (m, d)"
    unfolding metadata_shallow_merge_eq_Inr by blast
  from merged obtain base where base: "b = JObj base \<or> b = JNull \<and> base = []"
    and q: "merged = JObj (obj_extend base p)"
    unfolding merge_shallow_eq_Inr by auto
  have "map_of (obj_extend base p) = map_of base ++ map_of p"
    using p by (simp add: map_of_obj_extend bmap_wf_distinct)
  moreover have "case find_metadata sid (w_db w) of
       Some m0 \<Rightarrow> md_blob m0 = JObj base \<or> md_blob m0 = JNull \<and> base = []
     | None \<Rightarrow> base = []"
    using b base by (auto split: option.splits)
  ultimately show ?thesis
    using metadata_upsert_get [OF up] metadata_upsert_frame [OF up] q obj_wf_extend
    by (intro exI [of _ base] exI [of _ m] exI [of _ "obj_extend base p"])
      (simp add: w' r)
qed

lemma sample_patch_ok:
  "\<exists>r w'. metadata_patch_route sample_env ''bot'' 1 (if_match_headers sample_tag)
     (JObj [(''b'', JInt 3)]) (sample_world sample_docs) = (Inr r, w')"
proof -
  have h: "if_match_header_of (if_match_headers sample_tag) = Some sample_tag"
    by (rule if_match_header_sent)
      (simp_all add: if_match_headers_def sample_tag_def is_lower_hex_def)
  show ?thesis
    unfolding metadata_patch_route_Inr
    by (simp add: h sample_doc_defs metadata_shallow_merge_def tx_bind_def find_metadata_def
        check_expected_def merge_shallow_def metadata_upsert_def bind_res_def Let_def
        metadata_response_def)
qed

theorem metadata_patch_effect_witness:
  "\<exists>r w' m q. metadata_patch_route sample_env ''bot'' 1 (if_match_headers sample_tag)
     (JObj [(''b'', JInt 3)]) (sample_world sample_docs) = (Inr r, w') \<and>
     find_metadata 1 (w_db w') = Some m \<and> md_blob m = JObj q \<and>
     map_of q ''a'' = Some (JInt 1) \<and> map_of q ''b'' = Some (JInt 3)"
proof -
  obtain r w' where run: "metadata_patch_route sample_env ''bot'' 1 (if_match_headers sample_tag)
     (JObj [(''b'', JInt 3)]) (sample_world sample_docs) = (Inr r, w')"
    using sample_patch_ok by blast
  have "bmap_wf [(''b'', JInt 3)]" by (simp add: bmap_wf_def)
  from metadata_patch_effect [OF run this] run show ?thesis
    by (auto simp: sample_doc_defs find_metadata_def)
qed

text \<open>The tag a patch answers with in its \<^verbatim>\<open>ETag\<close> header can be sent back as it is: a next
  patch with that header and any JSON object succeeds, provided the tag was drawn by
  \<^verbatim>\<open>ETag::new_random\<close>, the blob was not changed in between and the audit id is fresh.\<close>

theorem metadata_tag_roundtrip:
  assumes run: "metadata_patch_route ev svc sid headers body w = (Inr r, w')"
    and drawn: "ev_tag ev 1 = etag_new_random hex fill" "hex_law hex" "fill_law fill"
    and h: "headers2 ''if-match'' = Some (fst r)"
    and same: "find_metadata sid (w_db w2) = find_metadata sid (w_db w')"
    and fresh: "\<not> has_key au_id (ev_audit_id ev2 0) (t_audit_log (w_db w2))"
  shows "\<exists>r2 w3. metadata_patch_route ev2 svc2 sid headers2 (JObj p2) w2 = (Inr r2, w3)"
proof -
  from run obtain m d where mg: "metadata_shallow_merge (ev_db_now ev 0) (ev_tag ev 0) (ev_tag ev 1)
      sid (if_match_header_of headers) body (w_db w) = Inr (m, d)"
    and r: "r = metadata_response m" and w': "find_metadata sid (w_db w') = find_metadata sid d"
    unfolding metadata_patch_route_Inr by auto
  from mg obtain b merged where merged: "merge_shallow b body = Inr merged"
    and up: "metadata_upsert (ev_db_now ev 0) sid merged (ev_tag ev 1) (w_db w) = Inr (m, d)"
    unfolding metadata_shallow_merge_eq_Inr by blast
  from merged obtain q where q: "merged = JObj q" unfolding merge_shallow_eq_Inr by blast
  have m: "find_metadata sid (w_db w2) = Some m" "md_blob m = JObj q" "md_etag m = ev_tag ev 1"
    using metadata_upsert_get [OF up] same w' q by simp_all
  have "fst r = etag_header (ev_tag ev 1)" by (simp add: r metadata_response_def m(3))
  then have "if_match_header_of headers2 = Some (ev_tag ev 1)"
    using if_match_header_sent etag_new_random_shape [OF drawn(2,3)] drawn(1) h
    by (simp add: etag_shape_def)
  then show ?thesis
    using m fresh unfolding metadata_patch_route_Inr
    by (simp add: metadata_shallow_merge_def tx_bind_def merge_shallow_def bind_res_def
        check_expected_def metadata_upsert_def Let_def metadata_response_def)
qed

theorem metadata_tag_roundtrip_witness:
  "\<exists>r w' r2 w3. metadata_patch_route sample_env ''bot'' 1 (if_match_headers sample_tag)
     (JObj [(''b'', JInt 3)]) (sample_world sample_docs) = (Inr r, w') \<and>
     metadata_patch_route sample_env2 ''bot'' 1 [''if-match'' \<mapsto> fst r] (JObj []) w' = (Inr r2, w3)"
proof -
  obtain r w' where run: "metadata_patch_route sample_env ''bot'' 1 (if_match_headers sample_tag)
     (JObj [(''b'', JInt 3)]) (sample_world sample_docs) = (Inr r, w')"
    using sample_patch_ok by blast
  have drawn: "ev_tag sample_env 1 = etag_new_random sample_hex sample_fill"
    by (simp add: sample_texts sample_env_def)
  have h: "[''if-match'' \<mapsto> fst r] ''if-match'' = Some (fst r)" by simp
  have fresh: "\<not> has_key au_id (ev_audit_id sample_env2 0) (t_audit_log (w_db w'))"
    using run unfolding metadata_patch_route_Inr
    by (auto simp: metadata_shallow_merge_eq_Inr sample_doc_defs audit_row_of_def
        dest!: metadata_upsert_frame)
  from metadata_tag_roundtrip [where ?headers2.0 = "[''if-match'' \<mapsto> fst r]" and ?w2.0 = w',
      OF run drawn sample_hex_law sample_fill_law h refl fresh] run show ?thesis by blast
qed

subsection \<open>Properties of single rows\<close>

text \<open>A row patch whose \<^verbatim>\<open>If-Match\<close> tag is not the row's current tag answers with the
  precondition failure that carries the current tag and changes nothing.\<close>

theorem row_stale_tag_rejected:
  assumes inv: "service_inv (w_db w)" and r: "find_pg rt i (w_db w) = Some r"
    and h: "if_match_header_of headers = Some e" and e: "e \<noteq> ETag (pg_etag r)"
  shows "patch_row_route rt ev svc i headers body w =
    (Inl (PreconditionFailed (ETag (pg_etag r))), w)"
proof -
  obtain u where u: "row_from_pg rt r = Inr u"
    using all_rows_decodeD [OF service_invD(4) [OF inv], of rt] r
    by (auto simp: rows_decode_def dest: find_pg_SomeD)
  with e have "check_expected (Some e) (un_etag u) = Inl (PreconditionFailed (ETag (pg_etag r)))"
    using row_from_pg_fields [OF u] by (simp add: check_expected_stale)
  with r h u show ?thesis
    by (simp add: patch_row_route_def h_bind_def run_tx_def uniform_patch_def tx_bind_def)
qed

definition sample_row_patch :: patch_input where
  "sample_row_patch = \<lparr>pi_text = Some ''bye'', pi_title = None, pi_summary = None,
     pi_confidence = None, pi_start_ms = None, pi_end_ms = None, pi_flags = None,
     pi_author_user_pseudo_id = None\<rparr>"

lemma sample_docs_inv: "service_inv sample_docs"
proof -
  have "\<exists>u. row_from_pg SEGMENTS sample_segment = Inr u"
    unfolding row_from_pg_eq_Inr by (simp add: sample_segment_def author_ok_def)
  moreover have "uniform_table rt sample_docs = (if rt = SEGMENTS then [sample_segment] else [])" for rt
    by (cases rt) (simp_all add: sample_docs_def sample_db_def empty_db_def)
  ultimately have dec: "all_rows_decode sample_docs"
    by (simp add: all_rows_decode_def rows_decode_def)
  have "stamps_ok (sample_session Recording)" by (simp add: stamps_ok_def sample_session_def)
  with dec show ?thesis
    by (simp add: service_inv_def facts_inv_def base_facts_def streams_gapless_def chunk_keys_ok_def db_wf_def
        table_wf_defs mutes_ordered_def author_ok_def)
      (simp add: sample_doc_defs)
qed

theorem row_stale_tag_rejected_witness:
  "patch_row_route SEGMENTS sample_env ''bot'' 70 (if_match_headers (ETag ''ab''))
     sample_row_patch (sample_world sample_docs) = (Inl (PreconditionFailed sample_tag), sample_world sample_docs)"
proof -
  have inv: "service_inv (w_db (sample_world sample_docs))"
    using sample_docs_inv by (simp add: sample_world_def)
  have r: "find_pg SEGMENTS 70 (w_db (sample_world sample_docs)) = Some sample_segment"
    by (simp add: sample_doc_defs find_pg_def)
  have h: "if_match_header_of (if_match_headers (ETag ''ab'')) = Some (ETag ''ab'')"
    by (rule if_match_header_sent) (simp_all add: if_match_headers_def is_lower_hex_def)
  have e: "ETag ''ab'' \<noteq> ETag (pg_etag sample_segment)"
    by (simp add: sample_segment_def sample_tag_def)
  from row_stale_tag_rejected [OF inv r h e] show ?thesis
    by (simp add: sample_segment_def)
qed

lemma find_pg_other:
  assumes "j \<noteq> i" and "\<And>r. pg_id (f r) = pg_id r"
  shows "find_pg rt j (set_uniform_table rt
    (update_rows (\<lambda>r. pg_id r = i) f (uniform_table rt d)) d) = find_pg rt j d"
proof -
  have "List.find (\<lambda>r. pg_id r = j) (update_rows (\<lambda>r. pg_id r = i) f rs) =
      List.find (\<lambda>r. pg_id r = j) rs" for rs
    using assms by (induction rs) auto
  then show ?thesis by (simp add: find_pg_def)
qed

lemma find_pg_other_table:
  "rt' \<noteq> rt \<Longrightarrow> find_pg rt' j (set_uniform_table rt rs d) = find_pg rt' j d"
  by (simp add: find_pg_def)

lemma find_pg_audit [simp]: "find_pg rt j (d\<lparr>t_audit_log := a\<rparr>) = find_pg rt j d"
  by (cases rt) (simp_all add: find_pg_def)

lemma guild_id_audit [simp]:
  "guild_id_for_session sid (d\<lparr>t_audit_log := a\<rparr>) = guild_id_for_session sid d"
  by (simp add: guild_id_for_session_def find_session_def)

lemma patch_row_route_Inr:
  "patch_row_route rt ev svc i headers body w = (Inr x, w') \<Longrightarrow>
   \<exists>u d guild. uniform_patch rt (ev_db_now ev 0) (ev_tag ev 0) i (if_match_header_of headers) body
       (w_db w) = Inr (u, d) \<and> x = row_response u \<and>
     guild_id_for_session (un_session_id u) d = Inr guild \<and>
     (\<exists>a. w_db w' = d\<lparr>t_audit_log := t_audit_log d @ [a]\<rparr>) \<and>
     w_events w' = w_events w @ [updated_event rt (ev_utc_now ev 0)
       \<lparr>rr_session_id = un_session_id u, rr_guild_id = guild, rr_id = i\<rparr>]"
  by (auto simp: patch_row_route_def h_bind_eq_Inr run_tx_eq_Inr audit_eq_Inr)

lemma apply_patch_bounds:
  "un_start_ms (apply_patch rt p e) = unwrap_or (un_start_ms e) (pi_start_ms p)"
  "un_end_ms (apply_patch rt p e) = unwrap_or (un_end_ms e) (pi_end_ms p)"
  "un_flags (apply_patch rt p e) = unwrap_or (un_flags e) (pi_flags p)"
  by (cases "rt_shape rt"; simp add: apply_patch_def Let_def)+

lemma row_columns:
  assumes "row_from_pg rt r = Inr e"
  shows "update_pg rt now tag (apply_patch rt body e) author r =
    r\<lparr>pg_start_ms := unwrap_or (pg_start_ms r) (pi_start_ms body),
      pg_end_ms := unwrap_or (pg_end_ms r) (pi_end_ms body),
      pg_natural :=
        (case (rt_shape rt, pg_natural r) of
           (Segment, SegmentColumns p t c) \<Rightarrow>
             SegmentColumns p (unwrap_or t (pi_text body)) (unwrap_or c (pi_confidence body))
         | (TitleSummary, TitleSummaryColumns t s) \<Rightarrow>
             TitleSummaryColumns (unwrap_or t (pi_title body)) (unwrap_or s (pi_summary body))
         | (_, n) \<Rightarrow> n),
      pg_flags := unwrap_or (pg_flags r) (pi_flags body),
      pg_etag := etag_str tag,
      pg_author_user_pseudo_id :=
        (case author of Some p \<Rightarrow> Some (pid_str p) | None \<Rightarrow> pg_author_user_pseudo_id r),
      pg_updated_at := now\<rparr>"
proof -
  obtain te ti su co where "natural_fields (rt_shape rt) (pg_natural r) = (te, ti, su, co)"
    using prod_cases4 by blast
  then have shape: "natural_fields (rt_shape rt) (pg_natural r) =
      (un_text e, un_title e, un_summary e, un_confidence e)"
    using assms by (auto simp: row_from_pg_def bind_res_eq_Inr)
  note fields = row_from_pg_fields(4,5,7) [OF assms]
  have "update_natural (rt_shape rt) (apply_patch rt body e) (pg_natural r) =
      (case (rt_shape rt, pg_natural r) of
         (Segment, SegmentColumns p t c) \<Rightarrow>
           SegmentColumns p (unwrap_or t (pi_text body)) (unwrap_or c (pi_confidence body))
       | (TitleSummary, TitleSummaryColumns t s) \<Rightarrow>
           TitleSummaryColumns (unwrap_or t (pi_title body)) (unwrap_or s (pi_summary body))
       | (_, n) \<Rightarrow> n)"
    using shape by (cases "rt_shape rt"; cases "pg_natural r") 
      (auto simp: apply_patch_def Let_def unwrap_or_def split: option.split)
  then show ?thesis by (simp add: update_pg_def apply_patch_bounds fields)
qed

text \<open>C25. A row patch that succeeds replaces exactly the fields its body names (bounds, flags, and
  text and confidence of a segment or title and summary of a beat or scene), keeps the others,
  stamps the new tag and time, and touches no other row of any of the three tables; it answers
  with the row as it is stored and announces it once.\<close>

theorem patch_row_effect:
  assumes run: "patch_row_route rt ev svc i headers body w = (Inr x, w')"
  shows "\<exists>r r' u. find_pg rt i (w_db w) = Some r \<and> find_pg rt i (w_db w') = Some r' \<and>
    x = (etag_header (ev_tag ev 0), u) \<and> row_from_pg rt r' = Inr u \<and>
    r' = r\<lparr>pg_start_ms := unwrap_or (pg_start_ms r) (pi_start_ms body),
           pg_end_ms := unwrap_or (pg_end_ms r) (pi_end_ms body),
           pg_natural :=
             (case (rt_shape rt, pg_natural r) of
                (Segment, SegmentColumns p t c) \<Rightarrow>
                  SegmentColumns p (unwrap_or t (pi_text body)) (unwrap_or c (pi_confidence body))
              | (TitleSummary, TitleSummaryColumns t s) \<Rightarrow>
                  TitleSummaryColumns (unwrap_or t (pi_title body)) (unwrap_or s (pi_summary body))
              | (_, n) \<Rightarrow> n),
           pg_flags := unwrap_or (pg_flags r) (pi_flags body),
           pg_etag := etag_str (ev_tag ev 0),
           pg_author_user_pseudo_id :=
             (case pi_author_user_pseudo_id body of Some p \<Rightarrow> Some (pid_str p)
              | None \<Rightarrow> pg_author_user_pseudo_id r),
           pg_updated_at := ev_db_now ev 0\<rparr> \<and>
    (\<forall>rt' j. rt' \<noteq> rt \<or> j \<noteq> i \<longrightarrow> find_pg rt' j (w_db w') = find_pg rt' j (w_db w)) \<and>
    (\<exists>guild. w_events w' = w_events w @ [updated_event rt (ev_utc_now ev 0)
       \<lparr>rr_session_id = pg_session_id r, rr_guild_id = guild, rr_id = i\<rparr>])"
proof -
  from patch_row_route_Inr [OF run] obtain u d guild a where
    tx: "uniform_patch rt (ev_db_now ev 0) (ev_tag ev 0) i (if_match_header_of headers) body
       (w_db w) = Inr (u, d)"
    and x: "x = row_response u"
    and w': "w_db w' = d\<lparr>t_audit_log := t_audit_log d @ [a]\<rparr>"
    and evs: "w_events w' = w_events w @ [updated_event rt (ev_utc_now ev 0)
       \<lparr>rr_session_id = un_session_id u, rr_guild_id = guild, rr_id = i\<rparr>]"
    by blast
  from tx obtain r e where r: "find_pg rt i (w_db w) = Some r" and e: "row_from_pg rt r = Inr e"
    and u: "row_from_pg rt (update_pg rt (ev_db_now ev 0) (ev_tag ev 0) (apply_patch rt body e)
      (pi_author_user_pseudo_id body) r) = Inr u"
    and d: "d = set_uniform_table rt (update_rows (\<lambda>r. pg_id r = i) (update_pg rt (ev_db_now ev 0)
      (ev_tag ev 0) (apply_patch rt body e) (pi_author_user_pseudo_id body))
      (uniform_table rt (w_db w))) (w_db w)"
    unfolding uniform_patch_eq_Inr Let_def by blast
  let ?r' = "update_pg rt (ev_db_now ev 0) (ev_tag ev 0) (apply_patch rt body e)
      (pi_author_user_pseudo_id body) r"
  have found: "find_pg rt i (w_db w') = Some ?r'" by (simp add: w' d find_pg_updated [OF r])
  have other: "find_pg rt' j (w_db w') = find_pg rt' j (w_db w)" if "rt' \<noteq> rt \<or> j \<noteq> i" for rt' j
    using that by (cases "rt' = rt") (auto simp: w' d find_pg_other find_pg_other_table)
  have x': "x = (etag_header (ev_tag ev 0), u)"
    using row_from_pg_fields(6) [OF u] by (simp add: x row_response_def)
  have sid: "un_session_id u = pg_session_id r" using row_from_pg_fields(2) [OF u] by simp
  have evs': "\<exists>guild. w_events w' = w_events w @ [updated_event rt (ev_utc_now ev 0)
       \<lparr>rr_session_id = pg_session_id r, rr_guild_id = guild, rr_id = i\<rparr>]"
    using evs sid by auto
  show ?thesis
    by (rule exI [of _ r], rule exI [of _ ?r'], rule exI [of _ u], intro conjI allI impI)
      (rule r found x' u row_columns [OF e] evs' other | assumption)+
qed

theorem patch_row_effect_witness:
  "\<exists>x w' r'. patch_row_route SEGMENTS sample_env ''bot'' 70 (if_match_headers sample_tag)
     sample_row_patch (sample_world sample_docs) = (Inr x, w') \<and>
     find_pg SEGMENTS 70 (w_db w') = Some r' \<and>
     pg_natural r' = SegmentColumns None ''bye'' None \<and> pg_end_ms r' = 10"
proof -
  have "\<exists>x w'. patch_row_route SEGMENTS sample_env ''bot'' 70 (if_match_headers sample_tag)
     sample_row_patch (sample_world sample_docs) = (Inr x, w')"
  proof -
    have h: "if_match_header_of (if_match_headers sample_tag) = Some sample_tag"
      by (rule if_match_header_sent)
        (simp_all add: if_match_headers_def sample_tag_def is_lower_hex_def)
    show ?thesis
      by (simp add: patch_row_route_def h_bind_def run_tx_def uniform_patch_def tx_bind_def h
          find_pg_def sample_doc_defs sample_row_patch_def row_from_pg_def decode_opt_pid_def
          bind_res_def check_expected_def uniform_update_pg_def update_pg_def apply_patch_def
          Let_def unwrap_or_def author_ok_def audit_def audit_append_def guild_id_for_session_def
          find_session_def ok_or_def)
  qed
  then obtain x w' where run: "patch_row_route SEGMENTS sample_env ''bot'' 70
     (if_match_headers sample_tag) sample_row_patch (sample_world sample_docs) = (Inr x, w')"
    by blast
  have "find_pg SEGMENTS 70 (w_db (sample_world sample_docs)) = Some sample_segment"
    by (simp add: sample_doc_defs find_pg_def)
  with patch_row_effect [OF run] run show ?thesis
    by (auto simp: sample_segment_def sample_row_patch_def unwrap_or_def)
qed

subsection \<open>Properties of the bulk insert\<close>

lemma set_uniform_table_twice [simp]:
  "set_uniform_table rt rs (set_uniform_table rt rs' d) = set_uniform_table rt rs d"
  "set_uniform_table rt (uniform_table rt d) d = d"
  by (cases rt; simp)+

lemma insert_rows_Inr:
  assumes "insert_rows rt now ids tags k sid svc is d = Inr (rows, d')"
  shows "\<exists>new. d' = set_uniform_table rt (uniform_table rt d @ new) d \<and>
    map pg_client_id new = map ci_client_id is \<and> (\<forall>r \<in> set new. pg_session_id r = sid) \<and>
    map (\<lambda>r. (pg_start_ms r, pg_end_ms r)) new = map (\<lambda>i. (ci_start_ms i, ci_end_ms i)) is \<and>
    list_all2 (\<lambda>r u. row_from_pg rt r = Inr u) new rows"
  using assms
proof (induction "is" arbitrary: k d rows)
  case Nil
  then show ?case by (simp add: tx_return_def)
next
  case (Cons i "is")
  let ?r = "pg_row_of rt now (ids k) sid svc i (tags k)"
  from Cons.prems obtain u rows1 d1 where u: "row_from_pg rt ?r = Inr u"
    and d1: "d1 = set_uniform_table rt (uniform_table rt d @ [?r]) d"
    and rest: "insert_rows rt now ids tags (Suc k) sid svc is d1 = Inr (rows1, d')"
    and rows: "rows = u # rows1"
    by (auto simp: tx_bind_eq_Inr insert_row_in_tx_eq_Inr uniform_insert_pg_eq_Inr tx_return_def)
  from Cons.IH [OF rest] obtain new where
    "d' = set_uniform_table rt (uniform_table rt d1 @ new) d1"
    "map pg_client_id new = map ci_client_id is" "\<forall>r \<in> set new. pg_session_id r = sid"
    "map (\<lambda>r. (pg_start_ms r, pg_end_ms r)) new = map (\<lambda>i. (ci_start_ms i, ci_end_ms i)) is"
    "list_all2 (\<lambda>r u. row_from_pg rt r = Inr u) new rows1" by blast
  then show ?case
    using u by (intro exI [of _ "?r # new"]) (simp add: d1 rows pg_row_of_def)
qed

definition input_ok :: "resource_table \<Rightarrow> create_input \<Rightarrow> bool" where
  "input_ok rt i \<longleftrightarrow> (rt_shape rt = Segment \<longrightarrow> ci_text i \<noteq> None) \<and>
     (rt_shape rt = TitleSummary \<longrightarrow> ci_title i \<noteq> None) \<and> ci_start_ms i \<le> ci_end_ms i"

lemma validate_inputs_eq_Inr: "validate_inputs rt is = Inr () \<longleftrightarrow> (\<forall>i \<in> set is. input_ok rt i)"
  by (induction "is") (auto simp: input_ok_def not_less)

lemma validate_inputs_error: "validate_inputs rt is = Inl e \<Longrightarrow> \<exists>m. e = BadRequest m"
  by (induction "is") (auto split: if_splits)

definition known_ids :: "resource_table \<Rightarrow> uuid \<Rightarrow> database \<Rightarrow> client_id set" where
  "known_ids rt sid d = {pg_client_id r | r. r \<in> set (uniform_table rt d) \<and> pg_session_id r = sid}"

lemma existing_client_ids_set:
  "set (existing_client_ids rt sid cs d) = known_ids rt sid d \<inter> set cs"
  by (auto simp: existing_client_ids_def known_ids_def)

lemma uniform_table_audit [simp]: "uniform_table rt (d\<lparr>t_audit_log := a\<rparr>) = uniform_table rt d"
  by (cases rt) simp_all

lemma uniform_bulk_insert_Inr:
  assumes "uniform_bulk_insert rt now ids tags sid svc inputs d = Inr (b, d')"
  shows "\<exists>new. d' = set_uniform_table rt (uniform_table rt d @ new) d \<and>
    map pg_client_id new =
      filter (\<lambda>c. c \<notin> known_ids rt sid d) (map ci_client_id inputs) \<and>
    (\<forall>r \<in> set new. pg_session_id r = sid \<and> pg_start_ms r \<le> pg_end_ms r) \<and>
    list_all2 (\<lambda>r u. row_from_pg rt r = Inr u) new (br_inserted b) \<and>
    br_deduplicated_client_ids b = existing_client_ids rt sid (map ci_client_id inputs) d \<and>
    (\<forall>i \<in> set inputs. input_ok rt i)"
proof (cases "inputs = []")
  case True
  with assms show ?thesis
    by (auto simp: uniform_bulk_insert_def tx_return_def existing_client_ids_def)
next
  case False
  let ?is = "filter (\<lambda>i. ci_client_id i \<notin> set (existing_client_ids rt sid (map ci_client_id inputs) d))
    inputs"
  from assms False have val: "\<forall>i \<in> set inputs. input_ok rt i"
    and ins: "insert_rows rt now ids tags 0 sid svc ?is d = Inr (br_inserted b, d')"
    and dup: "br_deduplicated_client_ids b = existing_client_ids rt sid (map ci_client_id inputs) d"
    by (auto simp: uniform_bulk_insert_def tx_bind_eq_Inr tx_return_def validate_inputs_eq_Inr)
  from insert_rows_Inr [OF ins] obtain new where
    new: "d' = set_uniform_table rt (uniform_table rt d @ new) d"
      "map pg_client_id new = map ci_client_id ?is" "\<forall>r \<in> set new. pg_session_id r = sid"
      "map (\<lambda>r. (pg_start_ms r, pg_end_ms r)) new = map (\<lambda>i. (ci_start_ms i, ci_end_ms i)) ?is"
      "list_all2 (\<lambda>r u. row_from_pg rt r = Inr u) new (br_inserted b)" by blast
  have "?is = filter (\<lambda>i. ci_client_id i \<notin> known_ids rt sid d) inputs"
    by (rule filter_cong) (auto simp: existing_client_ids_set)
  with new(2) have ids: "map pg_client_id new =
      filter (\<lambda>c. c \<notin> known_ids rt sid d) (map ci_client_id inputs)"
    by (simp add: filter_map comp_def)
  have "pg_start_ms r \<le> pg_end_ms r" if "r \<in> set new" for r
  proof -
    have "(pg_start_ms r, pg_end_ms r) \<in> set (map (\<lambda>i. (ci_start_ms i, ci_end_ms i)) ?is)"
      using that by (simp only: new(4) [symmetric]) auto
    then show ?thesis using val by (auto simp: input_ok_def)
  qed
  with new ids dup val show ?thesis by blast
qed

lemma bulk_create_route_Inr:
  assumes "bulk_create_route rt ev svc sid req w = (Inr b, w')"
  shows "\<exists>d guild au. uniform_bulk_insert rt (ev_db_now ev 0) (ev_row_id ev) (ev_tag ev) sid svc
      (bulk_request_take rt req) (w_db w) = Inr (b, d) \<and>
    guild_id_for_session sid (w_db w) = Inr guild \<and>
    w_db w' = d\<lparr>t_audit_log := t_audit_log d @ au\<rparr> \<and> length au = length (br_inserted b) \<and>
    w_events w' = w_events w @
      map (\<lambda>(j, row). created_event rt (ev_utc_now ev j)
        \<lparr>rr_session_id = sid, rr_guild_id = guild, rr_id = un_id row\<rparr>)
        (enumerate 0 (br_inserted b))"
proof -
  from assms obtain d guild u where
    "uniform_bulk_insert rt (ev_db_now ev 0) (ev_row_id ev) (ev_tag ev) sid svc
      (bulk_request_take rt req) (w_db w) = Inr (b, d)"
    "guild_id_for_session sid (w_db w) = Inr guild"
    and an: "announce_rows rt ev svc sid guild 0 (br_inserted b) (w\<lparr>w_db := d\<rparr>) = (Inr u, w')"
    by (auto simp: bulk_create_route_def h_bind_eq_Inr run_tx_eq_Inr)
  with announce_rows_Inr [OF an] show ?thesis by auto
qed

text \<open>C22. A bulk create that succeeds appends, in the order of the request, exactly one row of the
  session for each input whose client id the session does not have yet, every one with ordered
  bounds; it answers with those rows as they decode and with the ids it knew already, announces
  each new row once, writes one audit entry per row, and changes neither the other two tables nor
  the sessions.\<close>

theorem bulk_create_effect:
  assumes run: "bulk_create_route rt ev svc sid req w = (Inr b, w')"
  shows "\<exists>new guild. uniform_table rt (w_db w') = uniform_table rt (w_db w) @ new \<and>
    map pg_client_id new = filter (\<lambda>c. c \<notin> known_ids rt sid (w_db w))
      (map ci_client_id (bulk_request_take rt req)) \<and>
    (\<forall>r \<in> set new. pg_session_id r = sid \<and> pg_start_ms r \<le> pg_end_ms r) \<and>
    list_all2 (\<lambda>r u. row_from_pg rt r = Inr u) new (br_inserted b) \<and>
    set (br_deduplicated_client_ids b) =
      known_ids rt sid (w_db w) \<inter> set (map ci_client_id (bulk_request_take rt req)) \<and>
    w_events w' = w_events w @
      map (\<lambda>(j, row). created_event rt (ev_utc_now ev j)
        \<lparr>rr_session_id = sid, rr_guild_id = guild, rr_id = un_id row\<rparr>)
        (enumerate 0 (br_inserted b)) \<and>
    length (t_audit_log (w_db w')) = length (t_audit_log (w_db w)) + length new \<and>
    (\<forall>rt'. rt' \<noteq> rt \<longrightarrow> uniform_table rt' (w_db w') = uniform_table rt' (w_db w)) \<and>
    t_sessions (w_db w') = t_sessions (w_db w)"
proof -
  from bulk_create_route_Inr [OF run] obtain d guild au where
    ins: "uniform_bulk_insert rt (ev_db_now ev 0) (ev_row_id ev) (ev_tag ev) sid svc
      (bulk_request_take rt req) (w_db w) = Inr (b, d)"
    and w': "w_db w' = d\<lparr>t_audit_log := t_audit_log d @ au\<rparr>" "length au = length (br_inserted b)"
    and evs: "w_events w' = w_events w @
      map (\<lambda>(j, row). created_event rt (ev_utc_now ev j)
        \<lparr>rr_session_id = sid, rr_guild_id = guild, rr_id = un_id row\<rparr>)
        (enumerate 0 (br_inserted b))"
    by blast
  from uniform_bulk_insert_Inr [OF ins] obtain new where
    new: "d = set_uniform_table rt (uniform_table rt (w_db w) @ new) (w_db w)"
      "map pg_client_id new = filter (\<lambda>c. c \<notin> known_ids rt sid (w_db w))
        (map ci_client_id (bulk_request_take rt req))"
      "\<forall>r \<in> set new. pg_session_id r = sid \<and> pg_start_ms r \<le> pg_end_ms r"
      "list_all2 (\<lambda>r u. row_from_pg rt r = Inr u) new (br_inserted b)"
      "br_deduplicated_client_ids b =
        existing_client_ids rt sid (map ci_client_id (bulk_request_take rt req)) (w_db w)"
    by blast
  show ?thesis
    by (rule exI [of _ new], rule exI [of _ guild])
      (use new w' evs list_all2_lengthD [OF new(4)] in \<open>simp add: existing_client_ids_set\<close>)
qed

definition sample_input :: "string \<Rightarrow> create_input" where
  "sample_input c = \<lparr>ci_client_id = c, ci_start_ms = 0, ci_end_ms = 5, ci_pseudo_id = None,
     ci_text = Some ''hi'', ci_title = None, ci_summary = None, ci_confidence = None,
     ci_flags = None, ci_original = None, ci_author_user_pseudo_id = None\<rparr>"

definition sample_bulk :: bulk_request where
  "sample_bulk = \<lparr>bq_segments = Some [sample_input ''s1'', sample_input ''s2''], bq_beats = None,
     bq_scenes = None\<rparr>"

lemma sample_bulk_ok:
  "\<exists>b w'. bulk_create_route SEGMENTS sample_env ''bot'' 1 sample_bulk (sample_world sample_docs) =
     (Inr b, w')"
  by (simp add: bulk_create_route_def h_bind_def run_tx_def uniform_bulk_insert_def tx_bind_def
      sample_doc_defs sample_bulk_def sample_input_def guild_id_for_session_def find_session_def
      ok_or_def unwrap_or_def existing_client_ids_def insert_row_in_tx_def uniform_insert_pg_def
      pg_row_of_def author_ok_def pg_client_key_def tx_return_def row_from_pg_def
      decode_opt_pid_def bind_res_def audit_def audit_append_def) (auto simp: image_iff)

theorem bulk_create_effect_witness:
  "\<exists>b w'. bulk_create_route SEGMENTS sample_env ''bot'' 1 sample_bulk (sample_world sample_docs) =
     (Inr b, w') \<and> map pg_client_id (t_segments (w_db w')) = [''s1'', ''s2''] \<and>
     set (br_deduplicated_client_ids b) = {''s1''}"
proof -
  obtain b w' where run: "bulk_create_route SEGMENTS sample_env ''bot'' 1 sample_bulk
      (sample_world sample_docs) = (Inr b, w')" using sample_bulk_ok by blast
  have known: "known_ids SEGMENTS 1 (w_db (sample_world sample_docs)) = {''s1''}"
    by (simp add: known_ids_def sample_doc_defs)
  have ids: "map ci_client_id (bulk_request_take SEGMENTS sample_bulk) = [''s1'', ''s2'']"
    by (simp add: sample_bulk_def sample_input_def unwrap_or_def)
  have old: "map pg_client_id (uniform_table SEGMENTS (w_db (sample_world sample_docs))) = [''s1'']"
    by (simp add: sample_doc_defs)
  obtain new where new: "uniform_table SEGMENTS (w_db w') =
      uniform_table SEGMENTS (w_db (sample_world sample_docs)) @ new"
      "map pg_client_id new = filter (\<lambda>c. c \<notin> {''s1''}) [''s1'', ''s2'']"
      "set (br_deduplicated_client_ids b) = {''s1''} \<inter> set [''s1'', ''s2'']"
    using bulk_create_effect [OF run, unfolded known ids] by (elim exE conjE) (rule that)
  have segs: "map pg_client_id (t_segments (w_db w')) = [''s1'', ''s2'']"
    using arg_cong [OF new(1), of "map pg_client_id"] old new(2) by simp
  have dup: "set (br_deduplicated_client_ids b) = {''s1''}" using new(3) by simp
  show ?thesis
    by (rule exI [of _ b], rule exI [of _ w'], intro conjI) (rule run segs dup)+
qed

text \<open>C23. Bulk creates are idempotent: the same request again, sent while the tables are as the
  first one left them, inserts nothing and changes nothing, and names every client id of the
  request as known.\<close>

theorem bulk_retry_inserts_nothing:
  assumes first: "bulk_create_route rt ev svc sid req w = (Inr b, w')"
    and later: "uniform_table rt (w_db w2) = uniform_table rt (w_db w')"
      "t_sessions (w_db w2) = t_sessions (w_db w')"
  shows "\<exists>ids. bulk_create_route rt ev2 svc2 sid req w2 =
      (Inr \<lparr>br_inserted = [], br_deduplicated_client_ids = ids\<rparr>, w2) \<and>
    set ids = set (map ci_client_id (bulk_request_take rt req))"
proof -
  let ?inputs = "bulk_request_take rt req"
  from bulk_create_route_Inr [OF first] obtain d guild au where
    ins: "uniform_bulk_insert rt (ev_db_now ev 0) (ev_row_id ev) (ev_tag ev) sid svc
      ?inputs (w_db w) = Inr (b, d)"
    and guild: "guild_id_for_session sid (w_db w) = Inr guild"
    and w': "w_db w' = d\<lparr>t_audit_log := t_audit_log d @ au\<rparr>" by blast
  from uniform_bulk_insert_Inr [OF ins] obtain new where
    d: "d = set_uniform_table rt (uniform_table rt (w_db w) @ new) (w_db w)"
    and ids: "map pg_client_id new = filter (\<lambda>c. c \<notin> known_ids rt sid (w_db w))
        (map ci_client_id ?inputs)"
    and sid: "\<forall>r \<in> set new. pg_session_id r = sid"
    and ok: "\<forall>i \<in> set ?inputs. input_ok rt i" by blast
  have "known_ids rt sid (w_db w2) = known_ids rt sid (w_db w) \<union> pg_client_id ` set new"
    using sid by (auto simp: known_ids_def later(1) w' d)
  moreover have "pg_client_id ` set new =
      set (filter (\<lambda>c. c \<notin> known_ids rt sid (w_db w)) (map ci_client_id ?inputs))"
    using ids by (metis set_map)
  ultimately have known: "set (map ci_client_id ?inputs) \<subseteq> known_ids rt sid (w_db w2)" by auto
  let ?ids = "existing_client_ids rt sid (map ci_client_id ?inputs) (w_db w2)"
  have "t_sessions (w_db w2) = t_sessions (w_db w)" by (simp add: later(2) w' d)
  then have guild2: "guild_id_for_session sid (w_db w2) = Inr guild"
    using guild by (simp add: guild_id_for_session_def find_session_def)
  have none: "filter (\<lambda>i. ci_client_id i \<notin> set ?ids) ?inputs = []"
    using known by (auto simp: existing_client_ids_set filter_empty_conv)
  have "validate_inputs rt ?inputs = Inr ()" using ok by (simp add: validate_inputs_eq_Inr)
  then have "uniform_bulk_insert rt (ev_db_now ev2 0) (ev_row_id ev2) (ev_tag ev2) sid svc2 ?inputs
      (w_db w2) = Inr (\<lparr>br_inserted = [], br_deduplicated_client_ids = ?ids\<rparr>, w_db w2)"
    using none
    by (simp add: uniform_bulk_insert_def tx_bind_def tx_return_def existing_client_ids_def)
  then have "bulk_create_route rt ev2 svc2 sid req w2 =
      (Inr \<lparr>br_inserted = [], br_deduplicated_client_ids = ?ids\<rparr>, w2)"
    by (simp add: bulk_create_route_def h_bind_def guild2 run_tx_def)
  moreover have "set ?ids = set (map ci_client_id ?inputs)"
    using known by (auto simp: existing_client_ids_set)
  ultimately show ?thesis by blast
qed

theorem bulk_retry_inserts_nothing_witness:
  "\<exists>b w' ids. bulk_create_route SEGMENTS sample_env ''bot'' 1 sample_bulk (sample_world sample_docs) =
     (Inr b, w') \<and> bulk_create_route SEGMENTS sample_env2 ''bot'' 1 sample_bulk w' =
     (Inr \<lparr>br_inserted = [], br_deduplicated_client_ids = ids\<rparr>, w')"
proof -
  obtain b w' where run: "bulk_create_route SEGMENTS sample_env ''bot'' 1 sample_bulk
      (sample_world sample_docs) = (Inr b, w')" using sample_bulk_ok by blast
  from bulk_retry_inserts_nothing [OF run refl refl, of sample_env2 "''bot''"] run
  show ?thesis by blast
qed

text \<open>A bulk create for a session that exists is rejected as a bad request, before anything
  is written, when some input lacks the text (a segment) or the title (a beat or scene) its table
  requires, or ends before it starts.\<close>

theorem bulk_invalid_rejected:
  assumes s: "find_session sid (w_db w) = Some s" and i: "i \<in> set (bulk_request_take rt req)"
    and bad: "(rt = SEGMENTS \<and> ci_text i = None) \<or> (rt \<noteq> SEGMENTS \<and> ci_title i = None) \<or>
      ci_end_ms i < ci_start_ms i"
  shows "\<exists>m. bulk_create_route rt ev svc sid req w = (Inl (BadRequest m), w)"
proof -
  have "\<not> input_ok rt i" using bad by (cases rt) (auto simp: input_ok_def)
  with i have "validate_inputs rt (bulk_request_take rt req) \<noteq> Inr ()"
    by (auto simp: validate_inputs_eq_Inr)
  then obtain m where "validate_inputs rt (bulk_request_take rt req) = Inl (BadRequest m)"
    using validate_inputs_error by (metis old.unit.exhaust sum.exhaust_sel isl_def)
  moreover have "bulk_request_take rt req \<noteq> []" using i by auto
  ultimately have "bulk_create_route rt ev svc sid req w = (Inl (BadRequest m), w)"
    using s
    by (simp add: bulk_create_route_def h_bind_def guild_id_for_session_def ok_or_def run_tx_def
        uniform_bulk_insert_def tx_bind_def)
  then show ?thesis by blast
qed

theorem bulk_invalid_rejected_witness:
  "\<exists>m. bulk_create_route BEATS sample_env ''bot'' 1
     \<lparr>bq_segments = None, bq_beats = Some [sample_input ''b1''], bq_scenes = None\<rparr>
     (sample_world sample_docs) = (Inl (BadRequest m), sample_world sample_docs)"
  by (rule bulk_invalid_rejected [where s = "sample_session Recording" and i = "sample_input ''b1''"])
    (simp_all add: sample_doc_defs sample_input_def find_session_def unwrap_or_def)

subsection \<open>Listing rows\<close>

lemma insort_key_lex:
  assumes "sorted_wrt (\<lambda>a b. f a < f b \<or> f a = f b \<and> g a \<le> g b) ys" and "\<forall>y \<in> set ys. g x \<le> g y"
  shows "sorted_wrt (\<lambda>a b. f a < f b \<or> f a = f b \<and> g a \<le> g b) (insort_key f x ys)"
  using assms by (induction ys) (auto simp: set_insort_key)

lemma sort_key_lex:
  fixes f :: "'a \<Rightarrow> 'b :: linorder" and g :: "'a \<Rightarrow> 'c :: linorder"
  assumes "sorted (map g xs)"
  shows "sorted_wrt (\<lambda>a b. f a < f b \<or> f a = f b \<and> g a \<le> g b) (sort_key f xs)"
  using assms by (induction xs) (auto intro!: insort_key_lex)

lemma collect_rows_ok:
  assumes "\<forall>r \<in> set rs. \<exists>u. row_from_pg rt r = Inr u"
  shows "\<exists>us. collect_rows rt rs = Inr us \<and> map un_id us = map pg_id rs \<and>
    map un_start_ms us = map pg_start_ms rs"
  using assms
proof (induction rs)
  case (Cons r rs)
  then obtain u us where "row_from_pg rt r = Inr u" "collect_rows rt rs = Inr us"
    "map un_id us = map pg_id rs" "map un_start_ms us = map pg_start_ms rs" by auto
  then show ?case
    using row_from_pg_fields [of rt r u] by (intro exI [of _ "u # us"]) simp
qed simp

lemma sorted_wrt_columns:
  assumes "map f us = map f' rs" and "map g us = map g' rs"
    and "sorted_wrt (\<lambda>a b. R (f' a) (g' a) (f' b) (g' b)) rs"
  shows "sorted_wrt (\<lambda>a b. R (f a) (g a) (f b) (g b)) us"
proof -
  have "length us = length rs" using assms(1) by (metis length_map)
  moreover have "f (us ! i) = f' (rs ! i)" "g (us ! i) = g' (rs ! i)" if "i < length us" for i
    using that assms(1,2) calculation by (metis nth_map)+
  ultimately show ?thesis using assms(3) by (simp add: sorted_wrt_iff_nth_less)
qed

text \<open>C40. Listing the rows of a session: segments are answered completely (each of the session that
  starts at the asked time or later, once), ordered by start and then by id; beats and scenes can
  never be listed, because the statement names a column their tables do not have, and the request
  is answered with 500.\<close>

theorem rows_list:
  assumes inv: "service_inv (w_db w)"
  shows "(\<exists>us. list_rows_route SEGMENTS sid \<lparr>lq_pseudo_id = None, lq_since_ms = since\<rparr> w = (Inr us, w) \<and>
      sorted_wrt (\<lambda>a b. un_start_ms a < un_start_ms b \<or>
        un_start_ms a = un_start_ms b \<and> un_id a \<le> un_id b) us \<and> distinct (map un_id us) \<and>
      set (map un_id us) = pg_id ` {r \<in> set (t_segments (w_db w)). pg_session_id r = sid \<and>
        (\<forall>t. since = Some t \<longrightarrow> t \<le> pg_start_ms r)}) \<and>
    (rt = BEATS \<or> rt = SCENES \<longrightarrow>
      list_rows_route rt sid \<lparr>lq_pseudo_id = None, lq_since_ms = since\<rparr> w =
        (Inl (Database (Undefined_column ''pseudo_id'')), w))"
proof -
  let ?p = "\<lambda>r. pg_session_id r = sid \<and> opt_matches since (\<lambda>t. t \<le> pg_start_ms r)"
  let ?xs = "filter ?p (t_segments (w_db w))"
  let ?rs = "sort_key pg_start_ms (sort_key pg_id ?xs)"
  have "\<forall>r \<in> set ?rs. \<exists>u. row_from_pg SEGMENTS r = Inr u"
    using all_rows_decodeD [OF service_invD(4) [OF inv], of SEGMENTS] by (auto simp: rows_decode_def)
  from collect_rows_ok [OF this] obtain us where us: "collect_rows SEGMENTS ?rs = Inr us"
    "map un_id us = map pg_id ?rs" "map un_start_ms us = map pg_start_ms ?rs" by blast
  have "sorted_wrt (\<lambda>a b. pg_start_ms a < pg_start_ms b \<or>
      pg_start_ms a = pg_start_ms b \<and> pg_id a \<le> pg_id b) ?rs"
    by (rule sort_key_lex) simp
  with us(2,3) have srt: "sorted_wrt (\<lambda>a b. un_start_ms a < un_start_ms b \<or>
      un_start_ms a = un_start_ms b \<and> un_id a \<le> un_id b) us"
    using sorted_wrt_columns [where f = un_start_ms and g = un_id and
        R = "\<lambda>s i s' i'. s < s' \<or> s = s' \<and> i \<le> i'"] by blast
  have "distinct (map pg_id (t_segments (w_db w)))"
    using service_invD(1) [OF inv] by (simp add: db_wf_def uniform_wf_def)
  then have "distinct (map pg_id ?rs)"
    by (auto simp: distinct_map intro: inj_on_subset)
  then have dist: "distinct (map un_id us)" by (simp only: us(2))
  have ids: "set (map un_id us) = pg_id ` {r \<in> set (t_segments (w_db w)). pg_session_id r = sid \<and>
      (\<forall>t. since = Some t \<longrightarrow> t \<le> pg_start_ms r)}"
    unfolding us(2) by (cases since) auto
  have "list_rows_route SEGMENTS sid \<lparr>lq_pseudo_id = None, lq_since_ms = since\<rparr> w = (Inr us, w)"
    using us(1) by (simp add: list_rows_route_def parse_opt_pid_def h_bind_def
        uniform_list_by_session_def has_pseudo_id_column_def)
  then show ?thesis
    using srt dist ids
    by (auto simp: list_rows_route_def parse_opt_pid_def h_bind_def uniform_list_by_session_def
        has_pseudo_id_column_def)
qed

theorem rows_list_witness:
  "\<exists>us. list_rows_route SEGMENTS 1 \<lparr>lq_pseudo_id = None, lq_since_ms = None\<rparr>
     (sample_world sample_docs) = (Inr us, sample_world sample_docs) \<and>
   set (map un_id us) = {pg_id sample_segment}"
proof -
  have "service_inv (w_db (sample_world sample_docs))"
    by (simp add: sample_world_def sample_docs_inv)
  moreover have "t_segments (w_db (sample_world sample_docs)) = [sample_segment]"
    "pg_session_id sample_segment = 1"
    by (simp_all add: sample_docs_def sample_world_def sample_segment_def)
  moreover have "pg_id ` {r \<in> set [sample_segment]. pg_session_id r = 1} = {pg_id sample_segment}"
    using calculation(3) by auto
  ultimately show ?thesis
    using rows_list [of "sample_world sample_docs" 1 None SEGMENTS] by auto
qed

end
