(* ===== verification/Speaker_Properties.thy ===== *)
theory Speaker_Properties
  imports Routes_Participants
begin

section \<open>What a wipe, a consent token and an admin grant can do\<close>

text \<open>
  The properties of the routes of \<^verbatim>\<open>src/routes/mute.rs\<close>, \<^verbatim>\<open>consent.rs\<close> and \<^verbatim>\<open>admin.rs\<close>: the
  exact effect of the two ways to erase a speaker's audio, the gate a consent token is, what can
  be changed through it, and the effect of the grant endpoint. \<open>speaker_wiped\<close> is the contract
  both wipes are shown to meet.
\<close>

subsection \<open>Properties of the wipe\<close>

definition sample_participant :: participant where
  "sample_participant = \<lparr>par_id = 30, par_session_id = 1, par_pseudo_id = sample_pid,
     par_consent_scope = Some ''full'', par_consented_at = Some 6, par_mid_session_join = False,
     par_no_llm_training = False, par_no_public_release = False, par_data_wiped_at = None,
     par_created_at = 5\<rparr>"

definition sample_chunk :: chunk_row where
  "sample_chunk = \<lparr>ch_session_id = 1, ch_pseudo_id = sample_pid, ch_seq = 0,
     ch_s3_key = chunk_s3_key ''sessions/1'' sample_pid 0, ch_size_bytes = 3,
     ch_capture_started_at = 7, ch_duration_ms = 2000, ch_client_chunk_id = ''c1'',
     ch_created_at = 8\<rparr>"

definition sample_token :: consent_token where
  "sample_token = \<lparr>ct_token = 40, ct_session_id = 1, ct_participant_id = 30,
     ct_pseudo_id = sample_pid, ct_created_at = 6, ct_expires_at = 6 + token_lifetime,
     ct_revoked_at = None\<rparr>"

definition sample_speaker_db :: database where
  "sample_speaker_db = (sample_db Uploaded)\<lparr>
     t_users := [\<lparr>usr_pseudo_id = sample_pid, usr_is_admin = False, usr_data_wiped_at = None, usr_created_at = 5\<rparr>],
     t_participants := [sample_participant], t_chunks := [sample_chunk],
     t_consent_tokens := [sample_token]\<rparr>"

lemmas sample_speaker_defs = sample_speaker_db_def sample_participant_def sample_chunk_def
  sample_token_def token_lifetime_def sample_defs

definition marked_wiped :: "time \<Rightarrow> uuid \<Rightarrow> pseudo_id \<Rightarrow> database \<Rightarrow> database" where
  "marked_wiped now sid p d = d\<lparr>t_participants :=
     update_rows (\<lambda>q. par_session_id q = sid \<and> par_pseudo_id q = p)
       (\<lambda>q. q\<lparr>par_data_wiped_at := Some now\<rparr>) (t_participants d)\<rparr>"

text \<open>
  What both wipes do once they have their session and speaker, in the terms of the tables: the
  audio, the segments and the mute ranges of the speaker in that session are gone, nothing else is.
\<close>

definition speaker_wiped ::
    "'s app_state \<Rightarrow> env \<Rightarrow> uuid \<Rightarrow> pseudo_id \<Rightarrow> time \<Rightarrow> 's world \<Rightarrow> 's world \<Rightarrow> bool" where
  "speaker_wiped st ev sid p now w w' \<longleftrightarrow>
     (\<exists>a. w_db w' = (marked_wiped now sid p (wiped_participant sid p (w_db w)))\<lparr>
        t_audit_log := t_audit_log (w_db w) @ [a]\<rparr>) \<and>
     w_store w' = (if stream_keys sid p (w_db w) = [] then w_store w
       else snd (os_delete_many (st_store st) (stream_keys sid p (w_db w)) (w_store w))) \<and>
     (\<exists>guild. map_option ses_guild_id (find_session sid (w_db w)) = Some guild \<and>
        w_events w' = w_events w @ [audio_deleted_event ev sid guild p])"

lemma find_session_wiped [simp]:
  "find_session i (marked_wiped now sid p d) = find_session i d"
  "find_session i (wiped_participant sid p d) = find_session i d"
  "find_session i (d\<lparr>t_audit_log := a\<rparr>) = find_session i d"
  by (simp_all add: find_session_def marked_wiped_def wiped_participant_def)

lemma mark_wiped_apply:
  "participants_mark_wiped now sid p d = Inr ((), marked_wiped now sid p d)"
  by (simp add: participants_mark_wiped_def marked_wiped_def)

lemma marked_wiped_audit:
  "marked_wiped now sid p (d\<lparr>t_audit_log := a\<rparr>) = (marked_wiped now sid p d)\<lparr>t_audit_log := a\<rparr>"
  by (simp add: marked_wiped_def)

lemma sweep_keys_world:
  "sweep_keys st keys w = (Inr (), w\<lparr>w_store := (if keys = [] then w_store w
     else snd (os_delete_many (st_store st) keys (w_store w)))\<rparr>)"
  by (simp add: sweep_keys_eq)

lemma wipe_route_wipes:
  assumes "wipe_participant_audio_route st ev svc sid raw w = (Inr j, w')"
  shows "is_valid_pseudo_id raw \<and> speaker_wiped st ev sid (PseudoId raw) (ev_db_now ev 1) w w'"
proof -
  from assms obtain keys segs mutes d guild where raw: "is_valid_pseudo_id raw"
    and tx: "wipe_tx (ev_db_now ev 0) (ev_audit_id ev 0) svc sid (PseudoId raw) (w_db w) =
      Inr ((keys, segs, mutes), d)"
    and guild: "guild_id_for_session sid (marked_wiped (ev_db_now ev 1) sid (PseudoId raw) d) =
      Inr guild"
    and w': "w_db w' = marked_wiped (ev_db_now ev 1) sid (PseudoId raw) d"
      "w_store w' = (if keys = [] then w_store w
         else snd (os_delete_many (st_store st) keys (w_store w)))"
      "w_events w' = w_events w @ [audio_deleted_event ev sid guild (PseudoId raw)]"
    by (auto simp: wipe_participant_audio_route_def h_bind_eq_Inr run_tx_eq_Inr sweep_keys_world
        mark_wiped_apply)
  from tx obtain a where d: "keys = stream_keys sid (PseudoId raw) (w_db w)"
    "d = (wiped_participant sid (PseudoId raw) (w_db w))\<lparr>t_audit_log := t_audit_log (w_db w) @ [a]\<rparr>"
    unfolding wipe_tx_eq_Inr by blast
  have "map_option ses_guild_id (find_session sid (w_db w)) = Some guild"
    using guild by (auto simp: d marked_wiped_audit guild_id_for_session_def)
  then show ?thesis
    using raw by (auto simp: speaker_wiped_def w' d marked_wiped_audit)
qed

lemma token_wipe_wipes:
  assumes "delete_audio_token_route st ev tok w = (Inr u, w')"
  shows "\<exists>cx. consent_tokens_validate (ev_db_now ev 0) tok (w_db w) = Inr (Some cx) \<and>
    speaker_wiped st ev (ct_session_id (cx_token cx)) (par_pseudo_id (cx_participant cx))
      (ev_db_now ev 2) w w'"
proof -
  from assms obtain cx keys d guild
    where cx: "consent_tokens_validate (ev_db_now ev 0) tok (w_db w) = Inr (Some cx)"
    and tx: "token_wipe_tx (ev_db_now ev 1) (ev_audit_id ev 0) (ses_id (cx_session cx))
      (par_pseudo_id (cx_participant cx)) (w_db w) = Inr (keys, d)"
    and guild: "map_option ses_guild_id (find_session (ses_id (cx_session cx))
      (marked_wiped (ev_db_now ev 2) (ses_id (cx_session cx)) (par_pseudo_id (cx_participant cx)) d)) =
      Some guild"
    and w': "w_db w' = marked_wiped (ev_db_now ev 2) (ses_id (cx_session cx))
        (par_pseudo_id (cx_participant cx)) d"
      "w_store w' = (if keys = [] then w_store w
         else snd (os_delete_many (st_store st) keys (w_store w)))"
      "w_events w' = w_events w @ [audio_deleted_event ev (ses_id (cx_session cx)) guild
        (par_pseudo_id (cx_participant cx))]"
    by (auto simp: delete_audio_token_route_def Let_def validated_def h_bind_eq_Inr run_tx_eq_Inr
        sweep_keys_world mark_wiped_apply)
  have sid: "ses_id (cx_session cx) = ct_session_id (cx_token cx)"
    using validate_SomeD(4) [OF cx] by (auto dest: find_session_SomeD)
  from tx obtain a where d: "keys = stream_keys (ses_id (cx_session cx))
      (par_pseudo_id (cx_participant cx)) (w_db w)"
    "d = (wiped_participant (ses_id (cx_session cx)) (par_pseudo_id (cx_participant cx)) (w_db w))
      \<lparr>t_audit_log := t_audit_log (w_db w) @ [a]\<rparr>"
    unfolding token_wipe_tx_eq_Inr by blast
  show ?thesis
    using cx guild by (intro exI [of _ cx]) (auto simp: speaker_wiped_def w' d marked_wiped_audit sid)
qed

lemma speaker_wiped_tables:
  assumes "speaker_wiped st ev sid p now w w'"
  shows "t_chunks (w_db w') = filter (\<lambda>c. \<not> in_stream sid p c) (t_chunks (w_db w))"
    "t_segments (w_db w') = filter (\<lambda>r. \<not> of_participant sid p r) (t_segments (w_db w))"
    "t_mute_ranges (w_db w') = filter (\<lambda>m. \<not> of_speaker sid p m) (t_mute_ranges (w_db w))"
  using assms
  by (auto simp: speaker_wiped_def marked_wiped_def wiped_participant_def delete_rows_def)

text \<open>C17. A wipe of a participant's audio that succeeds removes all chunks, segments and mute ranges
  of that speaker in that session and no others, stamps exactly the speaker's participant rows,
  leaves every other table but the audit log alone, and announces the deletion once; the stream
  numbers its next chunk from 0 again. Objects of other keys are untouched, and if the sweep of
  the object store succeeds, every object of the speaker's chunks is gone.\<close>

theorem wipe_participant_effect:
  assumes store: "object_store (st_store st) contents"
    and run: "wipe_participant_audio_route st ev svc sid raw w = (Inr j, w')"
  shows "t_chunks (w_db w') = filter (\<lambda>c. \<not> in_stream sid (PseudoId raw) c) (t_chunks (w_db w)) \<and>
    t_segments (w_db w') =
      filter (\<lambda>r. \<not> of_participant sid (PseudoId raw) r) (t_segments (w_db w)) \<and>
    t_mute_ranges (w_db w') =
      filter (\<lambda>m. \<not> of_speaker sid (PseudoId raw) m) (t_mute_ranges (w_db w)) \<and>
    t_participants (w_db w') = map (\<lambda>q. if par_session_id q = sid \<and> par_pseudo_id q = PseudoId raw
      then q\<lparr>par_data_wiped_at := Some (ev_db_now ev 1)\<rparr> else q) (t_participants (w_db w)) \<and>
    (\<exists>a. w_db w' = (w_db w)\<lparr>t_chunks := t_chunks (w_db w'), t_segments := t_segments (w_db w'),
       t_mute_ranges := t_mute_ranges (w_db w'), t_participants := t_participants (w_db w'),
       t_audit_log := t_audit_log (w_db w) @ [a]\<rparr>) \<and>
    next_seq sid (PseudoId raw) (w_db w') = 0 \<and>
    (\<exists>guild. w_events w' = w_events w @ [audio_deleted_event ev sid guild (PseudoId raw)]) \<and>
    (\<forall>key. key \<notin> set (stream_keys sid (PseudoId raw) (w_db w)) \<longrightarrow>
       contents (w_store w') key = contents (w_store w) key) \<and>
    (\<forall>n s'. os_delete_many (st_store st) (stream_keys sid (PseudoId raw) (w_db w)) (w_store w) =
        (Inr n, s') \<longrightarrow>
       (\<forall>key \<in> set (stream_keys sid (PseudoId raw) (w_db w)). contents (w_store w') key = None))"
proof -
  let ?p = "PseudoId raw" and ?keys = "stream_keys sid (PseudoId raw) (w_db w)"
  have wiped: "speaker_wiped st ev sid ?p (ev_db_now ev 1) w w'"
    using wipe_route_wipes [OF run] by simp
  then obtain a where db: "w_db w' = (marked_wiped (ev_db_now ev 1) sid ?p
      (wiped_participant sid ?p (w_db w)))\<lparr>t_audit_log := t_audit_log (w_db w) @ [a]\<rparr>"
    and st': "w_store w' = (if ?keys = [] then w_store w
      else snd (os_delete_many (st_store st) ?keys (w_store w)))"
    and evs: "\<exists>guild. w_events w' = w_events w @ [audio_deleted_event ev sid guild ?p]"
    unfolding speaker_wiped_def by blast
  have rest: "\<exists>a. w_db w' = (w_db w)\<lparr>t_chunks := t_chunks (w_db w'),
       t_segments := t_segments (w_db w'), t_mute_ranges := t_mute_ranges (w_db w'),
       t_participants := t_participants (w_db w'), t_audit_log := t_audit_log (w_db w) @ [a]\<rparr>"
    by (rule exI [of _ a]) (simp add: db marked_wiped_def wiped_participant_def)
  have pars: "t_participants (w_db w') = map (\<lambda>q. if par_session_id q = sid \<and> par_pseudo_id q = ?p
      then q\<lparr>par_data_wiped_at := Some (ev_db_now ev 1)\<rparr> else q) (t_participants (w_db w))"
    by (simp add: db marked_wiped_def wiped_participant_def update_rows_def)
  have seq: "next_seq sid ?p (w_db w') = 0"
    by (simp add: next_seq_def stream_rows_def speaker_wiped_tables [OF wiped] max_seq_def)
  have frame: "contents (w_store w') key = contents (w_store w) key" if "key \<notin> set ?keys" for key
    using that object_store.delete_frame [OF store, of ?keys "w_store w"]
    by (cases "os_delete_many (st_store st) ?keys (w_store w)") (simp add: st')
  have swept: "contents (w_store w') key = None"
    if "os_delete_many (st_store st) ?keys (w_store w) = (Inr n, s')" "key \<in> set ?keys" for n s' key
    using that object_store.delete_contents [OF store that(1)] by (auto simp: st')
  show ?thesis
    by (intro conjI allI impI ballI)
      (fact speaker_wiped_tables [OF wiped] pars rest seq evs | rule frame swept; assumption)+
qed

lemma sample_wipe_ok:
  "\<exists>j w'. wipe_participant_audio_route sample_state sample_env ''bot'' 1 (pid_str sample_pid)
     (sample_world sample_speaker_db) = (Inr j, w')"
  by (simp add: wipe_participant_audio_route_def h_bind_def run_tx_def wipe_tx_def tx_bind_def
      chunks_delete_for_participant_def uniform_delete_for_participant_segments_def
      mute_ranges_delete_for_participant_def audit_append_tx_eq audit_append_def tx_return_def
      mark_wiped_apply sweep_keys_world guild_id_for_session_def ok_or_def pseudo_id_new_def
      sample_speaker_defs find_session_def marked_wiped_def)

theorem wipe_participant_effect_witness:
  "\<exists>j w'. wipe_participant_audio_route sample_state sample_env ''bot'' 1 (pid_str sample_pid)
     (sample_world sample_speaker_db) = (Inr j, w') \<and> t_chunks (w_db w') = [] \<and>
     next_seq 1 sample_pid (w_db w') = 0"
proof -
  obtain j w' where run: "wipe_participant_audio_route sample_state sample_env ''bot'' 1
      (pid_str sample_pid) (sample_world sample_speaker_db) = (Inr j, w')"
    using sample_wipe_ok by blast
  have store: "object_store (st_store sample_state) (\<lambda>m. m)"
    using mem.object_store_axioms by (simp add: sample_state_def)
  have "t_chunks (w_db w') = []" "next_seq 1 sample_pid (w_db w') = 0"
    using wipe_participant_effect [OF store run] by (simp_all add: sample_speaker_defs in_stream_def)
  with run show ?thesis by blast
qed

text \<open>C18. The two ways to wipe a speaker's audio agree: where the participant row of a consent token
  belongs to the token's session, the token's \<^verbatim>\<open>DELETE\<close> and the internal one leave the same
  chunks, segments, mute ranges and objects behind and announce the same event.\<close>

theorem token_wipe_equals_wipe:
  assumes internal: "wipe_participant_audio_route st ev svc (ses_id (cx_session cx))
      (pid_str (par_pseudo_id (cx_participant cx))) w = (Inr j, w1)"
    and via_token: "delete_audio_token_route st ev tok w = (Inr u, w2)"
    and cx: "consent_tokens_validate (ev_db_now ev 0) tok (w_db w) = Inr (Some cx)"
  shows "t_chunks (w_db w1) = t_chunks (w_db w2) \<and> t_segments (w_db w1) = t_segments (w_db w2) \<and>
    t_mute_ranges (w_db w1) = t_mute_ranges (w_db w2) \<and> w_store w1 = w_store w2 \<and>
    w_events w1 = w_events w2"
proof -
  let ?sid = "ses_id (cx_session cx)" and ?p = "par_pseudo_id (cx_participant cx)"
  have one: "speaker_wiped st ev ?sid ?p (ev_db_now ev 1) w w1"
    using wipe_route_wipes [OF internal] by simp
  have "?sid = ct_session_id (cx_token cx)"
    using validate_SomeD(4) [OF cx] by (auto dest: find_session_SomeD)
  then have two: "speaker_wiped st ev ?sid ?p (ev_db_now ev 2) w w2"
    using token_wipe_wipes [OF via_token] cx by auto
  have "w_store w1 = w_store w2" "w_events w1 = w_events w2"
    using one two by (auto simp: speaker_wiped_def)
  then show ?thesis
    by (simp add: speaker_wiped_tables [OF one] speaker_wiped_tables [OF two])
qed

lemma sample_token_cx:
  "consent_tokens_validate (ev_db_now sample_env 0) 40 sample_speaker_db =
     Inr (Some \<lparr>cx_token = sample_token, cx_session = sample_session Uploaded,
       cx_participant = sample_participant\<rparr>)"
  by (simp add: consent_tokens_validate_def sample_speaker_defs token_valid_def find_session_def
      find_participant_def fetch_one_def ok_or_def)

lemma sample_token_wipe_ok:
  "\<exists>w'. delete_audio_token_route sample_state sample_env 40 (sample_world sample_speaker_db) =
     (Inr (), w')"
  by (simp add: consent_tokens_validate_def token_valid_def find_participant_def Let_def
      delete_audio_token_route_def validated_def h_bind_def run_tx_def token_wipe_tx_def
      tx_bind_def chunks_delete_for_participant_def uniform_delete_for_participant_segments_def
      mute_ranges_delete_for_participant_def audit_append_tx_eq audit_append_def tx_return_def
      mark_wiped_apply sweep_keys_world ok_or_def fetch_one_def sample_speaker_defs
      find_session_def marked_wiped_def)

theorem token_wipe_equals_wipe_witness:
  "\<exists>j w1 w2. wipe_participant_audio_route sample_state sample_env ''bot'' 1 (pid_str sample_pid)
       (sample_world sample_speaker_db) = (Inr j, w1) \<and>
     delete_audio_token_route sample_state sample_env 40 (sample_world sample_speaker_db) =
       (Inr (), w2) \<and> w_store w1 = w_store w2"
proof -
  let ?cx = "\<lparr>cx_token = sample_token, cx_session = sample_session Uploaded,
       cx_participant = sample_participant\<rparr>"
  obtain j w1 where one: "wipe_participant_audio_route sample_state sample_env ''bot'' 1
      (pid_str sample_pid) (sample_world sample_speaker_db) = (Inr j, w1)"
    using sample_wipe_ok by blast
  then have one': "wipe_participant_audio_route sample_state sample_env ''bot''
      (ses_id (cx_session ?cx)) (pid_str (par_pseudo_id (cx_participant ?cx)))
      (sample_world sample_speaker_db) = (Inr j, w1)"
    by (simp add: sample_session_def sample_participant_def)
  obtain w2 where two: "delete_audio_token_route sample_state sample_env 40
      (sample_world sample_speaker_db) = (Inr (), w2)" using sample_token_wipe_ok by blast
  have cx: "consent_tokens_validate (ev_db_now sample_env 0) 40
      (w_db (sample_world sample_speaker_db)) = Inr (Some ?cx)"
    using sample_token_cx by (simp add: sample_world_def)
  show ?thesis using one two token_wipe_equals_wipe [OF one' two cx] by blast
qed

subsection \<open>Properties of the consent tokens\<close>

text \<open>C32. The consent routes are open exactly to the holder of a valid token: if no row with this
  token is unrevoked and unexpired, all three routes answer that it was not found and change
  nothing; if there is one, the read answers with it, its session and its participant.\<close>

theorem consent_token_gate:
  assumes inv: "service_inv (w_db w)"
  shows "((\<exists>t \<in> set (t_consent_tokens (w_db w)). ct_token t = tok \<and> ct_revoked_at t = None \<and>
        ev_db_now ev 0 < ct_expires_at t) \<longrightarrow>
      (\<exists>cx. get_consent_route ev tok w = (Inr cx, w) \<and> ct_token (cx_token cx) = tok \<and>
        token_valid (ev_db_now ev 0) (cx_token cx) \<and>
        ses_id (cx_session cx) = ct_session_id (cx_token cx) \<and>
        par_id (cx_participant cx) = ct_participant_id (cx_token cx))) \<and>
    ((\<forall>t \<in> set (t_consent_tokens (w_db w)). ct_token t = tok \<longrightarrow>
        ct_revoked_at t \<noteq> None \<or> ct_expires_at t \<le> ev_db_now ev 0) \<longrightarrow>
      get_consent_route ev tok w = (Inl token_not_found, w) \<and>
      patch_consent_token_route ev tok body w = (Inl token_not_found, w) \<and>
      delete_audio_token_route st ev tok w = (Inl token_not_found, w))"
proof (intro conjI impI)
  assume "\<exists>t \<in> set (t_consent_tokens (w_db w)). ct_token t = tok \<and> ct_revoked_at t = None \<and>
      ev_db_now ev 0 < ct_expires_at t"
  then obtain t where "List.find (\<lambda>t. ct_token t = tok \<and> token_valid (ev_db_now ev 0) t)
      (t_consent_tokens (w_db w)) = Some t"
    by (cases "List.find (\<lambda>t. ct_token t = tok \<and> token_valid (ev_db_now ev 0) t)
      (t_consent_tokens (w_db w))") (auto simp: find_None_iff token_valid_def)
  moreover obtain r where "consent_tokens_validate (ev_db_now ev 0) tok (w_db w) = Inr r"
    using consent_tokens_validate_total [OF service_invD(1) [OF inv]] by blast
  ultimately obtain cx where cx:
    "consent_tokens_validate (ev_db_now ev 0) tok (w_db w) = Inr (Some cx)"
    by (auto simp: consent_tokens_validate_def bind_res_eq_Inr)
  have "ses_id (cx_session cx) = ct_session_id (cx_token cx)"
    "par_id (cx_participant cx) = ct_participant_id (cx_token cx)"
    using validate_SomeD(4,5) [OF cx]
    by (auto dest: find_session_SomeD find_participant_SomeD)
  with cx validate_SomeD(1,2) [OF cx] show "\<exists>cx. get_consent_route ev tok w = (Inr cx, w) \<and>
      ct_token (cx_token cx) = tok \<and> token_valid (ev_db_now ev 0) (cx_token cx) \<and>
      ses_id (cx_session cx) = ct_session_id (cx_token cx) \<and>
      par_id (cx_participant cx) = ct_participant_id (cx_token cx)"
    by (intro exI [of _ cx]) (simp add: get_consent_route_def validated_def h_bind_def ok_or_def)
next
  assume none: "\<forall>t \<in> set (t_consent_tokens (w_db w)). ct_token t = tok \<longrightarrow>
      ct_revoked_at t \<noteq> None \<or> ct_expires_at t \<le> ev_db_now ev 0"
  have "List.find (\<lambda>t. ct_token t = tok \<and> token_valid (ev_db_now ev 0) t)
      (t_consent_tokens (w_db w)) = None"
    using none by (auto simp: find_None_iff token_valid_def)
  then have v: "validated ev tok w = (Inl token_not_found, w)"
    by (simp add: validated_def consent_tokens_validate_def h_bind_def ok_or_def)
  show "get_consent_route ev tok w = (Inl token_not_found, w)"
    "patch_consent_token_route ev tok body w = (Inl token_not_found, w)"
    "delete_audio_token_route st ev tok w = (Inl token_not_found, w)"
    using v by (simp_all add: get_consent_route_def patch_consent_token_route_def
        delete_audio_token_route_def h_bind_def)
qed

lemma sample_speaker_inv: "service_inv sample_speaker_db"
proof -
  have rows: "uniform_table rt sample_speaker_db = []" for rt
    by (cases rt) (simp_all add: sample_speaker_db_def sample_db_def empty_db_def)
  have stamps: "stamps_ok (sample_session Uploaded)"
    by (simp add: stamps_ok_def sample_session_def)
  have gapless: "streams_gapless (t_chunks sample_speaker_db)"
    by (simp add: streams_gapless_def sample_speaker_db_def sample_chunk_def Let_def)
  have keys: "chunk_keys_ok sample_speaker_db"
    by (simp add: chunk_keys_ok_def sample_speaker_db_def sample_chunk_def sample_db_def
        sample_session_def find_session_def)
  have wf: "db_wf sample_speaker_db"
    by (simp add: db_wf_def table_wf_defs sample_speaker_defs valid_pid_def chunk_pid_ok_def
        consent_scope_ok_def in_int4_def)
  show ?thesis
    using rows stamps gapless keys wf
    by (simp add: service_inv_def facts_inv_def base_facts_def all_rows_decode_def rows_decode_def
        mutes_ordered_def sample_speaker_db_def sample_db_def empty_db_def)
qed

theorem consent_token_gate_witness:
  "(\<exists>cx. get_consent_route sample_env 40 (sample_world sample_speaker_db) =
      (Inr cx, sample_world sample_speaker_db) \<and> ct_token (cx_token cx) = 40) \<and>
   get_consent_route sample_env 41 (sample_world sample_speaker_db) =
      (Inl token_not_found, sample_world sample_speaker_db)"
proof -
  have inv: "service_inv (w_db (sample_world sample_speaker_db))"
    using sample_speaker_inv by (simp add: sample_world_def)
  have "\<exists>cx. get_consent_route sample_env 40 (sample_world sample_speaker_db) =
      (Inr cx, sample_world sample_speaker_db) \<and> ct_token (cx_token cx) = 40"
    using consent_token_gate [OF inv, of 40 sample_env] by (auto simp: sample_speaker_defs)
  moreover have "get_consent_route sample_env 41 (sample_world sample_speaker_db) =
      (Inl token_not_found, sample_world sample_speaker_db)"
    using consent_token_gate [OF inv, of 41 sample_env] by (auto simp: sample_speaker_defs)
  ultimately show ?thesis by blast
qed

lemma find_participant_updated:
  assumes "find_participant i d = Some p" and "\<And>q. par_id (f q) = par_id q"
  shows "find_participant j (d\<lparr>t_participants :=
      update_rows (\<lambda>q. par_id q = i) f (t_participants d)\<rparr>) =
    (if j = i then Some (f p) else find_participant j d)"
proof -
  have "find_participant j (d\<lparr>t_participants :=
      update_rows (\<lambda>q. par_id q = i) f (t_participants d)\<rparr>) =
      map_option (\<lambda>q. if par_id q = i then f q else q) (find_participant j d)"
    unfolding find_participant_def by (simp add: find_update_rows assms(2))
  then show ?thesis
    using assms(1) by (cases "find_participant j d") (auto dest: find_participant_SomeD)
qed

text \<open>What the body of a consent patch asks for, as one change of the participant.\<close>

definition consent_patched :: "time \<Rightarrow> patch_consent_body \<Rightarrow> participant \<Rightarrow> participant" where
  "consent_patched now b p =
     p\<lparr>par_consent_scope := (case pc_consent_scope b of Some s \<Rightarrow> Some s | None \<Rightarrow> par_consent_scope p),
       par_consented_at := (case pc_consent_scope b of Some _ \<Rightarrow> Some now | None \<Rightarrow> par_consented_at p),
       par_no_llm_training := unwrap_or (par_no_llm_training p) (pc_no_llm_training b),
       par_no_public_release := unwrap_or (par_no_public_release p) (pc_no_public_release b)\<rparr>"

lemma consent_patched_steps:
  "pc_consent_scope b = None \<Longrightarrow> pc_no_llm_training b = None \<Longrightarrow> pc_no_public_release b = None \<Longrightarrow>
   consent_patched now b p = p"
  "pc_consent_scope b = Some s \<Longrightarrow> pc_no_llm_training b = None \<Longrightarrow> pc_no_public_release b = None \<Longrightarrow>
   set_consent now \<lparr>uc_consent_scope = s, uc_consented_at = None\<rparr> p = consent_patched now b p"
  "pc_consent_scope b = None \<Longrightarrow>
   set_license \<lparr>ul_no_llm_training = pc_no_llm_training b,
     ul_no_public_release = pc_no_public_release b\<rparr> p = consent_patched now b p"
  "pc_consent_scope b = Some s \<Longrightarrow>
   set_license \<lparr>ul_no_llm_training = pc_no_llm_training b,
     ul_no_public_release = pc_no_public_release b\<rparr>
     (set_consent now \<lparr>uc_consent_scope = s, uc_consented_at = None\<rparr> p) = consent_patched now b p"
  by (simp_all add: consent_patched_def set_consent_def set_license_def unwrap_or_def
      split: option.split)

text \<open>The participant part of the patch, as the two optional updates compute it.\<close>

definition patch_participant ::
    "env \<Rightarrow> uuid \<Rightarrow> patch_consent_body \<Rightarrow> participant \<Rightarrow> ('s, participant) operation" where
  "patch_participant ev i b p =
     h_bind (case pc_consent_scope b of
               None \<Rightarrow> h_return p
             | Some scope \<Rightarrow> run_tx (participants_update_consent (ev_db_now ev 1) i
                 \<lparr>uc_consent_scope = scope, uc_consented_at = None\<rparr>)) (\<lambda>updated0.
     if pc_no_llm_training b \<noteq> None \<or> pc_no_public_release b \<noteq> None
     then run_tx (participants_update_license i
            \<lparr>ul_no_llm_training = pc_no_llm_training b,
             ul_no_public_release = pc_no_public_release b\<rparr>)
     else h_return updated0)"

lemma patch_participant_Inr:
  assumes found: "find_participant i (w_db w) = Some p"
    and ok: "patch_participant ev i b p w = (Inr u, w1)"
  shows "u = consent_patched (ev_db_now ev 1) b p \<and>
    (\<forall>j. find_participant j (w_db w1) = (if j = i then Some u else find_participant j (w_db w))) \<and>
    (\<exists>ps. w1 = w\<lparr>w_db := (w_db w)\<lparr>t_participants := ps\<rparr>\<rparr>) \<and>
    (\<forall>s. pc_consent_scope b = Some s \<longrightarrow> s = ''full'' \<or> s = ''decline'' \<or> s = ''timed_out'')"
proof -
  let ?c = "\<lambda>s. set_consent (ev_db_now ev 1) \<lparr>uc_consent_scope = s, uc_consented_at = None\<rparr>"
  let ?l = "set_license \<lparr>ul_no_llm_training = pc_no_llm_training b,
     ul_no_public_release = pc_no_public_release b\<rparr>"
  have keys: "par_id (?c s q) = par_id q" "par_id (?l q) = par_id q" for s q
    by (simp_all add: set_consent_def set_license_def)
  have same: "w\<lparr>w_db := (w_db w)\<lparr>t_participants := t_participants (w_db w)\<rparr>\<rparr> = w" by simp
  show ?thesis
  proof (cases "pc_consent_scope b")
    case None
    with found ok keys consent_patched_steps(1,3) [OF None] show ?thesis
      by (auto simp: patch_participant_def run_tx_eq_Inr participants_update_license_def
          participants_update_eq_Inr find_participant_updated h_bind_eq_Inr
          intro: exI [of _ "t_participants (w_db w)"] split: if_splits)
  next
    case (Some s)
    note upd = find_participant_updated [OF found keys(1), unfolded One_nat_def]
    from ok Some obtain w0 where
      w0: "w0 = w\<lparr>w_db := (w_db w)\<lparr>t_participants :=
        update_rows (\<lambda>q. par_id q = i) (?c s) (t_participants (w_db w))\<rparr>\<rparr>"
      and scope: "s = ''full'' \<or> s = ''decline'' \<or> s = ''timed_out''"
      and rest: "(if pc_no_llm_training b \<noteq> None \<or> pc_no_public_release b \<noteq> None
        then run_tx (participants_update_license i
            \<lparr>ul_no_llm_training = pc_no_llm_training b,
             ul_no_public_release = pc_no_public_release b\<rparr>)
        else h_return (?c s p)) w0 = (Inr u, w1)"
      using found by (auto simp: patch_participant_def h_bind_eq_Inr run_tx_eq_Inr
          participants_update_consent_def participants_update_eq_Inr tx_fail_def split: if_splits)
    have found0: "find_participant i (w_db w0) = Some (?c s p)" by (simp add: w0 upd)
    show ?thesis
    proof (cases "pc_no_llm_training b \<noteq> None \<or> pc_no_public_release b \<noteq> None")
      case True
      with rest found0 have u: "u = ?l (?c s p)"
        and w1: "w1 = w0\<lparr>w_db := (w_db w0)\<lparr>t_participants :=
          update_rows (\<lambda>q. par_id q = i) ?l (t_participants (w_db w0))\<rparr>\<rparr>"
        by (auto simp: run_tx_eq_Inr participants_update_license_def participants_update_eq_Inr)
      show ?thesis
        using scope Some consent_patched_steps(4) [OF Some]
        by (auto simp: w1 u find_participant_updated [OF found0 keys(2)])
          (auto simp: w0 upd)
    next
      case False
      with rest have "u = ?c s p" "w1 = w0" by (simp_all add: h_return_def)
      with False scope Some consent_patched_steps(2) [OF Some] show ?thesis
        by (auto simp: w0 upd)
    qed
  qed
qed

text \<open>C5. A consent patch through a token that succeeds has done exactly one thing: it has changed the consent scope and
  the licence flags its body names of the one participant the token points to, the scope being
  one of the three legal values. No other participant and no other table is touched but the
  audit log, which gets one entry under the actor \<^verbatim>\<open>consent_token\<close>; no event is sent.\<close>

theorem consent_patch_scope:
  assumes run: "patch_consent_token_route ev tok b w = (Inr u, w')"
  shows "\<exists>cx a. consent_tokens_validate (ev_db_now ev 0) tok (w_db w) = Inr (Some cx) \<and>
    u = consent_patched (ev_db_now ev 1) b (cx_participant cx) \<and>
    (\<forall>s. pc_consent_scope b = Some s \<longrightarrow> s = ''full'' \<or> s = ''decline'' \<or> s = ''timed_out'') \<and>
    (\<forall>j. find_participant j (w_db w') =
       (if j = ct_participant_id (cx_token cx) then Some u else find_participant j (w_db w))) \<and>
    w' = w\<lparr>w_db := (w_db w)\<lparr>t_participants := t_participants (w_db w'),
      t_audit_log := t_audit_log (w_db w) @ [a]\<rparr>\<rparr> \<and>
    au_actor_service a = ''consent_token''"
proof -
  from run obtain cx w1 where
    cx: "consent_tokens_validate (ev_db_now ev 0) tok (w_db w) = Inr (Some cx)"
    and part: "patch_participant ev (par_id (cx_participant cx)) b (cx_participant cx) w = (Inr u, w1)"
    and au: "audit ev 3 0 (entry ''consent_token'' (Some (pid_str (par_pseudo_id u)))
               (Some (ses_id (cx_session cx))) ''participant'' [UuidText (par_id (cx_participant cx))]
               ''consent_patched_via_token''
               (Some (jobject [(''consent_scope'', json_opt JStr (pc_consent_scope b)),
                  (''no_llm_training'', json_opt JBool (pc_no_llm_training b)),
                  (''no_public_release'', json_opt JBool (pc_no_public_release b))]))) w1 =
        (Inr (), w')"
    by (auto simp: patch_consent_token_route_def patch_participant_def validated_def Let_def
        h_bind_eq_Inr)
  have pid: "par_id (cx_participant cx) = ct_participant_id (cx_token cx)"
    and found: "find_participant (ct_participant_id (cx_token cx)) (w_db w) =
      Some (cx_participant cx)"
    using validate_SomeD(5) [OF cx] by (auto dest: find_participant_SomeD)
  from patch_participant_Inr [OF found part [unfolded pid]] obtain ps where
    u: "u = consent_patched (ev_db_now ev 1) b (cx_participant cx)"
    and fp: "\<forall>j. find_participant j (w_db w1) =
      (if j = ct_participant_id (cx_token cx) then Some u else find_participant j (w_db w))"
    and w1: "w1 = w\<lparr>w_db := (w_db w)\<lparr>t_participants := ps\<rparr>\<rparr>"
    and scope: "\<forall>s. pc_consent_scope b = Some s \<longrightarrow> s = ''full'' \<or> s = ''decline'' \<or> s = ''timed_out''"
    by blast
  from au obtain a where
    w': "w' = w1\<lparr>w_db := (w_db w1)\<lparr>t_audit_log := t_audit_log (w_db w1) @ [a]\<rparr>\<rparr>"
    and actor: "au_actor_service a = ''consent_token''"
    by (auto simp: audit_eq_Inr audit_row_of_def entry_def)
  have "find_participant j (w_db w') = find_participant j (w_db w1)" for j
    by (simp add: w' find_participant_def)
  with fp have fp': "\<forall>j. find_participant j (w_db w') =
      (if j = ct_participant_id (cx_token cx) then Some u else find_participant j (w_db w))" by simp
  have frame: "w' = w\<lparr>w_db := (w_db w)\<lparr>t_participants := t_participants (w_db w'),
      t_audit_log := t_audit_log (w_db w) @ [a]\<rparr>\<rparr>" by (simp add: w' w1)
  show ?thesis
    by (rule exI [of _ cx], rule exI [of _ a], intro conjI) (fact cx u scope fp' frame actor)+
qed

theorem consent_patch_scope_witness:
  "\<exists>u w'. patch_consent_token_route sample_env 40 \<lparr>pc_consent_scope = Some ''decline'',
       pc_no_llm_training = Some True, pc_no_public_release = None\<rparr>
     (sample_world sample_speaker_db) = (Inr u, w') \<and> par_consent_scope u = Some ''decline'' \<and>
     par_no_llm_training u \<and> \<not> par_no_public_release u"
proof -
  let ?b = "\<lparr>pc_consent_scope = Some ''decline'', pc_no_llm_training = Some True,
    pc_no_public_release = None\<rparr>"
  have "\<exists>u w'. patch_consent_token_route sample_env 40 ?b (sample_world sample_speaker_db) =
      (Inr u, w')"
    by (simp add: patch_consent_token_route_def validated_def Let_def h_bind_def run_tx_def
        consent_tokens_validate_def token_valid_def find_participant_def find_session_def
        fetch_one_def ok_or_def participants_update_consent_def participants_update_def
        participants_update_license_def set_consent_def set_license_def audit_def
        audit_append_def sample_speaker_defs)
  then obtain u w' where run: "patch_consent_token_route sample_env 40 ?b
      (sample_world sample_speaker_db) = (Inr u, w')" by blast
  have cx: "consent_tokens_validate (ev_db_now sample_env 0) 40
      (w_db (sample_world sample_speaker_db)) = Inr (Some \<lparr>cx_token = sample_token,
        cx_session = sample_session Uploaded, cx_participant = sample_participant\<rparr>)"
    using sample_token_cx by (simp add: sample_world_def)
  have "u = consent_patched (ev_db_now sample_env 1) ?b sample_participant"
    using consent_patch_scope [OF run] cx by auto
  with run show ?thesis
    by (auto simp: consent_patched_def sample_participant_def unwrap_or_def)
qed

subsection \<open>Property of the admin grant\<close>

lemma find_user_set_admin:
  assumes "users_set_admin now p admin d = Inr (u, d')"
  shows "find_user q d' = (if q = p then Some u else find_user q d) \<and> usr_pseudo_id u = p \<and>
    usr_is_admin u = admin \<and> (\<exists>us. d' = d\<lparr>t_users := us\<rparr>) \<and> valid_pid p"
proof (cases "find_user p d")
  case None
  then show ?thesis
    using assms by (auto simp: users_set_admin_def find_user_def user_default_def find_append Let_def
        split: if_splits option.splits)
next
  case (Some v)
  have "find_user q (d\<lparr>t_users := update_rows (\<lambda>v. usr_pseudo_id v = p)
      (\<lambda>v. v\<lparr>usr_is_admin := admin\<rparr>) (t_users d)\<rparr>) =
      map_option (\<lambda>v. if usr_pseudo_id v = p then v\<lparr>usr_is_admin := admin\<rparr> else v) (find_user q d)"
    unfolding find_user_def by (simp add: find_update_rows)
  moreover have "find_user q d = Some v' \<Longrightarrow> usr_pseudo_id v' = q" for q v'
    by (auto simp: find_user_def dest: find_SomeD)
  ultimately show ?thesis
    using assms Some
    by (cases "find_user q d") (auto simp: users_set_admin_def split: if_splits)
qed

text \<open>The unauthenticated grant endpoint changes nothing unless the request carries the shared
  secret: with a wrong secret it answers unauthorized and leaves the world alone. With the right
  one and a well-formed pseudo id it succeeds, whether or not the user exists, and its whole
  effect is that user's admin flag (granted when the body does not say) and one audit entry.\<close>

theorem admin_grant_effect:
  assumes fresh: "\<not> has_key au_id (ev_audit_id ev 0) (t_audit_log (w_db w))"
    and pid: "valid_pid (gr_pseudo_id req)"
  shows "if gr_shared_secret req \<noteq> st_shared_secret st
    then admin_grant_route st ev req w = (Inl invalid_secret, w)
    else \<exists>j u a w'. admin_grant_route st ev req w = (Inr j, w') \<and>
      usr_pseudo_id u = gr_pseudo_id req \<and>
      usr_is_admin u = (case gr_is_admin req of Some b \<Rightarrow> b | None \<Rightarrow> True) \<and>
      (\<forall>q. find_user q (w_db w') = (if q = gr_pseudo_id req then Some u else find_user q (w_db w))) \<and>
      w' = w\<lparr>w_db := (w_db w)\<lparr>t_users := t_users (w_db w'),
        t_audit_log := t_audit_log (w_db w) @ [a]\<rparr>\<rparr> \<and>
      au_actor_service a = ''admin_bootstrap''"
proof (cases "gr_shared_secret req \<noteq> st_shared_secret st")
  case True
  then show ?thesis by (simp add: admin_grant_route_def h_fail_def)
next
  case False
  let ?p = "gr_pseudo_id req" and ?b = "unwrap_or True (gr_is_admin req)"
  obtain u d where ud: "users_set_admin (ev_db_now ev 0) ?p ?b (w_db w) = Inr (u, d)"
    using pid by (cases "find_user ?p (w_db w)") (auto simp: users_set_admin_def Let_def)
  note eff = find_user_set_admin [OF ud]
  from eff obtain us where d: "d = (w_db w)\<lparr>t_users := us\<rparr>" by blast
  let ?a = "audit_row_of (ev_audit_id ev 0) (ev_db_now ev 0) (user_entry ''admin_bootstrap''
    (pid_str ?p) ''admin'' [Lit (pid_str ?p)] (if ?b then ''granted'' else ''revoked'') None)"
  have run: "\<exists>j. admin_grant_route st ev req w =
      (Inr j, w\<lparr>w_db := d\<lparr>t_audit_log := t_audit_log d @ [?a]\<rparr>\<rparr>)"
    using False ud fresh
    by (simp add: admin_grant_route_def h_bind_def run_tx_def grant_tx_def tx_bind_def d
        audit_append_tx_eq audit_append_def tx_return_def)
  have "?b = (case gr_is_admin req of Some b \<Rightarrow> b | None \<Rightarrow> True)"
    by (simp add: unwrap_or_def split: option.split)
  moreover have "au_actor_service ?a = ''admin_bootstrap''"
    by (simp add: audit_row_of_def user_entry_def entry_def)
  moreover have "find_user q (d\<lparr>t_audit_log := t_audit_log d @ [?a]\<rparr>) = find_user q d" for q
    by (simp add: find_user_def)
  moreover obtain j where "admin_grant_route st ev req w =
      (Inr j, w\<lparr>w_db := d\<lparr>t_audit_log := t_audit_log d @ [?a]\<rparr>\<rparr>)" using run by blast
  ultimately have "\<exists>j u a w'. admin_grant_route st ev req w = (Inr j, w') \<and>
      usr_pseudo_id u = ?p \<and>
      usr_is_admin u = (case gr_is_admin req of Some b \<Rightarrow> b | None \<Rightarrow> True) \<and>
      (\<forall>q. find_user q (w_db w') = (if q = ?p then Some u else find_user q (w_db w))) \<and>
      w' = w\<lparr>w_db := (w_db w)\<lparr>t_users := t_users (w_db w'),
        t_audit_log := t_audit_log (w_db w) @ [a]\<rparr>\<rparr> \<and>
      au_actor_service a = ''admin_bootstrap''"
    using eff
    by (intro exI [of _ j] exI [of _ u] exI [of _ ?a]
        exI [of _ "w\<lparr>w_db := d\<lparr>t_audit_log := t_audit_log d @ [?a]\<rparr>\<rparr>"]) (simp add: d)
  with False show ?thesis by simp
qed

theorem admin_grant_effect_witness:
  "\<exists>j w' u. admin_grant_route sample_state sample_env \<lparr>gr_shared_secret = ''secret'',
       gr_pseudo_id = sample_pid, gr_is_admin = None\<rparr> (sample_world (sample_db Recording)) =
     (Inr j, w') \<and> find_user sample_pid (w_db w') = Some u \<and> usr_is_admin u"
proof -
  let ?req = "\<lparr>gr_shared_secret = ''secret'', gr_pseudo_id = sample_pid, gr_is_admin = None\<rparr>"
  have "\<not> has_key au_id (ev_audit_id sample_env 0) (t_audit_log (w_db (sample_world (sample_db Recording))))"
    by (simp add: sample_defs)
  moreover have "valid_pid (gr_pseudo_id ?req)" by (simp add: valid_pid_def sample_pid_def)
  ultimately show ?thesis
    using admin_grant_effect [of sample_env "sample_world (sample_db Recording)" ?req sample_state]
    by (auto simp: sample_state_def)
qed

end
