(* ===== verification/Auth_Properties.thy ===== *)
theory Auth_Properties
  imports Routes_Auth Tokens
begin

section \<open>Properties of the service tokens\<close>

text \<open>
  A service exchanges the shared secret for a token, presents the token on every request, keeps
  it alive by heartbeats, and loses it to the reaper: the life of a token across
  \<^verbatim>\<open>src/routes/auth.rs\<close>, \<^verbatim>\<open>src/auth/middleware.rs\<close> and \<^verbatim>\<open>src/auth/reaper.rs\<close>.
\<close>

definition bearer_headers :: "string \<Rightarrow> headers" where
  "bearer_headers t = [''authorization'' \<mapsto> bearer_prefix @ t]"

lemma bearer_token_sent:
  assumes "h ''authorization'' = Some (bearer_prefix @ t)" and "list_all visible_ascii t"
  shows "bearer_token h = Some t"
  using assms by (simp add: bearer_token_eq_Some bearer_prefix_def visible_ascii_def)

lemma require_service_auth_token:
  assumes "bearer_token h = Some t" and "interval_ok reap"
  shows "require_service_auth now reap hash h d =
    (case List.find (\<lambda>v. sv_token_hash v = hash t \<and> alive now reap v) (t_service_sessions d) of
       None \<Rightarrow> Inl (error_response 401 ''invalid or expired session token'')
     | Some v \<Rightarrow> Inr (sv_service_name v))"
proof -
  have "extract_bearer h = Inr t" using assms(1) by simp
  then show ?thesis
    using assms(2)
    by (simp add: require_service_auth_def service_sessions_lookup_alive_def split: option.split
        del: extract_bearer_eq_Inr)
qed

lemma find_filter: "List.find (\<lambda>v. p v \<and> q v) vs = List.find q (filter p vs)"
  by (induction vs) auto

text \<open>C30. A token works from its issue until the window runs out: after a successful
  authentication with a token drawn by \<^verbatim>\<open>generate_token\<close> whose hash was not stored yet, a request
  that presents the token as its bearer is accepted under the name of the service that
  authenticated as long as less than the window has passed since, and is answered with 401 from
  then on. It holds in every later state in which the rows with this token's hash are as the login
  left them (no heartbeat with the token, and the reaper has not taken it), whatever became of the
  rows of other tokens and of the other tables, and for every window that fits Postgres' intervals.
  Authentication succeeds only with the shared secret, and the token is 64 hexadecimal digits.\<close>

theorem login_then_accepted:
  assumes run: "authenticate_route st ev (hash_token hex sha256) (generate_token hex fill) req w =
      (Inr t, w')"
    and laws: "hex_law hex" "fill_law fill"
    and fresh: "\<not> has_key sv_token_hash (hash_token hex sha256 (generate_token hex fill))
      (t_service_sessions (w_db w))"
    and h: "h ''authorization'' = Some (bearer_prefix @ t)"
    and later: "filter (\<lambda>v. sv_token_hash v = hash_token hex sha256 t) (t_service_sessions d) =
      filter (\<lambda>v. sv_token_hash v = hash_token hex sha256 t) (t_service_sessions (w_db w'))"
    and reap: "interval_ok reap"
  shows "ar_shared_secret req = st_shared_secret st \<and> length t = 64 \<and> list_all is_lower_hex t \<and>
    require_service_auth now reap (hash_token hex sha256) h d =
      (if now - ev_db_now ev 0 < window_us reap then Inr (ar_service_name req)
       else Inl (error_response 401 ''invalid or expired session token''))"
proof -
  let ?hash = "hash_token hex sha256" and ?token = "generate_token hex fill"
  from run have secret: "ar_shared_secret req = st_shared_secret st" and t: "t = ?token"
    and ins: "\<exists>v. service_sessions_insert (ev_db_now ev 0) (ev_row_id ev 0) (ar_service_name req)
      (?hash ?token) (w_db w) = Inr (v, w_db w')"
    by (auto simp: authenticate_route_def h_bind_eq_Inr run_tx_eq_Inr split: if_splits)
  let ?v = "\<lparr>sv_id = ev_row_id ev 0, sv_service_name = ar_service_name req,
      sv_token_hash = ?hash ?token, sv_created_at = ev_db_now ev 0, sv_last_seen_at = ev_db_now ev 0\<rparr>"
  have "List.find (\<lambda>v. sv_token_hash v = ?hash ?token) (t_service_sessions (w_db w)) = None"
    using fresh by (simp add: find_key_None)
  with ins have rows: "t_service_sessions (w_db w') = t_service_sessions (w_db w) @ [?v]"
    by (auto simp: service_sessions_insert_def Let_def split: if_splits dest!: sym [of _ "w_db w'"])
  have "filter (\<lambda>v. sv_token_hash v = ?hash ?token) (t_service_sessions (w_db w)) = []"
    using fresh by (auto simp: filter_empty_conv has_key_def)
  then have "List.find (\<lambda>v. sv_token_hash v = ?hash ?token \<and> alive now reap v) (t_service_sessions d) =
      (if alive now reap ?v then Some ?v else None)"
    using later by (simp add: find_filter t rows)
  then show ?thesis
    using secret generate_token_shape [OF laws]
      require_service_auth_token [OF bearer_token_sent [where h = h, OF h] reap, of now ?hash d]
    by (simp add: t alive_def algebra_simps)
qed

definition sample_hash :: token_hash where
  "sample_hash s = rev s"

theorem login_then_accepted_witness:
  "\<exists>t w' h. authenticate_route sample_state sample_env (hash_token sample_hex rev)
      (generate_token sample_hex sample_fill)
      \<lparr>ar_shared_secret = ''secret'', ar_service_name = ''bot''\<rparr> (sample_world (sample_db Recording)) =
      (Inr t, w') \<and> h = bearer_headers t \<and>
    require_service_auth 150 90 (hash_token sample_hex rev) h (w_db w') = Inr ''bot''"
proof -
  let ?req = "\<lparr>ar_shared_secret = ''secret'', ar_service_name = ''bot''\<rparr>"
  let ?hash = "hash_token sample_hex rev" and ?token = "generate_token sample_hex sample_fill"
  have "\<exists>w'. authenticate_route sample_state sample_env ?hash ?token ?req
      (sample_world (sample_db Recording)) = (Inr ?token, w')"
    by (simp add: authenticate_route_def h_bind_def run_tx_def service_sessions_insert_def
        sample_defs Let_def)
  then obtain w' where run: "authenticate_route sample_state sample_env ?hash ?token ?req
      (sample_world (sample_db Recording)) = (Inr ?token, w')" by blast
  have fresh: "\<not> has_key sv_token_hash (?hash ?token)
      (t_service_sessions (w_db (sample_world (sample_db Recording))))"
    by (simp add: sample_defs)
  have h: "bearer_headers ?token ''authorization'' = Some (bearer_prefix @ ?token)"
    by (simp add: bearer_headers_def)
  have reap: "interval_ok 90" by (simp add: interval_ok_def window_us_def in_int8_def)
  from login_then_accepted [where h = "bearer_headers ?token" and now = 150,
      OF run sample_hex_law sample_fill_law fresh h refl reap] run show ?thesis
    by (auto simp: sample_env_def window_us_def)
qed

text \<open>C31. A heartbeat succeeds exactly when the token's row is still stored, even if the window has
  already run out, and then counts as seen now: the next request within the window is accepted.
  Otherwise it answers unauthorized, and no row is changed either way but the token's own.\<close>

theorem heartbeat_revives:
  assumes h: "bearer_token h = Some t" and reap: "interval_ok reap"
  shows "if has_key sv_token_hash (hash t) (t_service_sessions (w_db w))
    then \<exists>j w'. heartbeat_route ev hash h w = (Inr j, w') \<and>
      (\<forall>now. now - ev_db_now ev 0 < window_us reap \<longrightarrow>
         (\<exists>name. require_service_auth now reap hash h (w_db w') = Inr name)) \<and>
      filter (\<lambda>v. sv_token_hash v \<noteq> hash t) (t_service_sessions (w_db w')) =
        filter (\<lambda>v. sv_token_hash v \<noteq> hash t) (t_service_sessions (w_db w))
    else heartbeat_route ev hash h w = (Inl (Unauthorized [Lit ''invalid session token'']), w)"
proof (cases "has_key sv_token_hash (hash t) (t_service_sessions (w_db w))")
  case True
  let ?f = "\<lambda>v. v\<lparr>sv_last_seen_at := ev_db_now ev 0\<rparr>"
  let ?rows = "update_rows (\<lambda>v. sv_token_hash v = hash t) ?f (t_service_sessions (w_db w))"
  have run: "\<exists>j. heartbeat_route ev hash h w =
      (Inr j, w\<lparr>w_db := (w_db w)\<lparr>t_service_sessions := ?rows\<rparr>\<rparr>)"
    using True h
    by (simp add: heartbeat_route_def h_bind_def ok_or_def run_tx_def service_sessions_touch_def)
  obtain v where v: "v \<in> set (t_service_sessions (w_db w))" "sv_token_hash v = hash t"
    using True by (auto simp: has_key_def)
  have acc: "\<exists>name. require_service_auth now reap hash h ((w_db w)\<lparr>t_service_sessions := ?rows\<rparr>) =
      Inr name" if "now - ev_db_now ev 0 < window_us reap" for now
  proof -
    have "?f v \<in> set ?rows" "alive now reap (?f v)" "sv_token_hash (?f v) = hash t"
      using v that by (auto simp: set_update_rows alive_def)
    then have "List.find (\<lambda>v. sv_token_hash v = hash t \<and> alive now reap v) ?rows \<noteq> None"
      unfolding find_None_iff by blast
    then show ?thesis by (auto simp: require_service_auth_token [OF h reap])
  qed
  have "filter (\<lambda>v. sv_token_hash v \<noteq> hash t) (update_rows (\<lambda>v. sv_token_hash v = hash t) ?f vs) =
      filter (\<lambda>v. sv_token_hash v \<noteq> hash t) vs" for vs
    by (induction vs) auto
  with True run acc show ?thesis by fastforce
next
  case False
  then have "update_rows (\<lambda>v. sv_token_hash v = hash t) (\<lambda>v. v\<lparr>sv_last_seen_at := ev_db_now ev 0\<rparr>)
      (t_service_sessions (w_db w)) = t_service_sessions (w_db w)"
    by (intro update_rows_none) (auto simp: has_key_def)
  with False h show ?thesis
    by (simp add: heartbeat_route_def h_bind_def ok_or_def run_tx_def service_sessions_touch_def
        h_fail_def)
qed

definition sample_service_db :: database where
  "sample_service_db = (sample_db Recording)\<lparr>t_service_sessions :=
     [\<lparr>sv_id = 50, sv_service_name = ''bot'', sv_token_hash = sample_hash ''tok'',
       sv_created_at = 6, sv_last_seen_at = 80\<rparr>]\<rparr>"

theorem heartbeat_revives_witness:
  "\<exists>j w' name. heartbeat_route sample_env2 sample_hash (bearer_headers ''tok'')
      (sample_world sample_service_db) = (Inr j, w') \<and>
    require_service_auth (400 + 89999999) 90 sample_hash (bearer_headers ''tok'') (w_db w') = Inr name"
proof -
  have h: "bearer_token (bearer_headers ''tok'') = Some ''tok''"
    by (rule bearer_token_sent) (simp_all add: bearer_headers_def visible_ascii_def)
  have reap: "interval_ok 90" by (simp add: interval_ok_def window_us_def in_int8_def)
  have "has_key sv_token_hash (sample_hash ''tok'')
      (t_service_sessions (w_db (sample_world sample_service_db)))"
    by (simp add: sample_service_db_def sample_world_def)
  with heartbeat_revives [OF h reap, of sample_hash "sample_world sample_service_db" sample_env2]
  show ?thesis by (auto simp: sample_env2_def window_us_def)
qed

text \<open>A tick of the reaper deletes exactly the rows not seen within the window, and takes no
  token away that could still be used: whatever request comes at the time of the tick or later is
  answered by the middleware as if the reaper had not run.\<close>

theorem reaper_removes_only_dead:
  assumes run: "reaper_tick now window w = (r, w')" and ok: "interval_ok window"
    and later: "now \<le> now2"
  shows "t_service_sessions (w_db w') = filter (\<lambda>v. now - window_us window \<le> sv_last_seen_at v)
      (t_service_sessions (w_db w)) \<and>
    w' = w\<lparr>w_db := (w_db w)\<lparr>t_service_sessions := t_service_sessions (w_db w')\<rparr>\<rparr> \<and>
    require_service_auth now2 window hash h (w_db w') =
      require_service_auth now2 window hash h (w_db w)"
proof -
  have w': "w' = w\<lparr>w_db := (w_db w)\<lparr>t_service_sessions :=
      delete_rows (stale now window) (t_service_sessions (w_db w))\<rparr>\<rparr>"
    using run ok by (auto simp: reaper_tick_def run_tx_def service_sessions_reap_stale_def)
  then have rows: "t_service_sessions (w_db w') =
      filter (\<lambda>v. now - window_us window \<le> sv_last_seen_at v) (t_service_sessions (w_db w))"
    by (simp add: delete_rows_def stale_def not_less comp_def)
  have "List.find (\<lambda>v. sv_token_hash v = k \<and> alive now2 window v) (t_service_sessions (w_db w')) =
      List.find (\<lambda>v. sv_token_hash v = k \<and> alive now2 window v) (t_service_sessions (w_db w))" for k
    using later by (simp add: w') (rule find_delete_rows, auto simp: alive_def stale_def)
  then have "service_sessions_lookup_alive now2 k window (w_db w') =
      service_sessions_lookup_alive now2 k window (w_db w)" for k
    by (simp add: service_sessions_lookup_alive_def)
  then show ?thesis using w' rows by (simp add: require_service_auth_def)
qed

theorem reaper_removes_only_dead_witness:
  "\<exists>w'. reaper_tick 100000000 90 (sample_world sample_service_db) = (Inr (), w') \<and>
     t_service_sessions (w_db w') = []"
proof -
  obtain w' where run: "reaper_tick 100000000 90 (sample_world sample_service_db) = (Inr (), w')"
    by (simp add: reaper_tick_def)
  have ok: "interval_ok 90" by (simp add: interval_ok_def window_us_def in_int8_def)
  have le: "100000000 \<le> (100000000 :: int)" by simp
  have "t_service_sessions (w_db w') = []"
    using reaper_removes_only_dead [OF run ok le]
    by (simp add: sample_service_db_def sample_world_def window_us_def)
  with run show ?thesis by blast
qed

end
