(* ===== verification/Ws_Properties.thy ===== *)
theory Ws_Properties
  imports Ws_Session
begin

section \<open>Properties of a WebSocket connection\<close>

text \<open>
  What a subscriber of \<^verbatim>\<open>src/routes/ws\<close> may rely on: which events reach it and in which order,
  what its subscribe and unsubscribe frames mean, when it is disconnected for silence, and what
  the drop-oldest queue keeps.
\<close>

definition sample_event :: event where
  "sample_event = SegmentCreated 5 \<lparr>rr_session_id = 1, rr_guild_id = 7, rr_id = 9\<rparr>"

definition sample_send :: send_env where
  "sample_send = \<lparr>se_error = None, se_sample = False, se_elapsed = 0\<rparr>"

definition at_time :: "int \<Rightarrow> ws_input \<Rightarrow> ws_iteration" where
  "at_time t i = \<lparr>it_send = sample_send, it_now = t, it_input = i\<rparr>"

text \<open>C27. Refinement of the stream a subscriber should see: whatever arrives on the bus and the
  socket, the events a connection sends are a prefix of the events received while one of its
  subscriptions admitted them, in the order received, each once; as long as the connection is open at
  most one of them is still queued. The queue never drops an event, and the connection is never
  closed for a burst of drops, whatever depth is configured.\<close>

theorem ws_delivery:
  assumes run: "ws_loop xs (ws_init depth now m) = (r, s')"
  shows "prefix (frame_events (ws_out s')) (accepted (map it_input xs) subscription_set_new) \<and>
    (r = Inr () \<longrightarrow> (\<exists>pending. length pending \<le> 1 \<and>
       frame_events (ws_out s') @ pending = accepted (map it_input xs) subscription_set_new)) \<and>
    r \<noteq> Inl DropBurst \<and> queue_dropped (ws_q s') = 0"
proof -
  have init: "ws_subs (ws_init depth now m) = subscription_set_new"
    "frame_events (ws_out (ws_init depth now m)) = []" "q_inner (ws_q (ws_init depth now m)) = []"
    by (simp_all add: ws_init_def queue_new_def)
  from ws_loop_spec [OF ws_inv_init run]
  have "r = Inr () \<Longrightarrow> length (q_inner (ws_q s')) \<le> 1 \<and>
      frame_events (ws_out s') @ q_inner (ws_q s') =
        accepted (map it_input xs) subscription_set_new"
    by (simp add: init ws_inv_def)
  with ws_loop_spec [OF ws_inv_init run] show ?thesis
    by (auto simp: init queue_dropped_def)
qed

theorem ws_delivery_witness:
  "\<exists>s'. ws_loop [at_time 1 (Recv sample_event),
        at_time 2 (TextMessage (Inr (Subscribe [''segment_created''] filter_default))),
        at_time 3 (Recv sample_event), at_time 4 PongMessage] (ws_init 1 0 metrics_new) =
      (Inr (), s') \<and> prefix (frame_events (ws_out s')) [sample_event]"
proof -
  let ?xs = "[at_time 1 (Recv sample_event),
        at_time 2 (TextMessage (Inr (Subscribe [''segment_created''] filter_default))),
        at_time 3 (Recv sample_event), at_time 4 PongMessage]"
  have matches: "\<not> set_matches {} sample_event"
    "set_matches {\<lparr>su_event = ''segment_created'', su_filter = filter_default\<rparr>} sample_event"
    by (simp_all add: set_matches_iff sample_event_def filter_admits_def filter_default_def)
  have "\<exists>s'. ws_loop ?xs (ws_init 1 0 metrics_new) = (Inr (), s')"
    using matches
    by (simp add: at_time_def ws_iter_def h_bind_def ws_drain_def queue_pop_def ws_init_def
        queue_new_def ws_recv_def subscription_set_new_def ws_reply_def active_def queue_push_def
        sample_send_def)
  then obtain s' where run: "ws_loop ?xs (ws_init 1 0 metrics_new) = (Inr (), s')" by blast
  have "accepted (map it_input ?xs) subscription_set_new = [sample_event]"
    using matches by (simp add: at_time_def subscription_set_new_def)
  with ws_delivery [OF run] run show ?thesis by auto
qed

text \<open>The two ways a history grows.\<close>

definition subscribed_by :: "ws_input list \<Rightarrow> event \<Rightarrow> bool" where
  "subscribed_by is e \<longleftrightarrow>
     (\<exists>ys names f zs. is = ys @ TextMessage (Inr (Subscribe names f)) # zs \<and>
        event_name e \<in> set names \<and> filter_admits f e \<and>
        (\<forall>gone. TextMessage (Inr (Unsubscribe gone)) \<in> set zs \<longrightarrow> event_name e \<notin> set gone))"

lemma subscribed_by_snoc:
  "subscribed_by (is @ [i]) e \<longleftrightarrow>
     (\<exists>names f. i = TextMessage (Inr (Subscribe names f)) \<and> event_name e \<in> set names \<and>
        filter_admits f e) \<or>
     subscribed_by is e \<and>
       (\<forall>gone. i = TextMessage (Inr (Unsubscribe gone)) \<longrightarrow> event_name e \<notin> set gone)"
  (is "?L \<longleftrightarrow> ?A \<or> ?B")
proof
  assume ?L
  then obtain ys names f zs where
    split: "is @ [i] = ys @ TextMessage (Inr (Subscribe names f)) # zs"
    and adm: "event_name e \<in> set names" "filter_admits f e"
    and gone: "\<forall>gone. TextMessage (Inr (Unsubscribe gone)) \<in> set zs \<longrightarrow> event_name e \<notin> set gone"
    unfolding subscribed_by_def by blast
  show "?A \<or> ?B"
  proof (cases zs rule: rev_cases)
    case Nil
    with split adm show ?thesis by auto
  next
    case (snoc zs' z)
    with split have "is = ys @ TextMessage (Inr (Subscribe names f)) # zs'" "i = z"
      by (simp_all add: append_assoc [symmetric] del: append_assoc)
    moreover from gone snoc have "\<forall>gone. TextMessage (Inr (Unsubscribe gone)) \<in> set zs' \<longrightarrow>
        event_name e \<notin> set gone" by simp
    ultimately have "subscribed_by is e" using adm unfolding subscribed_by_def
      by (intro exI [of _ ys] exI [of _ names] exI [of _ f] exI [of _ zs'] conjI)
    moreover from gone snoc \<open>i = z\<close>
    have "\<forall>gone. i = TextMessage (Inr (Unsubscribe gone)) \<longrightarrow> event_name e \<notin> set gone" by simp
    ultimately show ?thesis by (intro disjI2 conjI)
  qed
next
  assume "?A \<or> ?B"
  then show ?L
  proof
    assume ?A
    then show ?L unfolding subscribed_by_def by (metis empty_iff list.set(1))
  next
    assume B: ?B
    then obtain ys names f zs where "is = ys @ TextMessage (Inr (Subscribe names f)) # zs"
      "event_name e \<in> set names" "filter_admits f e"
      "\<forall>gone. TextMessage (Inr (Unsubscribe gone)) \<in> set zs \<longrightarrow> event_name e \<notin> set gone"
      unfolding subscribed_by_def by blast
    with B show ?L unfolding subscribed_by_def
      by (intro exI [of _ ys] exI [of _ names] exI [of _ f] exI [of _ "zs @ [i]"]) auto
  qed
qed

lemma set_matches_history:
  "set_matches (subs_after is subscription_set_new) e \<longleftrightarrow> subscribed_by is e"
proof (induction "is" rule: rev_induct)
  case Nil
  then show ?case by (simp add: subscribed_by_def)
next
  case (snoc i "is")
  have app: "subs_after (is @ [i]) subs = input_subs i (subs_after is subs)" for subs
    by (induction "is" arbitrary: subs) simp_all
  have "set_matches (input_subs i subs) e \<longleftrightarrow>
      (\<exists>names f. i = TextMessage (Inr (Subscribe names f)) \<and> event_name e \<in> set names \<and>
        filter_admits f e) \<or>
      set_matches subs e \<and>
        (\<forall>gone. i = TextMessage (Inr (Unsubscribe gone)) \<longrightarrow> event_name e \<notin> set gone)" for subs
    by (cases "(i, subs)" rule: input_subs.cases)
      (auto simp: set_matches_subscribe set_matches_unsubscribe)
  with snoc.IH show ?case by (simp add: app subscribed_by_snoc)
qed

text \<open>C28. The meaning of a subscription: an event is admitted exactly when some subscribe frame so
  far named its kind with a filter that agrees with its guild and session, and no later
  unsubscribe frame named that kind.\<close>

theorem subscription_history:
  "set_matches (subs_after is subscription_set_new) e \<longleftrightarrow>
     (\<exists>ys names f zs. is = ys @ TextMessage (Inr (Subscribe names f)) # zs \<and>
        event_name e \<in> set names \<and> filter_admits f e \<and>
        (\<forall>gone. TextMessage (Inr (Unsubscribe gone)) \<in> set zs \<longrightarrow> event_name e \<notin> set gone))"
  using set_matches_history by (simp add: subscribed_by_def)

theorem subscription_history_witness:
  "set_matches (subs_after [TextMessage (Inr (Subscribe [''segment_created''] filter_default)),
      TextMessage (Inr (Unsubscribe [''beat_created'']))] subscription_set_new) sample_event"
  unfolding subscription_history
  by (rule exI [of _ "[]"], rule exI [of _ "[''segment_created'']"], rule exI [of _ filter_default])
    (simp add: sample_event_def filter_admits_def filter_default_def)

lemma select_timeout:
  "ws_select now i s = (Inl HealthcheckTimeout, s') \<Longrightarrow> i = DeadlineReached"
proof (cases i)
  case (Recv e)
  assume "ws_select now i s = (Inl HealthcheckTimeout, s')"
  with Recv show ?thesis
    by (auto simp: ws_recv_def ws_overflow_def Let_def split: if_splits prod.splits)
next
  case (TextMessage t)
  assume "ws_select now i s = (Inl HealthcheckTimeout, s')"
  with TextMessage show ?thesis
    by (cases t; cases "projr t") (auto simp: ws_reply_def Let_def)
qed (auto simp: ws_reply_def ws_count_def h_bind_def h_fail_def split: if_splits)

text \<open>A connection is closed for silence only when it is due: if it closes with the health-check
  timeout, then some ping was sent at least ten seconds before and no pong has arrived since
  (given that the deadline's branch fires only on a deadline that is set and reached).\<close>

theorem ws_timeout_justified:
  assumes run: "ws_loop xs (ws_init depth now m) = (Inr u, s)"
    and ready: "branch_ready (it_now x) (it_input x) s"
    and closed: "ws_iter x s = (Inl HealthcheckTimeout, s')"
  shows "\<exists>ys t sent zs. map timed_input xs = ys @ (t, Tick sent) # zs \<and>
    t + 10 * 1000000000 \<le> it_now x \<and> (\<forall>z \<in> set zs. snd z \<noteq> PongMessage)"
proof -
  have not_drain: "ws_drain (it_send x) s \<noteq> (Inl HealthcheckTimeout, s')"
    using ws_drain_closes [of "it_send x" s HealthcheckTimeout s'] by auto
  with closed obtain s1 where
    "ws_select (it_now x) (it_input x) s1 = (Inl HealthcheckTimeout, s')"
    by (auto simp: ws_iter_def h_bind_eq_Inl)
  then have "it_input x = DeadlineReached" by (rule select_timeout)
  with ready obtain d where d: "ws_pong_deadline s = Some d" "d \<le> it_now x"
    by (auto simp: branch_ready_def split: option.splits)
  have "ws_pong_deadline (ws_init depth now m) = None" by (simp add: ws_init_def)
  with ws_loop_deadline [OF run] d have "pong_due (map timed_input xs) None = Some d" by simp
  from pong_due_Some [OF this] d(2) show ?thesis by (auto simp: PONG_GRACE_def)
qed

theorem ws_timeout_justified_witness:
  "\<exists>s s' ys t sent zs. ws_loop [at_time 0 (Tick True)] (ws_init 4 0 metrics_new) = (Inr (), s) \<and>
     ws_iter (at_time 10000000000 DeadlineReached) s = (Inl HealthcheckTimeout, s') \<and>
     map timed_input [at_time 0 (Tick True)] = ys @ (t, Tick sent) # zs \<and> t \<le> 0"
proof -
  have "\<exists>s. ws_loop [at_time 0 (Tick True)] (ws_init 4 0 metrics_new) = (Inr (), s) \<and>
      ws_pong_deadline s = Some 10000000000 \<and> q_inner (ws_q s) = []"
    by (simp add: at_time_def ws_iter_def h_bind_def ws_drain_def queue_pop_def ws_init_def
        queue_new_def PONG_GRACE_def)
  then obtain s where run: "ws_loop [at_time 0 (Tick True)] (ws_init 4 0 metrics_new) = (Inr (), s)"
    and dl: "ws_pong_deadline s = Some 10000000000" and q: "q_inner (ws_q s) = []" by blast
  have ready: "branch_ready (it_now (at_time 10000000000 DeadlineReached))
      (it_input (at_time 10000000000 DeadlineReached)) s"
    using dl by (simp add: branch_ready_def at_time_def)
  have closed: "ws_iter (at_time 10000000000 DeadlineReached) s = (Inl HealthcheckTimeout, s)"
    using q by (simp add: ws_iter_def h_bind_def at_time_def ws_drain_def queue_pop_def)
  from ws_timeout_justified [OF run ready closed] run closed show ?thesis
    by (auto simp: at_time_def)
qed

lemma push_all_fold: "ws_queue.push_all es q = fold (\<lambda>e q. snd (queue_push e q)) es q"
  by (induction es arbitrary: q) simp_all

lemma queue_push_dropped:
  "queue_ok q \<Longrightarrow> q_dropped (snd (queue_push e q)) =
     (if length (q_inner q) = q_cap q then saturating_inc (q_dropped q) else q_dropped q)"
  by (auto simp: queue_push_def queue_ok_def)

lemma push_all_dropped:
  assumes "queue_ok q" and "unat (q_dropped q) = min (2 ^ 64 - 1) k"
    and "k = 0 \<or> length (q_inner q) = q_cap q"
  shows "unat (q_dropped (fold (\<lambda>e q. snd (queue_push e q)) es q)) =
    min (2 ^ 64 - 1) (k + (length (q_inner q) + length es - q_cap q))"
  using assms
proof (induction es arbitrary: q k)
  case Nil
  then show ?case by (auto simp: queue_ok_def)
next
  case (Cons e es)
  let ?q = "snd (queue_push e q)"
  have ok: "queue_ok ?q" using Cons.prems(1) by (rule ws_queue.push_ok)
  show ?case
  proof (cases "length (q_inner q) = q_cap q")
    case True
    have len: "length (q_inner ?q) = q_cap q" "q_cap ?q = q_cap q"
      using Cons.prems(1) True by (auto simp: queue_push_def queue_ok_def)
    have "unat (q_dropped ?q) = min (2 ^ 64 - 1) (Suc k)"
      using Cons.prems True by (simp add: queue_push_dropped saturating_inc_unat)
    from Cons.IH [OF ok this] len True show ?thesis by simp
  next
    case False
    then have k: "k = 0" using Cons.prems(3) by simp
    have len: "length (q_inner ?q) = Suc (length (q_inner q))" "q_cap ?q = q_cap q"
      using Cons.prems(1) False by (auto simp: queue_push_def queue_ok_def)
    have "unat (q_dropped ?q) = min (2 ^ 64 - 1) 0"
      using Cons.prems False k by (simp add: queue_push_dropped)
    from Cons.IH [OF ok this] len k show ?thesis by simp
  qed
qed

text \<open>The drop-oldest queue keeps the newest elements in order: after any run of pushes into a
  new queue it holds exactly the last ones, as many as its capacity (at least one), and its
  counter is the number of elements lost, up to the largest 64-bit value.\<close>

theorem queue_keeps_newest:
  "queue_len (queue_new cap :: 'e drop_oldest_queue) = 0 \<and>
   q_inner (fold (\<lambda>e q. snd (queue_push e q)) es (queue_new cap)) =
     drop (length es - max cap 1) es \<and>
   unat (queue_dropped (fold (\<lambda>e q. snd (queue_push e q)) es (queue_new cap))) =
     min (2 ^ 64 - 1) (length es - max cap 1)"
proof -
  have "q_inner (fold (\<lambda>e q. snd (queue_push e q)) es (queue_new cap)) =
      newest (max cap 1) es"
    using ws_queue.push_all_contents [OF queue_new_ok, of es cap]
    by (simp add: push_all_fold) (simp add: queue_new_def)
  moreover have "unat (q_dropped (fold (\<lambda>e q. snd (queue_push e q)) es (queue_new cap))) =
      min (2 ^ 64 - 1) (length es - max cap 1)"
    using push_all_dropped [OF queue_new_ok, of cap 0 es] by (simp add: queue_new_def)
  ultimately show ?thesis by (simp add: newest_def queue_dropped_def queue_len_def queue_new_def)
qed

end
