(* ===== verification/Ws_Polling.thy ===== *)
theory Ws_Polling
  imports Ws_Properties
begin

section \<open>Which branch the select takes\<close>

text \<open>
  The \<^verbatim>\<open>select!\<close> of \<^verbatim>\<open>src/routes/ws/session.rs\<close> is biased: of the branches that are ready it takes
  the first in the order bus, socket, ping timer, pong deadline, and waits when none is. An
  \<open>ws_offer\<close> says what is ready at one instant; \<open>ws_serve\<close> runs a connection over the instants at
  which it is polled. A poll that finds nothing ready leaves the connection waiting in the select,
  with its queue already drained (\<open>ws_drain_idle\<close>).
\<close>

record ws_offer =
  of_now :: int
  of_send :: send_env
  of_bus :: "ws_input option"
  of_socket :: "ws_input option"
  of_tick :: "bool option" \<comment> \<open>the ping timer fired, and whether the ping can be sent\<close>

fun bus_input :: "ws_input \<Rightarrow> bool" where
  "bus_input (Recv e) = True"
| "bus_input (Lagged n) = True"
| "bus_input BusClosed = True"
| "bus_input _ = False"

fun socket_input :: "ws_input \<Rightarrow> bool" where
  "socket_input SocketEnd = True"
| "socket_input (SocketError e) = True"
| "socket_input (TextMessage t) = True"
| "socket_input PongMessage = True"
| "socket_input (PingMessage p) = True"
| "socket_input CloseMessage = True"
| "socket_input BinaryMessage = True"
| "socket_input _ = False"

definition offer_ok :: "ws_offer \<Rightarrow> bool" where
  "offer_ok o1 \<longleftrightarrow> pred_option bus_input (of_bus o1) \<and> pred_option socket_input (of_socket o1)"

definition ws_choose :: "ws_offer \<Rightarrow> ws_state \<Rightarrow> ws_input option" where
  "ws_choose o1 s =
     (case of_bus o1 of Some i \<Rightarrow> Some i
      | None \<Rightarrow>
     (case of_socket o1 of Some i \<Rightarrow> Some i
      | None \<Rightarrow>
     (case of_tick o1 of Some sent \<Rightarrow> Some (Tick sent)
      | None \<Rightarrow> if branch_ready (of_now o1) DeadlineReached s then Some DeadlineReached else None)))"

definition ws_poll :: "ws_offer \<Rightarrow> ws_step" where
  "ws_poll o1 =
     h_bind (ws_drain (of_send o1)) (\<lambda>_ s.
     case ws_choose o1 s of None \<Rightarrow> (Inr (), s) | Some i \<Rightarrow> ws_select (of_now o1) i s)"

fun ws_serve :: "ws_offer list \<Rightarrow> ws_step" where
  "ws_serve [] s = (Inr (), s)"
| "ws_serve (o1 # os) s = h_bind (ws_poll o1) (\<lambda>_. ws_serve os) s"

lemma ws_drain_idle: "q_inner (ws_q s) = [] \<Longrightarrow> ws_drain se s = (Inr (), s)"
  by (simp add: ws_drain_def queue_pop_def)

lemma ws_serve_append: "ws_serve (xs @ ys) s = h_bind (ws_serve xs) (\<lambda>_. ws_serve ys) s"
  by (induction xs arbitrary: s) (auto simp: h_bind_def split: prod.splits sum.splits)

text \<open>A poll that is not idle is an iteration of the loop, on an input that is ready.\<close>

lemma ws_poll_iter:
  assumes "ws_drain (of_send o1) s = (Inr (), s1)" and "ws_choose o1 s1 = Some i"
  shows "ws_poll o1 s = ws_iter \<lparr>it_send = of_send o1, it_now = of_now o1, it_input = i\<rparr> s"
  using assms by (simp add: ws_poll_def ws_iter_def h_bind_def)

lemma ws_choose_ready:
  "offer_ok o1 \<Longrightarrow> ws_choose o1 s = Some i \<Longrightarrow> branch_ready (of_now o1) i s"
  by (auto simp: ws_choose_def offer_ok_def branch_ready_def split: option.splits if_splits)

subsection \<open>The deadline under polls\<close>

lemma ws_poll_deadline:
  assumes "ws_poll o1 s = (Inr (), s')" and "offer_ok o1"
    and "of_tick o1 = None" and "of_socket o1 \<noteq> Some PongMessage"
  shows "ws_pong_deadline s' = ws_pong_deadline s"
proof -
  from assms(1) obtain s1 where d: "ws_drain (of_send o1) s = (Inr (), s1)"
    and rest: "(case ws_choose o1 s1 of None \<Rightarrow> (Inr (), s1)
      | Some i \<Rightarrow> ws_select (of_now o1) i s1) = (Inr (), s')"
    unfolding ws_poll_def h_bind_eq_Inr by auto
  have keep: "ws_pong_deadline s1 = ws_pong_deadline s" by (rule ws_drain_deadline [OF d])
  show ?thesis
  proof (cases "ws_choose o1 s1")
    case None
    with rest keep show ?thesis by simp
  next
    case (Some i)
    with assms(2-4) have "(\<forall>b. i \<noteq> Tick b) \<and> i \<noteq> PongMessage"
      by (auto simp: ws_choose_def offer_ok_def split: option.splits if_splits)
    then have "pong_due [(of_now o1, i)] d = d" for d by (cases i) auto
    with ws_select_deadline [of "of_now o1" i s1 "()" s'] rest Some keep show ?thesis by simp
  qed
qed

lemma ws_serve_deadline:
  assumes "ws_serve os s = (Inr (), s')"
    and "\<forall>o1 \<in> set os. offer_ok o1 \<and> of_tick o1 = None \<and> of_socket o1 \<noteq> Some PongMessage"
  shows "ws_pong_deadline s' = ws_pong_deadline s"
  using assms
proof (induction os arbitrary: s)
  case (Cons o1 os)
  from Cons.prems(1) obtain s1 where "ws_poll o1 s = (Inr (), s1)" "ws_serve os s1 = (Inr (), s')"
    by (auto simp: h_bind_eq_Inr)
  with Cons.IH [of s1] Cons.prems(2) ws_poll_deadline [of o1 s s1] show ?case by simp
qed simp

lemma ws_poll_ping:
  assumes "ws_poll o1 s = (Inr (), s')" and "of_bus o1 = None" and "of_socket o1 = None"
    and "of_tick o1 = Some sent"
  shows "ws_pong_deadline s' = Some (of_now o1 + PONG_GRACE)"
  using assms by (auto simp: ws_poll_def ws_choose_def h_bind_eq_Inr split: if_splits)

lemma ws_poll_due:
  assumes "of_bus o1 = None" and "of_socket o1 = None" and "of_tick o1 = None"
    and "ws_pong_deadline s = Some d" and "d \<le> of_now o1"
  shows "\<exists>c s'. ws_poll o1 s = (Inl c, s') \<and> (c = HealthcheckTimeout \<or> (\<exists>e. c = SendFailed e))"
proof -
  obtain r s1 where d: "ws_drain (of_send o1) s = (r, s1)" by fastforce
  show ?thesis
  proof (cases r)
    case (Inl c)
    with d ws_drain_closes [of "of_send o1" s c s1] show ?thesis
      by (auto simp: ws_poll_def h_bind_def)
  next
    case (Inr u)
    have "ws_pong_deadline s1 = Some d" using ws_drain_deadline [OF d] assms(4) by simp
    with assms(1-3,5) have "ws_choose o1 s1 = Some DeadlineReached"
      by (simp add: ws_choose_def branch_ready_def)
    with d Inr show ?thesis by (simp add: ws_poll_def h_bind_def)
  qed
qed

text \<open>C29. The loop of a connection whose peer falls silent ends: after a ping was sent, if the peer
  sends no pong and the ping timer does not fire again, the first poll at least ten seconds later
  that finds the bus, the socket and the timer quiet leaves the connection closed, and if it was
  still open until then, closed for the missed pong (or because the event queued before it could
  not be sent).\<close>

theorem silent_peer_closed:
  assumes run: "ws_serve os (ws_init depth now m) = (Inr (), s)"
    and ping: "of_bus p = None" "of_socket p = None" "of_tick p = Some sent"
    and silent: "\<forall>o1 \<in> set qs. offer_ok o1 \<and> of_tick o1 = None \<and> of_socket o1 \<noteq> Some PongMessage"
    and quiet: "of_bus z = None" "of_socket z = None" "of_tick z = None"
    and late: "of_now p + 10 * 1000000000 \<le> of_now z"
  shows "\<exists>c s'. ws_serve (os @ p # qs @ [z]) (ws_init depth now m) = (Inl c, s') \<and>
    ((\<exists>u s1. ws_serve (p # qs) s = (Inr u, s1)) \<longrightarrow>
       c = HealthcheckTimeout \<or> (\<exists>e. c = SendFailed e))"
proof -
  have split: "ws_serve (os @ p # qs @ [z]) (ws_init depth now m) =
      h_bind (ws_serve (p # qs)) (\<lambda>_. ws_poll z) s"
  proof -
    have one: "ws_serve [z] = ws_poll z"
      by (rule ext) (auto simp: h_bind_def split: prod.splits sum.splits)
    have "ws_serve (os @ p # qs @ [z]) (ws_init depth now m) = ws_serve ((p # qs) @ [z]) s"
      using run by (simp add: ws_serve_append h_bind_def)
    also have "\<dots> = h_bind (ws_serve (p # qs)) (\<lambda>_. ws_poll z) s"
      by (simp only: ws_serve_append one)
    finally show ?thesis .
  qed
  show ?thesis
  proof (cases "fst (ws_serve (p # qs) s)")
    case (Inl c)
    then obtain s1 where "ws_serve (p # qs) s = (Inl c, s1)" by (cases "ws_serve (p # qs) s") auto
    with split show ?thesis by (auto simp: h_bind_def)
  next
    case (Inr u)
    then obtain s2 where open2: "ws_serve (p # qs) s = (Inr (), s2)"
      by (cases "ws_serve (p # qs) s") auto
    then obtain s1 where "ws_poll p s = (Inr (), s1)" "ws_serve qs s1 = (Inr (), s2)"
      by (auto simp: h_bind_eq_Inr)
    then have "ws_pong_deadline s2 = Some (of_now p + PONG_GRACE)"
      using ws_poll_ping [OF _ ping] ws_serve_deadline [OF _ silent] by simp
    from ws_poll_due [OF quiet this] late open2 split show ?thesis
      by (auto simp: PONG_GRACE_def h_bind_def)
  qed
qed

definition poll_at :: "int \<Rightarrow> bool option \<Rightarrow> ws_offer" where
  "poll_at t tick =
     \<lparr>of_now = t, of_send = sample_send, of_bus = None, of_socket = None, of_tick = tick\<rparr>"

theorem silent_peer_closed_witness:
  "\<exists>c s'. ws_serve [poll_at 0 (Some True), poll_at 5 None, poll_at 10000000000 None]
     (ws_init 4 0 metrics_new) = (Inl c, s')"
proof -
  have run: "ws_serve [] (ws_init 4 0 metrics_new) = (Inr (), ws_init 4 0 metrics_new)" by simp
  have "\<forall>o1 \<in> set [poll_at 5 None]. offer_ok o1 \<and> of_tick o1 = None \<and>
      of_socket o1 \<noteq> Some PongMessage"
    by (simp add: poll_at_def offer_ok_def)
  from silent_peer_closed [OF run _ _ _ this, of "poll_at 0 (Some True)" True
      "poll_at 10000000000 None"]
  show ?thesis by (auto simp: poll_at_def)
qed

end
