(* ===== verification/Upload_Races.thy ===== *)
theory Upload_Races
  imports Transactions Chunk_Properties
begin

section \<open>Uploads that race\<close>

text \<open>
  The upload of \<^verbatim>\<open>src/routes/chunks.rs\<close> looks for its client chunk id before it holds any lock; it
  locks the session (\<^verbatim>\<open>FOR UPDATE\<close>) only when it found none, and keeps the lock until it commits. So
  two uploads with one client chunk id can both find none. Here any number of uploads run at
  once: \<open>race_step\<close> lets one of them look, or lets one that found nothing run from its lock to its
  commit, or commits any other transaction of the service that removes no chunk. The headers of a
  call are already parsed.
\<close>

record 's upload_call =
  ul_state :: "'s app_state"
  ul_env :: env
  ul_service :: string
  ul_session :: uuid
  ul_speaker :: pseudo_id
  ul_headers :: chunk_headers
  ul_body :: request_body

datatype upload_pc = Arrived | Missed | Answered "app_error + upload_response"

definition call_key :: "'s upload_call \<Rightarrow> uuid \<times> pseudo_id \<times> string" where
  "call_key u = (ul_session u, ul_speaker u, hd_client_chunk_id (ul_headers u))"

definition upload_look :: "'s upload_call \<Rightarrow> database \<Rightarrow> upload_pc" where
  "upload_look u d =
     (case chunks_lookup_by_client_id (ul_session u) (ul_speaker u)
             (hd_client_chunk_id (ul_headers u)) d of
        Some c \<Rightarrow> Answered (Inr \<lparr>ur_seq = ch_seq c, ur_s3_key = ch_s3_key c,
                                ur_deduplicated = True\<rparr>)
      | None \<Rightarrow> Missed)"

definition upload_locked :: "'s upload_call \<Rightarrow> ('s, upload_response) operation" where
  "upload_locked u w =
     upload_new (ul_state u) (ul_env u) (ul_service u) (ul_session u) (ul_speaker u) (ul_headers u)
       (ul_body u) (w_db w) w"

inductive race_step ::
    "(nat \<Rightarrow> 's upload_call) \<Rightarrow> (nat \<Rightarrow> upload_pc) \<times> 's world \<Rightarrow> (nat \<Rightarrow> upload_pc) \<times> 's world \<Rightarrow>
     bool" for calls where
  look: "pc i = Arrived \<Longrightarrow>
    race_step calls (pc, w) (pc(i := upload_look (calls i) (w_db w)), w)"
| locked: "pc i = Missed \<Longrightarrow> upload_locked (calls i) w = (r, w') \<Longrightarrow>
    race_step calls (pc, w) (pc(i := Answered r), w')"
| other: "tx_step (w_db w) (w_db w') \<Longrightarrow>
    set (t_chunks (w_db w)) \<subseteq> set (t_chunks (w_db w')) \<Longrightarrow> race_step calls (pc, w) (pc, w')"

abbreviation race_run where
  "race_run calls \<equiv> (race_step calls)\<^sup>*\<^sup>*"

text \<open>A route that runs without interruption is such a run of its own two steps.\<close>

lemma route_is_race:
  assumes run: "chunks_upload_route (ul_state u) (ul_env u) rfc (ul_service u) (ul_session u)
      (pid_str (ul_speaker u)) headers (ul_body u) w = (r, w')"
    and h: "parse_chunk_headers rfc headers = Inr (ul_headers u)"
    and p: "pid_str (ul_speaker u) = MIXED_PSEUDO_ID \<or> is_valid_pseudo_id (pid_str (ul_speaker u))"
  shows "race_run (\<lambda>_. u) (\<lambda>_. Arrived, w) ((\<lambda>_. Arrived)(0 := Answered r), w')"
proof -
  have step: "race_step (\<lambda>_. u) (\<lambda>_. Arrived, w) ((\<lambda>_. Arrived)(0 := upload_look u (w_db w)), w)"
    by (rule race_step.look) simp
  show ?thesis
  proof (cases "upload_look u (w_db w)")
    case Missed
    then have "chunks_lookup_by_client_id (ul_session u) (ul_speaker u)
        (hd_client_chunk_id (ul_headers u)) (w_db w) = None"
      by (simp add: upload_look_def split: option.splits)
    with run h p have "upload_locked u w = (r, w')"
      by (simp add: chunks_upload_route_def h_bind_def pseudo_id_new_or_mixed_def upload_locked_def)
    then have "race_step (\<lambda>_. u) ((\<lambda>_. Arrived)(0 := Missed), w)
        (((\<lambda>_. Arrived)(0 := Missed))(0 := Answered r), w')"
      by (intro race_step.locked) simp_all
    with step Missed show ?thesis by (simp add: converse_rtranclp_into_rtranclp)
  next
    case (Answered a)
    with run h p have "a = r \<and> w' = w"
      by (auto simp: chunks_upload_route_def h_bind_def pseudo_id_new_or_mixed_def upload_look_def
          split: option.splits)
    with step Answered show ?thesis by auto
  qed (simp add: upload_look_def split: option.splits)
qed

subsection \<open>What every state of a race satisfies\<close>

definition answer_stored :: "'s upload_call \<Rightarrow> upload_response \<Rightarrow> chunk_row list \<Rightarrow> bool" where
  "answer_stored u r cs \<longleftrightarrow>
     (\<exists>c \<in> set cs. chunk_client_key c = call_key u \<and> ch_seq c = ur_seq r \<and>
        ch_s3_key c = ur_s3_key r)"

definition race_inv :: "(nat \<Rightarrow> 's upload_call) \<Rightarrow> (nat \<Rightarrow> upload_pc) \<times> 's world \<Rightarrow> bool" where
  "race_inv calls x \<longleftrightarrow>
     (case x of (pc, w) \<Rightarrow> service_inv (w_db w) \<and>
        (\<forall>i r. pc i = Answered (Inr r) \<longrightarrow> answer_stored (calls i) r (t_chunks (w_db w))) \<and>
        (\<forall>i j r r'. i \<noteq> j \<longrightarrow> call_key (calls i) = call_key (calls j) \<longrightarrow>
           pc i = Answered (Inr r) \<longrightarrow> pc j = Answered (Inr r') \<longrightarrow>
           ur_deduplicated r \<or> ur_deduplicated r'))"

lemma answer_stored_mono:
  "answer_stored u r cs \<Longrightarrow> set cs \<subseteq> set cs' \<Longrightarrow> answer_stored u r cs'"
  by (auto simp: answer_stored_def)

lemma answer_stored_has_key:
  "answer_stored u r cs \<Longrightarrow> has_key chunk_client_key (call_key u) cs"
  by (auto simp: answer_stored_def has_key_def)

lemma upload_look_stored:
  "upload_look u d = Answered (Inr r) \<Longrightarrow>
   answer_stored u r (t_chunks d) \<and> ur_deduplicated r"
  by (auto simp: upload_look_def chunks_lookup_by_client_id_def answer_stored_def call_key_def
      chunk_client_key_def in_stream_def find_Some_iff split: option.splits)

lemma upload_locked_Inr:
  assumes "upload_locked u w = (Inr r, w')"
  shows "tx_step (w_db w) (w_db w')" "set (t_chunks (w_db w)) \<subseteq> set (t_chunks (w_db w'))"
    "answer_stored u r (t_chunks (w_db w'))"
    "\<not> has_key chunk_client_key (call_key u) (t_chunks (w_db w))"
proof -
  note run = assms [unfolded upload_locked_def]
  show "tx_step (w_db w) (w_db w')"
    using run unfolding upload_new_eq_Inr by (auto intro!: tx_step.upload)
  obtain c where c: "t_chunks (w_db w') = t_chunks (w_db w) @ [c]"
      "in_stream (ul_session u) (ul_speaker u) c" "ch_seq c = ur_seq r" "ch_s3_key c = ur_s3_key r"
      "ch_client_chunk_id c = hd_client_chunk_id (ul_headers u)"
    using upload_new_row [OF run] by blast
  then show "set (t_chunks (w_db w)) \<subseteq> set (t_chunks (w_db w'))"
    "answer_stored u r (t_chunks (w_db w'))"
    by (auto simp: answer_stored_def call_key_def chunk_client_key_def in_stream_def)
  show "\<not> has_key chunk_client_key (call_key u) (t_chunks (w_db w))"
    using run unfolding upload_new_eq_Inr by (auto simp: call_key_def)
qed

lemma race_step_inv:
  assumes "race_step calls x y" and "race_inv calls x"
  shows "race_inv calls y"
  using assms
proof (induction rule: race_step.induct)
  case (look pc i w)
  then show ?case
    using upload_look_stored [of "calls i" "w_db w"] by (auto simp: race_inv_def)
next
  case (locked pc i w r w')
  show ?case
  proof (cases r)
    case (Inl e)
    with locked have "w_db w' = w_db w"
      by (auto simp: upload_locked_def dest: upload_new_error)
    with locked Inl show ?thesis by (auto simp: race_inv_def)
  next
    case (Inr a)
    note won = upload_locked_Inr [OF locked(2) [unfolded Inr]]
    have fresh: "call_key (calls j) \<noteq> call_key (calls i)" if "pc j = Answered (Inr b)" for j b
    proof -
      from that locked(3) have "answer_stored (calls j) b (t_chunks (w_db w))"
        by (auto simp: race_inv_def)
      with won(4) show ?thesis by (metis answer_stored_has_key)
    qed
    have stored: "answer_stored (calls j) b (t_chunks (w_db w'))" if "pc j = Answered (Inr b)" for j b
      using that locked(3) by (auto simp: race_inv_def intro: answer_stored_mono [OF _ won(2)])
    have "service_inv (w_db w')"
      using plain.tx_step_keeps [OF won(1)] locked(3) by (simp add: race_inv_def)
    then show ?thesis
      using locked(3) won(3) fresh stored unfolding Inr race_inv_def by auto metis+
  qed
next
  case (other w w' pc)
  then have "service_inv (w_db w')"
    using plain.tx_step_keeps by (auto simp: race_inv_def)
  with other show ?case by (auto simp: race_inv_def intro: answer_stored_mono)
qed

lemma race_run_inv:
  assumes "race_run calls (\<lambda>_. Arrived, w0) x" and "service_inv (w_db w0)"
  shows "race_inv calls x"
  using assms(1)
proof (induction rule: rtranclp_induct)
  case base
  with assms(2) show ?case by (simp add: race_inv_def)
qed (rule race_step_inv)

subsection \<open>The loser\<close>

text \<open>The insert comes before the put, so the loser of a race stores no object.\<close>

lemma upload_locked_loses:
  assumes "has_key chunk_client_key (call_key u) (t_chunks (w_db w))"
  shows "\<exists>e. upload_locked u w = (Inl e, w)"
proof -
  have "\<exists>e. chunks_insert now (ul_session u) (ul_speaker u) k n t ms
      (hd_client_chunk_id (ul_headers u)) (w_db w) = Inl e" for now k n t ms
    using assms by (auto simp: chunks_insert_def Let_def call_key_def)
  then show ?thesis
    unfolding upload_locked_def upload_new_def
    by (auto simp: h_bind_def sessions_get_in_tx_def Let_def split: option.splits sum.splits)
      (metis sum.distinct(1) sum.sel(1))
qed

lemma lookup_stored:
  assumes inv: "service_inv d" and st: "answer_stored u r (t_chunks d)"
  shows "\<exists>c. chunks_lookup_by_client_id (ul_session u) (ul_speaker u)
      (hd_client_chunk_id (ul_headers u)) d = Some c \<and> ch_seq c = ur_seq r \<and>
      ch_s3_key c = ur_s3_key r"
proof -
  have dist: "distinct (map chunk_client_key (t_chunks d))"
    using db_wfD(6) [OF service_invD(1) [OF inv]] by (simp add: chunks_wf_def)
  obtain c where c: "c \<in> set (t_chunks d)" "chunk_client_key c = call_key u"
      "ch_seq c = ur_seq r" "ch_s3_key c = ur_s3_key r"
    using st by (auto simp: answer_stored_def)
  let ?P = "\<lambda>c. in_stream (ul_session u) (ul_speaker u) c \<and>
      ch_client_chunk_id c = hd_client_chunk_id (ul_headers u)"
  have P: "?P c' \<longleftrightarrow> chunk_client_key c' = call_key u" for c'
    by (auto simp: in_stream_def call_key_def chunk_client_key_def)
  have "List.find ?P (t_chunks d) \<noteq> None" using c(1,2) by (auto simp: find_None_iff P)
  then obtain c' where c': "List.find ?P (t_chunks d) = Some c'" by blast
  then have "c' \<in> set (t_chunks d)" "chunk_client_key c' = call_key u"
    by (auto simp: find_Some_iff P)
  with c(1,2) dist have "c' = c" by (auto simp: distinct_map inj_on_def)
  with c c' show ?thesis by (simp add: chunks_lookup_by_client_id_def)
qed

lemma answers_agree:
  assumes "service_inv d" and "answer_stored u r (t_chunks d)" and "answer_stored v r' (t_chunks d)"
    and "call_key u = call_key v"
  shows "ur_seq r = ur_seq r' \<and> ur_s3_key r = ur_s3_key r'"
  using lookup_stored [OF assms(1,2)] lookup_stored [OF assms(1,3)] assms(4)
  by (auto simp: call_key_def)

text \<open>C9. Any number of uploads race, interleaved between their lookup and their lock with each
  other and with transactions that remove no chunk. When one of them has been told that its chunk is
  stored, then of all uploads with the same session, speaker and client chunk id: those told so
  too were told the same sequence number and object key, and only one of them was not marked as
  deduplicated; one that found nothing before and still waits for the lock will fail and leave
  everything, the object store included, as it is; and one that only arrives now is answered
  with the stored chunk, marked as deduplicated.\<close>

theorem racing_uploads_one_winner:
  assumes start: "service_inv (w_db w0)"
    and run: "race_run calls (\<lambda>_. Arrived, w0) (pc, w)"
    and told: "pc i = Answered (Inr r)"
    and same: "call_key (calls j) = call_key (calls i)" and other: "j \<noteq> i"
  shows "(\<forall>r'. pc j = Answered (Inr r') \<longrightarrow> ur_seq r' = ur_seq r \<and> ur_s3_key r' = ur_s3_key r \<and>
      (ur_deduplicated r \<or> ur_deduplicated r')) \<and>
    (pc j = Missed \<longrightarrow> (\<exists>e. upload_locked (calls j) w = (Inl e, w))) \<and>
    upload_look (calls j) (w_db w) = Answered (Inr (r\<lparr>ur_deduplicated := True\<rparr>))"
proof -
  have inv: "race_inv calls (pc, w)" by (rule race_run_inv [OF run start])
  then have db: "service_inv (w_db w)"
    and stored: "\<And>k r. pc k = Answered (Inr r) \<Longrightarrow> answer_stored (calls k) r (t_chunks (w_db w))"
    by (auto simp: race_inv_def)
  have "answer_stored (calls j) r (t_chunks (w_db w))"
    using stored [OF told] same by (simp add: answer_stored_def)
  from lookup_stored [OF db this] obtain c where
    "chunks_lookup_by_client_id (ul_session (calls j)) (ul_speaker (calls j))
       (hd_client_chunk_id (ul_headers (calls j))) (w_db w) = Some c"
    "ch_seq c = ur_seq r" "ch_s3_key c = ur_s3_key r" by blast
  then have "upload_look (calls j) (w_db w) = Answered (Inr (r\<lparr>ur_deduplicated := True\<rparr>))"
    by (simp add: upload_look_def)
  moreover have "\<exists>e. upload_locked (calls j) w = (Inl e, w)"
    using upload_locked_loses answer_stored_has_key [OF stored [OF told]] same by metis
  moreover have "ur_seq r' = ur_seq r \<and> ur_s3_key r' = ur_s3_key r \<and>
      (ur_deduplicated r \<or> ur_deduplicated r')" if "pc j = Answered (Inr r')" for r'
    using answers_agree [OF db stored [OF that] stored [OF told] same] inv that told same other
    unfolding race_inv_def by (simp, metis)
  ultimately show ?thesis by blast
qed

definition sample_call :: "nat \<Rightarrow> mem_objects upload_call" where
  "sample_call i =
     \<lparr>ul_state = sample_state, ul_env = (if i = 0 then sample_env else sample_env2),
      ul_service = ''bot'', ul_session = 1, ul_speaker = sample_pid,
      ul_headers = \<lparr>hd_capture_started_at = 12, hd_duration_ms = 2000,
        hd_client_chunk_id = ''c1''\<rparr>,
      ul_body = Inr [of_nat i]\<rparr>"

theorem racing_uploads_one_winner_witness:
  "\<exists>w e. race_run sample_call (\<lambda>_. Arrived, sample_world (sample_db Recording))
       ((\<lambda>_. Arrived)(0 := Missed, 1 := Missed), sample_world (sample_db Recording)) \<and>
     upload_locked (sample_call 0) (sample_world (sample_db Recording)) =
       (Inr \<lparr>ur_seq = 0, ur_s3_key = chunk_s3_key ''sessions/1'' sample_pid 0,
             ur_deduplicated = False\<rparr>, w) \<and>
     upload_locked (sample_call 1) w = (Inl e, w)"
proof -
  let ?w = "sample_world (sample_db Recording)"
  let ?r = "\<lparr>ur_seq = 0, ur_s3_key = chunk_s3_key ''sessions/1'' sample_pid 0,
    ur_deduplicated = False\<rparr>"
  let ?pc = "(\<lambda>_. Arrived)(0 := Missed, 1 := Missed)"
  have miss: "upload_look (sample_call i) (w_db ?w) = Missed" for i
    by (simp add: upload_look_def chunks_lookup_by_client_id_def sample_defs)
  have look: "race_step sample_call (pc, ?w) (pc(i := Missed), ?w)" if "pc i = Arrived" for pc i
    using race_step.look [of pc i sample_call ?w] that by (simp add: miss)
  have "race_step sample_call (\<lambda>_. Arrived, ?w) ((\<lambda>_. Arrived)(0 := Missed), ?w)"
    by (rule look) simp
  moreover have "race_step sample_call ((\<lambda>_. Arrived)(0 := Missed), ?w) (?pc, ?w)"
    by (rule look) simp
  ultimately have run: "race_run sample_call (\<lambda>_. Arrived, ?w) (?pc, ?w)" by auto
  have "\<exists>w. upload_locked (sample_call 0) ?w = (Inr ?r, w)"
    unfolding upload_locked_def upload_new_eq_Inr
    by (simp add: sample_call_def sample_defs find_session_def next_seq_def max_seq_def
        stream_rows_def in_int4_def chunk_pid_ok_def MAX_CHUNK_BYTES_def mem_store_def mem_put_def)
  then obtain w where won: "upload_locked (sample_call 0) ?w = (Inr ?r, w)" by blast
  have "race_step sample_call (?pc, ?w) (?pc(0 := Answered (Inr ?r)), w)"
    using race_step.locked [where calls = sample_call and i = 0 and pc = ?pc and w = ?w and w' = w
      and r = "Inr ?r"] won by simp
  with run have run': "race_run sample_call (\<lambda>_. Arrived, ?w) (?pc(0 := Answered (Inr ?r)), w)"
    by (rule rtranclp.rtrancl_into_rtrancl)
  have inv: "service_inv (w_db ?w)" by (simp add: sample_world_def sample_inv)
  have "call_key (sample_call 1) = call_key (sample_call 0)"
    by (simp add: call_key_def sample_call_def)
  from racing_uploads_one_winner [OF inv run' _ this] run won show ?thesis by auto
qed

end
