(* ===== verification/Document_Races.thy ===== *)
theory Document_Races
  imports Uniform_Properties
begin

section \<open>Patches that race on one document\<close>

text \<open>
  What the row lock of the locking reads in \<^verbatim>\<open>src/db/metadata.rs\<close> and \<^verbatim>\<open>src/db/uniform.rs\<close> buys, and
  where it buys nothing. A patch here is the transaction of its handler, in the two steps of
  \<open>Versioned\<close>: the locking read and the rest. On a document that exists any run is serial, no merged
  key is lost, and one \<^verbatim>\<open>If-Match\<close> tag lets one patch through. Of a blob that does not exist yet there
  is no row to lock, and of two first merges the second overwrites the first.
\<close>

subsection \<open>A document that exists\<close>

definition won_once :: "(nat \<Rightarrow> ('m, 'e, 'u) doc_pc) \<Rightarrow> bool" where
  "won_once pc \<longleftrightarrow> (\<forall>i j u v. pc i = Ended (Inr u) \<longrightarrow> pc j = Ended (Inr v) \<longrightarrow> i = j)"

definition sample_merges :: "nat \<Rightarrow> merge_call" where
  "sample_merges i = \<lparr>mg_now = 7, mg_tag0 = ETag ''0'', mg_tag1 = ETag ''a'',
     mg_expected = Some sample_tag,
     mg_patch = JObj [(if i = 0 then ''x'' else ''y'', JInt (int i))]\<rparr>"

definition sample_patches :: "nat \<Rightarrow> row_call" where
  "sample_patches i = \<lparr>rc_now = 7, rc_tag = ETag ''b'', rc_expected = Some sample_tag,
     rc_patch = sample_row_patch\<rparr>"

lemma sample_merge_runs:
  obtains pc d m where "doc_run (find_metadata 1) (merge_after 1) (replaced 1 P) sample_merges
      (\<lambda>_. Waiting, sample_docs) (pc, d)"
    and "pc 0 = Ended (Inr m)" and "pc 1 = Ended (Inl (PreconditionFailed (ETag ''a'')))"
proof -
  obtain m d where ok: "merge_after 1 (sample_merges 0) (find_metadata 1 sample_docs) sample_docs =
      Inr (m, d)" and tag: "map_option md_etag (find_metadata 1 d) = Some (ETag ''a'')"
    by (simp add: merge_after_def sample_merges_def sample_doc_defs find_metadata_def tx_bind_def
        check_expected_def merge_shallow_def bind_res_def metadata_upsert_def Let_def)
  from tag have "merge_after 1 (sample_merges 1) (find_metadata 1 d) d =
      Inl (PreconditionFailed (ETag ''a''))"
    by (auto simp: merge_after_def sample_merges_def tx_bind_def check_expected_def sample_tag_def)
  with ok show thesis
    by (intro that [OF doc_run_two [of "merge_after 1" sample_merges "find_metadata 1" sample_docs
          "Inr m" d "Inl (PreconditionFailed (ETag ''a''))" d]])
      (simp_all add: run_or_rollback_def)
qed

lemma sample_patch_runs:
  obtains pc d u where "doc_run (find_pg SEGMENTS 70) (patch_after SEGMENTS 70) (\<lambda>_ _. False)
      sample_patches (\<lambda>_. Waiting, sample_docs) (pc, d)"
    and "pc 0 = Ended (Inr u)"
proof -
  have "\<exists>u d. patch_after SEGMENTS 70 (sample_patches 0) (find_pg SEGMENTS 70 sample_docs)
      sample_docs = Inr (u, d)"
    by (simp add: patch_after_def sample_patches_def sample_doc_defs sample_row_patch_def
        find_pg_def tx_bind_def row_from_pg_def decode_opt_pid_def bind_res_def check_expected_def
        uniform_update_pg_def update_pg_def apply_patch_def Let_def unwrap_or_def author_ok_def
        ok_or_def)
  then obtain u d where "patch_after SEGMENTS 70 (sample_patches 0)
      (find_pg SEGMENTS 70 sample_docs) sample_docs = Inr (u, d)" by blast
  then show thesis
    by (intro that [OF doc_run_alone [of "patch_after SEGMENTS 70" sample_patches 0
          "find_pg SEGMENTS 70" sample_docs "Inr u" d "\<lambda>_. Waiting"]])
      (simp_all add: run_or_rollback_def)
qed

text \<open>C19. Of any number of patches that race on one document with the same \<^verbatim>\<open>If-Match\<close> tag, however
  their statements and those of other transactions interleave, at most one succeeds: no update is
  lost. It holds of the metadata blob (also while others \<^verbatim>\<open>POST\<close> a new one) and of every row,
  provided the document exists and the tags drawn for new versions differ from the tag named (64
  random bits).\<close>

theorem racing_patches_one_winner:
  assumes "find_metadata sid d0 \<noteq> None" and "find_pg rt k d0 \<noteq> None"
    and "\<forall>i. mg_expected (ms i) = Some e \<and> mg_tag1 (ms i) \<noteq> e"
    and "\<forall>i. rc_expected (ps i) = Some e \<and> rc_tag (ps i) \<noteq> e"
    and "doc_run (find_metadata sid) (merge_after sid) (replaced sid (\<lambda>t. t \<noteq> e)) ms
           (\<lambda>_. Waiting, d0) (pc, d)"
    and "doc_run (find_pg rt k) (patch_after rt k) (\<lambda>_ _. False) ps (\<lambda>_. Waiting, d0) (qc, c)"
  shows "won_once pc \<and> won_once qc"
proof -
  have "map_option md_etag (find_metadata sid d') \<noteq> Some e"
    if "replaced sid (\<lambda>t. t \<noteq> e) x d'" for x d' using replaced_read [OF that] by auto
  then have "won_once pc"
    using metadata_doc.one_winner [OF assms(5,1), of e] assms(3) unfolding won_once_def by blast
  moreover have "won_once qc"
    using row_doc.one_winner [OF assms(6,2), of e] assms(4) unfolding won_once_def by blast
  ultimately show ?thesis ..
qed

theorem racing_patches_one_winner_witness:
  "\<exists>pc d m qc c u.
     doc_run (find_metadata 1) (merge_after 1) (replaced 1 (\<lambda>t. t \<noteq> sample_tag)) sample_merges
       (\<lambda>_. Waiting, sample_docs) (pc, d) \<and> pc 0 = Ended (Inr m) \<and>
     doc_run (find_pg SEGMENTS 70) (patch_after SEGMENTS 70) (\<lambda>_ _. False) sample_patches
       (\<lambda>_. Waiting, sample_docs) (qc, c) \<and> qc 0 = Ended (Inr u) \<and> won_once pc \<and> won_once qc"
proof -
  obtain pc d m where p: "doc_run (find_metadata 1) (merge_after 1)
      (replaced 1 (\<lambda>t. t \<noteq> sample_tag)) sample_merges (\<lambda>_. Waiting, sample_docs) (pc, d)"
    "pc 0 = Ended (Inr m)" by (rule sample_merge_runs)
  obtain qc c u where q: "doc_run (find_pg SEGMENTS 70) (patch_after SEGMENTS 70) (\<lambda>_ _. False)
      sample_patches (\<lambda>_. Waiting, sample_docs) (qc, c)" "qc 0 = Ended (Inr u)"
    by (rule sample_patch_runs)
  have "won_once pc \<and> won_once qc"
    by (rule racing_patches_one_winner [OF _ _ _ _ p(1) q(1)])
      (simp_all add: sample_merges_def sample_patches_def sample_doc_defs find_metadata_def
        find_pg_def sample_tag_def)
  with p q show ?thesis by blast
qed

text \<open>
  The specification of a document under a tag: the tag and the members of the object (none if the
  blob is neither an object nor null). \<open>merge_spec\<close> is what one patch may answer and do, \<open>replay\<close> any
  number of them one after another.
\<close>

type_synonym document = "etag \<times> (string \<rightharpoonup> json) option"

datatype outcome = Merged document | Stale etag | Malformed

definition document_of :: "metadata_blob \<Rightarrow> document" where
  "document_of m =
     (md_etag m, case md_blob m of JObj b \<Rightarrow> Some (map_of b) | JNull \<Rightarrow> Some Map.empty | _ \<Rightarrow> None)"

definition merge_spec :: "merge_call \<Rightarrow> document \<Rightarrow> outcome \<times> document" where
  "merge_spec c x =
     (case x of (tag, doc) \<Rightarrow>
        if mg_expected c \<noteq> None \<and> mg_expected c \<noteq> Some tag then (Stale tag, x)
        else case (doc, mg_patch c) of
            (Some f, JObj p) \<Rightarrow> (let y = (mg_tag1 c, Some (f ++ map_of p)) in (Merged y, y))
          | _ \<Rightarrow> (Malformed, x))"

fun replay :: "(nat \<Rightarrow> merge_call) \<Rightarrow> nat list \<Rightarrow> document \<Rightarrow> (nat \<times> outcome) list \<times> document" where
  "replay ms [] x = ([], x)"
| "replay ms (i # is) x =
     (let (r, y) = merge_spec (ms i) x; (rs, z) = replay ms is y in ((i, r) # rs, z))"

fun told :: "outcome \<Rightarrow> app_error + metadata_blob \<Rightarrow> bool" where
  "told (Merged y) r = (\<exists>m. r = Inr m \<and> document_of m = y)"
| "told (Stale tag) r = (r = Inl (PreconditionFailed tag))"
| "told Malformed r = (\<exists>msg. r = Inl (BadRequest msg))"

lemma replay_snoc:
  "replay ms (is @ [i]) x =
     (let (rs, y) = replay ms is x; (r, z) = merge_spec (ms i) y in (rs @ [(i, r)], z))"
  by (induction "is" arbitrary: x) (simp_all add: split_def Let_def)

lemma merge_meets_spec:
  assumes m: "find_metadata sid d = Some m"
    and keys: "\<forall>p. mg_patch c = JObj p \<longrightarrow> distinct (map fst p)"
    and run: "run_or_rollback (merge_after sid c (Some m)) d = (r, d')"
  shows "\<exists>out m'. find_metadata sid d' = Some m' \<and>
    merge_spec c (document_of m) = (out, document_of m') \<and> told out r"
proof (cases "mg_expected c \<noteq> None \<and> mg_expected c \<noteq> Some (md_etag m)")
  case True
  then have "check_expected (mg_expected c) (md_etag m) = Inl (PreconditionFailed (md_etag m))"
    by (auto simp: check_expected_stale)
  with run have "r = Inl (PreconditionFailed (md_etag m)) \<and> d' = d"
    by (auto simp: run_or_rollback_def merge_after_def tx_bind_def tx_lift_def)
  with True m show ?thesis by (auto simp: merge_spec_def document_of_def)
next
  case False
  then have ok: "check_expected (mg_expected c) (md_etag m) = Inr ()" by auto
  obtain doc where doc: "document_of m = (md_etag m, doc)" by (simp add: document_of_def)
  have spec: "merge_spec c (document_of m) = (case (snd (document_of m), mg_patch c) of
      (Some f, JObj p) \<Rightarrow> (let y = (mg_tag1 c, Some (f ++ map_of p)) in (Merged y, y))
    | _ \<Rightarrow> (Malformed, document_of m))"
    using False by (auto simp: merge_spec_def doc split: option.split json.split)
  show ?thesis
  proof (cases "merge_shallow (md_blob m) (mg_patch c)")
    case (Inl e)
    then obtain msg where "e = BadRequest msg"
      and none: "snd (document_of m) = None \<or> (\<forall>p. mg_patch c \<noteq> JObj p)"
      by (cases "md_blob m"; cases "mg_patch c") (auto simp: merge_shallow_def document_of_def)
    then have "r = Inl (BadRequest msg) \<and> d' = d"
      using run ok Inl by (auto simp: run_or_rollback_def merge_after_def tx_bind_def tx_lift_def)
    moreover have "merge_spec c (document_of m) = (Malformed, document_of m)"
      using none by (auto simp: spec split: option.split json.split)
    ultimately show ?thesis using m by auto
  next
    case (Inr merged)
    then obtain b p where base: "md_blob m = JObj b \<or> md_blob m = JNull \<and> b = []"
      and p: "mg_patch c = JObj p" and merged: "merged = JObj (obj_extend b p)"
      by (auto simp: merge_shallow_eq_Inr)
    obtain m' where up: "metadata_upsert (mg_now c) sid merged (mg_tag1 c) d = Inr (m', d')"
      and r: "r = Inr m'"
      using run ok Inr m
      by (auto simp: run_or_rollback_def merge_after_def tx_bind_def tx_lift_def metadata_upsert_def
          Let_def)
    have "document_of m' = (mg_tag1 c, Some (map_of b ++ map_of p))"
      using metadata_upsert_get(2,3) [OF up] keys p
      by (simp add: document_of_def merged map_of_obj_extend)
    moreover have "snd (document_of m) = Some (map_of b)" using base by (auto simp: document_of_def)
    ultimately show ?thesis using metadata_upsert_get(1) [OF up] by (simp add: spec p r Let_def)
  qed
qed

lemma not_replaced [simp]: "\<not> replaced sid (\<lambda>_. False) d d'"
  by (simp add: replaced_def)

text \<open>The log of a serial run and the answers of the specification, entry by entry.\<close>

abbreviation answers_match where
  "answers_match \<equiv> list_all2 (\<lambda>(i, r) (j, out). i = j \<and> told out r)"

lemma answers_match_told:
  assumes "answers_match lg rs"
  shows "map fst rs = map fst lg" and "(i, out) \<in> set rs \<Longrightarrow> \<exists>r. (i, r) \<in> set lg \<and> told out r"
  using assms by (induction lg rs rule: list_all2_induct) auto

lemma serial_meets_spec:
  assumes ser: "serial_run (find_metadata sid) (merge_after sid) (replaced sid (\<lambda>_. False)) ms d0 lg d"
    and m0: "find_metadata sid d0 = Some m0"
    and keys: "\<forall>i p. mg_patch (ms i) = JObj p \<longrightarrow> distinct (map fst p)"
  shows "\<exists>m rs. find_metadata sid d = Some m \<and>
    replay ms (map fst lg) (document_of m0) = (rs, document_of m) \<and>
    answers_match lg rs"
  using ser
proof (induction rule: serial_run.induct)
  case start
  show ?case by (simp add: m0)
next
  case (call lg d i r d')
  then obtain m rs where m: "find_metadata sid d = Some m"
    and re: "replay ms (map fst lg) (document_of m0) = (rs, document_of m)"
    and all: "answers_match lg rs" by blast
  obtain out m' where m': "find_metadata sid d' = Some m'"
      "merge_spec (ms i) (document_of m) = (out, document_of m')" "told out r"
    using merge_meets_spec [OF m, of "ms i"] keys call.hyps(2) m by auto
  moreover have "answers_match (lg @ [(i, r)]) (rs @ [(i, out)])"
    using all m'(3) by (simp add: list_all2_appendI)
  ultimately show ?case by (simp add: replay_snoc re)
qed auto

text \<open>C20. Racing merge patches of an existing blob refine a document that is patched by one at a time:
  however their statements interleave with each other and with other transactions that leave the
  blob alone, there is an order of the patches that have been answered in which \<open>replay\<close> of the
  specification gives the tag and the members the blob ends with and, to each of them, its answer.
  A patch that names a tag other than the current one is refused with the current tag and changes
  nothing; every other one whose body is an object leaves the members of the old blob overridden by
  its own, under its new tag, and is answered with that. (Bodies are decoded objects, so their keys
  are distinct; the lock of the locking read is Postgres' own, a part of the step relation.)\<close>

theorem racing_merges_refine:
  assumes m0: "find_metadata sid d0 = Some m0"
    and keys: "\<forall>i p. mg_patch (ms i) = JObj p \<longrightarrow> distinct (map fst p)"
    and run: "doc_run (find_metadata sid) (merge_after sid) (replaced sid (\<lambda>_. False)) ms
      (\<lambda>_. Waiting, d0) (pc, d)"
  shows "\<exists>order rs m. distinct order \<and> set order = {i. \<exists>r. pc i = Ended r} \<and>
    find_metadata sid d = Some m \<and> replay ms order (document_of m0) = (rs, document_of m) \<and>
    map fst rs = order \<and> (\<forall>(i, out) \<in> set rs. \<exists>r. pc i = Ended r \<and> told out r)"
proof -
  obtain lg where ser: "serial_run (find_metadata sid) (merge_after sid) (replaced sid (\<lambda>_. False)) ms
      d0 lg d" and dist: "distinct (map fst lg)" and log: "\<And>i r. pc i = Ended r \<longleftrightarrow> (i, r) \<in> set lg"
    using metadata_doc.serialised [OF run] m0 by auto
  from serial_meets_spec [OF ser m0 keys] obtain m rs where m: "find_metadata sid d = Some m"
    and re: "replay ms (map fst lg) (document_of m0) = (rs, document_of m)"
    and all: "answers_match lg rs" by blast
  have "\<forall>(i, out) \<in> set rs. \<exists>r. pc i = Ended r \<and> told out r"
    using answers_match_told(2) [OF all] log by blast
  moreover have "set (map fst lg) = {i. \<exists>r. pc i = Ended r}"
    using log by force
  ultimately show ?thesis using dist m re answers_match_told(1) [OF all]
    by (intro exI [of _ "map fst lg"] exI [of _ rs] exI [of _ m]) auto
qed

theorem racing_merges_refine_witness:
  "\<exists>pc d order rs m. doc_run (find_metadata 1) (merge_after 1) (replaced 1 (\<lambda>_. False)) sample_merges
       (\<lambda>_. Waiting, sample_docs) (pc, d) \<and> {0, 1} \<subseteq> set order \<and>
     replay sample_merges order (sample_tag, Some [''a'' \<mapsto> JInt 1, ''b'' \<mapsto> JInt 2]) = (rs, document_of m) \<and>
     find_metadata 1 d = Some m"
proof -
  obtain pc d m where p: "doc_run (find_metadata 1) (merge_after 1)
      (replaced 1 (\<lambda>_. False)) sample_merges (\<lambda>_. Waiting, sample_docs) (pc, d)"
    "pc 0 = Ended (Inr m)" "pc 1 = Ended (Inl (PreconditionFailed (ETag ''a'')))"
    by (rule sample_merge_runs)
  obtain m0 where m0: "find_metadata 1 sample_docs = Some m0"
    and doc: "document_of m0 = (sample_tag, Some [''a'' \<mapsto> JInt 1, ''b'' \<mapsto> JInt 2])"
    by (auto simp: sample_doc_defs find_metadata_def document_of_def fun_eq_iff)
  have keys: "\<forall>i q. mg_patch (sample_merges i) = JObj q \<longrightarrow> distinct (map fst q)"
    by (simp add: sample_merges_def)
  from racing_merges_refine [OF m0 keys p(1)] obtain order rs m' where
    "set order = {i. \<exists>r. pc i = Ended r}" "find_metadata 1 d = Some m'"
    "replay sample_merges order (document_of m0) = (rs, document_of m')" by blast
  with p show ?thesis unfolding doc by blast
qed

text \<open>The keys of a serial run of merges that nobody replaces stay in the blob.\<close>

lemma keys_extend: "fst ` set (obj_extend b p) = fst ` set b \<union> fst ` set p"
  unfolding obj_extend_def
  by (induction b p rule: bmap_extend.induct) (auto simp: keys_bmap_insert)

definition blob_keys :: "metadata_blob option \<Rightarrow> string set" where
  "blob_keys m = {k. \<exists>r b. m = Some r \<and> md_blob r = JObj b \<and> k \<in> fst ` set b}"

lemma merge_grows:
  assumes "merge_after sid c (find_metadata sid d) d = Inr (u, d')" and "mg_patch c = JObj p"
  shows "blob_keys (find_metadata sid d) \<union> fst ` set p \<subseteq> blob_keys (find_metadata sid d')"
proof -
  have keys: "blob_keys (Some r) = fst ` set b" if "md_blob r = JObj b" for r b
    using that by (auto simp: blob_keys_def)
  obtain b where b: "case find_metadata sid d of
        Some r \<Rightarrow> md_blob r = JObj b \<or> md_blob r = JNull \<and> b = [] | None \<Rightarrow> b = []"
    and up: "metadata_upsert (mg_now c) sid (JObj (obj_extend b p)) (mg_tag1 c) d = Inr (u, d')"
    using assms
    by (cases "find_metadata sid d") (auto simp: merge_after_eq_Inr merge_shallow_eq_Inr)
  from b have "blob_keys (find_metadata sid d) \<subseteq> fst ` set b"
    by (auto simp: blob_keys_def image_iff split: option.splits)
  from metadata_upsert_get(1,2) [OF up] this show ?thesis by (simp add: keys keys_extend) blast
qed

lemma serial_merges_kept:
  assumes "serial_run (find_metadata sid) (merge_after sid) (replaced sid (\<lambda>_. False)) ms d0 lg d"
  shows "\<forall>i u p. (i, Inr u) \<in> set lg \<longrightarrow> mg_patch (ms i) = JObj p \<longrightarrow>
    fst ` set p \<subseteq> blob_keys (find_metadata sid d)"
  using assms
proof (induction rule: serial_run.induct)
  case (call lg d i r d')
  show ?case
  proof (cases r)
    case (Inl e)
    with call show ?thesis by (auto simp: run_or_rollback_eq)
  next
    case (Inr u)
    with call(2) have ok: "merge_after sid (ms i) (find_metadata sid d) d = Inr (u, d')"
      by (simp add: run_or_rollback_eq)
    obtain q where q: "mg_patch (ms i) = JObj q"
      using ok by (auto simp: merge_after_eq_Inr merge_shallow_eq_Inr)
    have grows: "blob_keys (find_metadata sid d) \<subseteq> blob_keys (find_metadata sid d')"
      and new: "fst ` set q \<subseteq> blob_keys (find_metadata sid d')"
      using merge_grows [OF ok q] by simp_all
    show ?thesis
    proof (intro allI impI)
      fix j v p assume j: "(j, Inr v) \<in> set (lg @ [(i, r)])" and p: "mg_patch (ms j) = JObj p"
      show "fst ` set p \<subseteq> blob_keys (find_metadata sid d')"
      proof (cases "(j, Inr v) \<in> set lg")
        case True
        with call(3) p grows show ?thesis by blast
      next
        case False
        with j p q new show ?thesis by simp
      qed
    qed
  qed
qed auto

text \<open>C21. No key is lost: when a blob exists and nobody replaces it, every top-level key of every
  patch that was answered with success is in the blob, however the patches interleave.\<close>

theorem merged_keys_kept:
  assumes "find_metadata sid d0 \<noteq> None"
    and "doc_run (find_metadata sid) (merge_after sid) (replaced sid (\<lambda>_. False)) ms
           (\<lambda>_. Waiting, d0) (pc, d)"
    and "pc i = Ended (Inr u)" and "mg_patch (ms i) = JObj p"
  shows "fst ` set p \<subseteq> blob_keys (find_metadata sid d)"
proof -
  obtain lg where "serial_run (find_metadata sid) (merge_after sid) (replaced sid (\<lambda>_. False)) ms
      d0 lg d" and "(i, Inr u) \<in> set lg"
    using metadata_doc.serialised [OF assms(2,1)] assms(3) by auto
  with serial_merges_kept assms(4) show ?thesis by blast
qed

theorem merged_keys_kept_witness:
  "\<exists>pc d. doc_run (find_metadata 1) (merge_after 1) (replaced 1 (\<lambda>_. False)) sample_merges
       (\<lambda>_. Waiting, sample_docs) (pc, d) \<and> ''x'' \<in> blob_keys (find_metadata 1 d)"
proof -
  obtain pc d m where p: "doc_run (find_metadata 1) (merge_after 1)
      (replaced 1 (\<lambda>_. False)) sample_merges (\<lambda>_. Waiting, sample_docs) (pc, d)"
    "pc 0 = Ended (Inr m)" by (rule sample_merge_runs)
  have "fst ` set [(''x'', JInt 0)] \<subseteq> blob_keys (find_metadata 1 d)"
    by (rule merged_keys_kept [OF _ p])
      (simp_all add: sample_merges_def sample_doc_defs find_metadata_def)
  with p show ?thesis by auto
qed

subsection \<open>A document that does not exist yet\<close>

lemma first_merge:
  assumes "mg_expected c = None" and "mg_patch c = JObj p" and "has_key ses_id sid (t_sessions d)"
  obtains m d' where "merge_after sid c None d = Inr (m, d')"
    and "md_blob m = JObj (obj_extend [] p)" and "find_metadata sid d' = Some m"
    and "t_sessions d' = t_sessions d"
proof -
  let ?m = "\<lparr>md_session_id = sid, md_blob = JObj (obj_extend [] p), md_etag = mg_tag1 c,
    md_updated_at = mg_now c\<rparr>"
  obtain d' where up: "metadata_upsert (mg_now c) sid (JObj (obj_extend [] p)) (mg_tag1 c) d =
      Inr (?m, d')" and "t_sessions d' = t_sessions d"
    using assms(3) by (cases "find_metadata sid d") (auto simp: metadata_upsert_def Let_def)
  moreover have "merge_after sid c None d = Inr (?m, d')"
    using assms up by (auto simp: merge_after_eq_Inr merge_shallow_objects)
  ultimately show thesis using that metadata_upsert_get(1) [OF up] by simp
qed

text \<open>The lock does not cover the first merge: when a session has no blob, \<^verbatim>\<open>FOR UPDATE\<close> finds no
  row to lock, so two patches can both see none. Both succeed, and the blob the session ends with
  is the second patch alone: the keys of the first are lost.\<close>

theorem first_merges_lost:
  assumes "find_metadata sid d = None" and "has_key ses_id sid (t_sessions d)"
    and "mg_expected (ms 0) = None" and "mg_expected (ms 1) = None"
    and "mg_patch (ms 0) = JObj p" and "mg_patch (ms 1) = JObj q"
  shows "\<exists>pc d' m n.
    doc_run (find_metadata sid) (merge_after sid) (replaced sid (\<lambda>_. False)) ms (\<lambda>_. Waiting, d)
      (pc, d') \<and>
    pc 0 = Ended (Inr m) \<and> md_blob m = JObj (obj_extend [] p) \<and> pc 1 = Ended (Inr n) \<and>
    map_option md_blob (find_metadata sid d') = Some (JObj (obj_extend [] q))"
proof -
  let ?run = "doc_run (find_metadata sid) (merge_after sid) (replaced sid (\<lambda>_. False)) ms"
  obtain m d1 where m: "merge_after sid (ms 0) None d = Inr (m, d1)"
      "md_blob m = JObj (obj_extend [] p)" "t_sessions d1 = t_sessions d"
    using first_merge [OF assms(3,5,2)] by metis
  then have "has_key ses_id sid (t_sessions d1)" using assms(2) by simp
  then obtain n d2 where n: "merge_after sid (ms 1) None d1 = Inr (n, d2)"
      "md_blob n = JObj (obj_extend [] q)" "find_metadata sid d2 = Some n"
    using first_merge [OF assms(4,6)] by metis
  define pc where "pc = ((\<lambda>_. Waiting)(0 := Holding None, 1 := Holding None) ::
    nat \<Rightarrow> (metadata_blob, app_error, metadata_blob) doc_pc)"
  have "?run (\<lambda>_. Waiting, d) ((\<lambda>_. Waiting)(0 := Holding None), d)"
    using assms(1) doc_step.lock [of "\<lambda>_. Waiting" 0 "find_metadata sid" d] by fastforce
  also have "?run ((\<lambda>_. Waiting)(0 := Holding None), d) (pc, d)"
    using assms(1) doc_step.lock [of "(\<lambda>_. Waiting)(0 := Holding None)" 1 "find_metadata sid" d]
    unfolding pc_def by fastforce
  also have "?run (pc, d) (pc(0 := Ended (Inr m)), d1)"
    by (rule r_into_rtranclp, rule doc_step.finish [of _ _ None])
      (auto simp: pc_def run_or_rollback_def m)
  also have "?run (pc(0 := Ended (Inr m)), d1) (pc(0 := Ended (Inr m), 1 := Ended (Inr n)), d2)"
    by (rule r_into_rtranclp, rule doc_step.finish [of _ _ None])
      (auto simp: pc_def run_or_rollback_def n [simplified])
  finally show ?thesis using m n
    by (intro exI [of _ "pc(0 := Ended (Inr m), 1 := Ended (Inr n))"] exI [of _ d2] exI [of _ m]
        exI [of _ n]) simp
qed

definition sample_first :: "nat \<Rightarrow> merge_call" where
  "sample_first i = \<lparr>mg_now = 7, mg_tag0 = ETag ''0'', mg_tag1 = ETag ''a'', mg_expected = None,
     mg_patch = JObj [(if i = 0 then ''x'' else ''y'', JInt 1)]\<rparr>"

theorem first_merges_lost_witness:
  "\<exists>pc d' m n.
    doc_run (find_metadata 1) (merge_after 1) (replaced 1 (\<lambda>_. False)) sample_first
      (\<lambda>_. Waiting, sample_db Recording) (pc, d') \<and>
    pc 0 = Ended (Inr m) \<and> md_blob m = JObj [(''x'', JInt 1)] \<and> pc 1 = Ended (Inr n) \<and>
    map_option md_blob (find_metadata 1 d') = Some (JObj [(''y'', JInt 1)])"
  using first_merges_lost [of 1 "sample_db Recording" sample_first "[(''x'', JInt 1)]"
      "[(''y'', JInt 1)]"]
  by (simp add: sample_first_def sample_defs find_metadata_def obj_extend_def)

end
