(* ===== verification/Bulk_Races.thy ===== *)
theory Bulk_Races
  imports Transactions Uniform_Properties
begin

section \<open>Bulk creates that race\<close>

text \<open>
  \<^verbatim>\<open>bulk_insert\<close> of \<^verbatim>\<open>src/db/uniform.rs\<close> reads which of the submitted client ids are stored before
  it inserts the others; the read takes no lock. Here any number of bulk creates run at once:
  \<open>bulk_step\<close> lets one of them validate and read, or lets one that has read insert and commit, or
  commits another transaction that removes no row of the three tables. The unique key of the
  tables is what keeps two of them from storing one client id twice.
\<close>

record bulk_call =
  bc_table :: resource_table
  bc_now :: time
  bc_ids :: "nat \<Rightarrow> uuid"
  bc_tags :: "nat \<Rightarrow> etag"
  bc_session :: uuid
  bc_service :: string
  bc_inputs :: "create_input list"

datatype bulk_pc = Submitted | Read "client_id list" | Replied "app_error + bulk_result"

definition bulk_look :: "bulk_call \<Rightarrow> database \<Rightarrow> bulk_pc" where
  "bulk_look c d =
     (if bc_inputs c = []
      then Replied (Inr \<lparr>br_inserted = [], br_deduplicated_client_ids = []\<rparr>)
      else case validate_inputs (bc_table c) (bc_inputs c) of
          Inl e \<Rightarrow> Replied (Inl e)
        | Inr _ \<Rightarrow> Read (existing_client_ids (bc_table c) (bc_session c)
                          (map ci_client_id (bc_inputs c)) d))"

definition bulk_rest :: "bulk_call \<Rightarrow> client_id list \<Rightarrow> bulk_result dbop" where
  "bulk_rest c existing =
     tx_bind (insert_rows (bc_table c) (bc_now c) (bc_ids c) (bc_tags c) 0 (bc_session c)
                (bc_service c) (filter (\<lambda>i. ci_client_id i \<notin> set existing) (bc_inputs c)))
       (\<lambda>inserted. tx_return \<lparr>br_inserted = inserted, br_deduplicated_client_ids = existing\<rparr>)"

text \<open>A bulk insert is its read and the rest.\<close>

lemma bulk_split:
  "uniform_bulk_insert (bc_table c) (bc_now c) (bc_ids c) (bc_tags c) (bc_session c) (bc_service c)
     (bc_inputs c) d =
   (case bulk_look c d of
      Submitted \<Rightarrow> Inl (BadRequest [])
    | Read existing \<Rightarrow> bulk_rest c existing d
    | Replied r \<Rightarrow> (case r of Inl e \<Rightarrow> Inl e | Inr b \<Rightarrow> Inr (b, d)))"
  by (auto simp: uniform_bulk_insert_def bulk_look_def bulk_rest_def tx_bind_def tx_return_def
      split: sum.split)

definition rows_kept :: "database \<Rightarrow> database \<Rightarrow> bool" where
  "rows_kept d d' \<longleftrightarrow> (\<forall>rt. pg_client_key ` set (uniform_table rt d) \<subseteq>
     pg_client_key ` set (uniform_table rt d'))"

inductive bulk_step ::
    "(nat \<Rightarrow> bulk_call) \<Rightarrow> (nat \<Rightarrow> bulk_pc) \<times> database \<Rightarrow> (nat \<Rightarrow> bulk_pc) \<times> database \<Rightarrow> bool"
  for calls where
  look: "pc i = Submitted \<Longrightarrow> bulk_step calls (pc, d) (pc(i := bulk_look (calls i) d), d)"
| insert: "pc i = Read existing \<Longrightarrow> run_or_rollback (bulk_rest (calls i) existing) d = (r, d') \<Longrightarrow>
    bulk_step calls (pc, d) (pc(i := Replied r), d')"
| other: "tx_step d d' \<Longrightarrow> rows_kept d d' \<Longrightarrow> bulk_step calls (pc, d) (pc, d')"

abbreviation bulk_run where
  "bulk_run calls \<equiv> (bulk_step calls)\<^sup>*\<^sup>*"

subsection \<open>What the rest of a bulk create does\<close>

definition result_keys :: "bulk_call \<Rightarrow> bulk_result \<Rightarrow> (uuid \<times> client_id) set" where
  "result_keys c b = (\<lambda>u. (bc_session c, un_client_id u)) ` set (br_inserted b)"

definition stored_keys :: "resource_table \<Rightarrow> database \<Rightarrow> (uuid \<times> client_id) set" where
  "stored_keys rt d = pg_client_key ` set (uniform_table rt d)"

lemma rows_kept_keys: "rows_kept d d' \<Longrightarrow> stored_keys rt d \<subseteq> stored_keys rt d'"
  by (simp add: rows_kept_def stored_keys_def)

lemma bulk_rest_wf: "bulk_rest c existing d = Inr (b, d') \<Longrightarrow> db_wf d \<Longrightarrow> db_wf d'"
  unfolding bulk_rest_def tx_bind_eq_Inr by (auto simp: tx_return_def dest: tx_presD [OF insert_rows_wf])

lemma bulk_rest_keys:
  assumes ok: "bulk_rest c existing d = Inr (b, d')" and wf: "db_wf d"
  shows "stored_keys (bc_table c) d \<inter> result_keys c b = {}"
    and "stored_keys (bc_table c) d' = stored_keys (bc_table c) d \<union> result_keys c b"
    and "rt \<noteq> bc_table c \<Longrightarrow> uniform_table rt d' = uniform_table rt d"
    and "result_keys c b = (\<lambda>i. (bc_session c, ci_client_id i)) `
      set (filter (\<lambda>i. ci_client_id i \<notin> set existing) (bc_inputs c))"
proof -
  let ?is = "filter (\<lambda>i. ci_client_id i \<notin> set existing) (bc_inputs c)"
  from ok have "insert_rows (bc_table c) (bc_now c) (bc_ids c) (bc_tags c) 0 (bc_session c)
      (bc_service c) ?is d = Inr (br_inserted b, d')"
    by (auto simp: bulk_rest_def tx_bind_eq_Inr tx_return_def)
  from insert_rows_Inr [OF this] obtain new where
    d': "d' = set_uniform_table (bc_table c) (uniform_table (bc_table c) d @ new) d"
    and ids: "map pg_client_id new = map ci_client_id ?is"
    and sid: "\<forall>r \<in> set new. pg_session_id r = bc_session c"
    and rows: "list_all2 (\<lambda>r u. row_from_pg (bc_table c) r = Inr u) new (br_inserted b)" by blast
  have key: "pg_client_key ` set new = Pair (bc_session c) ` pg_client_id ` set new"
    unfolding image_image using sid by (intro image_cong) (simp_all add: pg_client_key_def)
  have "map un_client_id (br_inserted b) = map pg_client_id new"
    using rows by (induction rule: list_all2_induct) (simp_all add: row_from_pg_fields)
  then have un: "un_client_id ` set (br_inserted b) = pg_client_id ` set new" by (metis set_map)
  have new: "result_keys c b = pg_client_key ` set new"
    unfolding result_keys_def key un [symmetric] image_image ..
  have "pg_client_id ` set new = ci_client_id ` set ?is" using ids by (metis set_map)
  then show "result_keys c b = (\<lambda>i. (bc_session c, ci_client_id i)) ` set ?is"
    unfolding new key by (simp add: image_image)
  have "db_wf d'" by (rule bulk_rest_wf [OF ok wf])
  from uniform_table_wf [OF this, of "bc_table c"]
  have "distinct (map pg_client_key (uniform_table (bc_table c) d @ new))"
    by (simp add: d' uniform_wf_def)
  then show "stored_keys (bc_table c) d \<inter> result_keys c b = {}"
    by (auto simp: new stored_keys_def)
  show "stored_keys (bc_table c) d' = stored_keys (bc_table c) d \<union> result_keys c b"
    by (simp add: d' new stored_keys_def image_Un)
  show "rt \<noteq> bc_table c \<Longrightarrow> uniform_table rt d' = uniform_table rt d"
    by (simp add: d')
qed

lemma bulk_rest_inv: "bulk_rest c existing d = Inr (b, d') \<Longrightarrow> service_inv d \<Longrightarrow> service_inv d'"
proof -
  have "tx_pres base_inv (bulk_rest c existing)" and "side_frame (bulk_rest c existing)"
    unfolding bulk_rest_def
    by (intro pres_intros base_pres_from [OF insert_rows_wf insert_rows_facts], intro side_intros)
  from tx_presD [OF plain.inv_frame [OF this]]
  show "bulk_rest c existing d = Inr (b, d') \<Longrightarrow> service_inv d \<Longrightarrow> service_inv d'" by simp
qed

lemma bulk_rest_loses:
  assumes "db_wf d" and "i \<in> set (bc_inputs c)" and "ci_client_id i \<notin> set existing"
    and "(bc_session c, ci_client_id i) \<in> stored_keys (bc_table c) d"
  shows "\<exists>e. run_or_rollback (bulk_rest c existing) d = (Inl e, d)"
proof (cases "bulk_rest c existing d")
  case (Inl e)
  then show ?thesis by (simp add: run_or_rollback_def)
next
  case (Inr x)
  obtain b d' where "bulk_rest c existing d = Inr (b, d')" using Inr by (cases x) simp
  from bulk_rest_keys(1,4) [OF this assms(1)] assms(2-4) show ?thesis by auto
qed

subsection \<open>What every state of a race satisfies\<close>

definition bulk_inv :: "(nat \<Rightarrow> bulk_call) \<Rightarrow> (nat \<Rightarrow> bulk_pc) \<times> database \<Rightarrow> bool" where
  "bulk_inv calls x \<longleftrightarrow>
     (case x of (pc, d) \<Rightarrow> service_inv d \<and>
        (\<forall>i b. pc i = Replied (Inr b) \<longrightarrow>
           result_keys (calls i) b \<subseteq> stored_keys (bc_table (calls i)) d) \<and>
        (\<forall>i j a b. i \<noteq> j \<longrightarrow> bc_table (calls i) = bc_table (calls j) \<longrightarrow>
           pc i = Replied (Inr a) \<longrightarrow> pc j = Replied (Inr b) \<longrightarrow>
           result_keys (calls i) a \<inter> result_keys (calls j) b = {}))"

lemma bulk_inv_reply:
  assumes inv: "bulk_inv calls (pc, d)" and d': "service_inv d'"
    and grows: "\<And>rt. stored_keys rt d \<subseteq> stored_keys rt d'"
    and new: "\<And>b. r = Inr b \<Longrightarrow> result_keys (calls i) b \<subseteq> stored_keys (bc_table (calls i)) d' \<and>
      stored_keys (bc_table (calls i)) d \<inter> result_keys (calls i) b = {}"
  shows "bulk_inv calls (pc(i := Replied r), d')"
proof -
  have stored: "result_keys (calls j) b \<subseteq> stored_keys (bc_table (calls j)) d"
    if "pc j = Replied (Inr b)" for j b using that inv by (simp add: bulk_inv_def)
  have apart: "result_keys (calls j) a \<inter> result_keys (calls k) b = {}"
    if "j \<noteq> k" "bc_table (calls j) = bc_table (calls k)" "pc j = Replied (Inr a)"
      "pc k = Replied (Inr b)" for j k a b using that inv by (simp add: bulk_inv_def)
  have fresh: "result_keys (calls j) a \<inter> result_keys (calls i) b = {}"
    if "bc_table (calls j) = bc_table (calls i)" "pc j = Replied (Inr a)" "r = Inr b" for j a b
    using stored [OF that(2)] new [OF that(3)] that(1) by auto
  have told: "result_keys (calls j) b \<subseteq> stored_keys (bc_table (calls j)) d'"
    if "(pc(i := Replied r)) j = Replied (Inr b)" for j b
    using that new [of b] stored [of j b] grows [of "bc_table (calls j)"]
    by (cases "j = i") auto
  have once: "result_keys (calls j) a \<inter> result_keys (calls k) b = {}"
    if "j \<noteq> k" "bc_table (calls j) = bc_table (calls k)" "(pc(i := Replied r)) j = Replied (Inr a)"
      "(pc(i := Replied r)) k = Replied (Inr b)" for j k a b
    using that apart [of j k a b] fresh [of j a b] fresh [of k b a]
    by (cases "j = i"; cases "k = i") (auto simp: Int_commute)
  show ?thesis using d' told once unfolding bulk_inv_def by blast
qed

lemma bulk_step_inv:
  assumes "bulk_step calls x y" and "bulk_inv calls x"
  shows "bulk_inv calls y"
  using assms
proof (induction rule: bulk_step.induct)
  case (look pc i d)
  show ?case
  proof (cases "bulk_look (calls i) d")
    case (Replied r)
    have "result_keys (calls i) b = {}" if "r = Inr b" for b
      using that Replied by (auto simp: bulk_look_def result_keys_def split: if_splits sum.splits)
    moreover have "service_inv d" using look(2) by (simp add: bulk_inv_def)
    ultimately show ?thesis unfolding Replied by (intro bulk_inv_reply [OF look(2)]) auto
  qed (use look in \<open>auto simp: bulk_inv_def\<close>)
next
  case (insert pc i existing d r d')
  have inv: "service_inv d" using insert(3) by (simp add: bulk_inv_def)
  note keys = bulk_rest_keys [OF _ service_invD(1) [OF inv]]
  show ?case
  proof (cases r)
    case (Inl e)
    with insert have "d' = d" by (simp add: run_or_rollback_eq)
    with insert(3) inv Inl show ?thesis by (intro bulk_inv_reply) auto
  next
    case (Inr b)
    with insert(2) have ok: "bulk_rest (calls i) existing d = Inr (b, d')"
      by (simp add: run_or_rollback_eq)
    have "stored_keys rt d \<subseteq> stored_keys rt d'" for rt
      using keys(2,3) [OF ok] by (cases "rt = bc_table (calls i)") (auto simp: stored_keys_def)
    then show ?thesis
      using insert(3) bulk_rest_inv [OF ok inv] keys(1,2) [OF ok] Inr
      by (intro bulk_inv_reply) auto
  qed
next
  case (other d d' pc)
  have "service_inv d'"
    using other plain.tx_step_keeps by (auto simp: bulk_inv_def)
  then show ?case using other(3) rows_kept_keys [OF other(2)] unfolding bulk_inv_def by blast
qed

lemma bulk_run_inv:
  assumes "bulk_run calls (\<lambda>_. Submitted, d0) x" and "service_inv d0"
  shows "bulk_inv calls x"
  using assms(1)
proof (induction rule: rtranclp_induct)
  case base
  with assms(2) show ?case by (simp add: bulk_inv_def)
qed (rule bulk_step_inv)

text \<open>C24. Any number of bulk creates into one table race, interleaved between their read and their
  inserts with each other and with transactions that remove no row. What one of them reported as
  inserted is stored, and no other reports the same client id of the same session as inserted. The
  unique key stops the loser: one that has read before a client id it wants to insert was stored by
  another fails as a whole, and none of its rows is inserted.\<close>

theorem racing_bulks_insert_once:
  assumes start: "service_inv d0" and run: "bulk_run calls (\<lambda>_. Submitted, d0) (pc, d)"
    and told: "pc i = Replied (Inr b)"
    and other: "j \<noteq> i" and same: "bc_table (calls j) = bc_table (calls i)"
  shows "result_keys (calls i) b \<subseteq> stored_keys (bc_table (calls i)) d \<and>
    (\<forall>b'. pc j = Replied (Inr b') \<longrightarrow> result_keys (calls i) b \<inter> result_keys (calls j) b' = {}) \<and>
    (\<forall>existing inp. pc j = Read existing \<longrightarrow> inp \<in> set (bc_inputs (calls j)) \<longrightarrow>
       ci_client_id inp \<notin> set existing \<longrightarrow>
       (bc_session (calls j), ci_client_id inp) \<in> result_keys (calls i) b \<longrightarrow>
       (\<exists>e. run_or_rollback (bulk_rest (calls j) existing) d = (Inl e, d)))"
proof -
  have inv: "bulk_inv calls (pc, d)" by (rule bulk_run_inv [OF run start])
  then have wf: "db_wf d" by (auto simp: bulk_inv_def dest: service_invD)
  have stored: "result_keys (calls i) b \<subseteq> stored_keys (bc_table (calls i)) d"
    and apart: "\<And>b'. pc j = Replied (Inr b') \<Longrightarrow> result_keys (calls i) b \<inter> result_keys (calls j) b' = {}"
    using inv told other same by (auto simp: bulk_inv_def)
  show ?thesis
  proof (intro conjI allI impI)
    fix existing inp
    assume "inp \<in> set (bc_inputs (calls j))" and "ci_client_id inp \<notin> set existing"
      and "(bc_session (calls j), ci_client_id inp) \<in> result_keys (calls i) b"
    with stored same show "\<exists>e. run_or_rollback (bulk_rest (calls j) existing) d = (Inl e, d)"
      by (intro bulk_rest_loses [OF wf]) auto
  qed (use stored apart in blast)+
qed

definition sample_bulk_call :: "nat \<Rightarrow> bulk_call" where
  "sample_bulk_call k =
     \<lparr>bc_table = SEGMENTS, bc_now = 7, bc_ids = (\<lambda>n. of_nat (80 + 10 * k + n)),
      bc_tags = (\<lambda>_. ETag ''b''), bc_session = 1, bc_service = ''bot'',
      bc_inputs = [sample_input (if k = 0 then ''s2'' else ''s3''), sample_input ''s4'']\<rparr>"

theorem racing_bulks_insert_once_witness:
  "\<exists>pc d b e. bulk_run sample_bulk_call (\<lambda>_. Submitted, sample_docs) (pc, d) \<and>
     pc 0 = Replied (Inr b) \<and> pc 1 = Read [] \<and> (1, ''s4'') \<in> stored_keys SEGMENTS d \<and>
     run_or_rollback (bulk_rest (sample_bulk_call 1) []) d = (Inl e, d)"
proof -
  have look: "bulk_look (sample_bulk_call k) sample_docs = Read []" for k
    by (simp add: bulk_look_def sample_bulk_call_def sample_input_def existing_client_ids_def
        sample_doc_defs)
  have step: "bulk_step sample_bulk_call (pc, sample_docs) (pc(k := Read []), sample_docs)"
    if "pc k = Submitted" for pc k
    using bulk_step.look [of pc k sample_bulk_call sample_docs] that by (simp add: look)
  let ?pc = "(\<lambda>_. Submitted)(0 := Read [], 1 := Read [])"
  have "bulk_step sample_bulk_call (\<lambda>_. Submitted, sample_docs) ((\<lambda>_. Submitted)(0 := Read []), sample_docs)"
    by (rule step) simp
  moreover have "bulk_step sample_bulk_call ((\<lambda>_. Submitted)(0 := Read []), sample_docs) (?pc, sample_docs)"
    by (rule step) simp
  ultimately have run: "bulk_run sample_bulk_call (\<lambda>_. Submitted, sample_docs) (?pc, sample_docs)"
    by auto
  have "\<exists>b d. bulk_rest (sample_bulk_call 0) [] sample_docs = Inr (b, d)"
    by (simp add: bulk_rest_def sample_bulk_call_def sample_input_def tx_bind_def sample_doc_defs
        insert_row_in_tx_def uniform_insert_pg_def pg_row_of_def author_ok_def pg_client_key_def
        tx_return_def row_from_pg_def decode_opt_pid_def bind_res_def unwrap_or_def)
  then obtain b d where ok: "bulk_rest (sample_bulk_call 0) [] sample_docs = Inr (b, d)" by blast
  then have "run_or_rollback (bulk_rest (sample_bulk_call 0) []) sample_docs = (Inr b, d)"
    by (simp add: run_or_rollback_def)
  then have "bulk_step sample_bulk_call (?pc, sample_docs) (?pc(0 := Replied (Inr b)), d)"
    by (intro bulk_step.insert) simp_all
  with run have run': "bulk_run sample_bulk_call (\<lambda>_. Submitted, sample_docs) (?pc(0 := Replied (Inr b)), d)"
    by (rule rtranclp.rtrancl_into_rtrancl)
  have key: "(1, ''s4'') \<in> result_keys (sample_bulk_call 0) b"
    using bulk_rest_keys(4) [OF ok service_invD(1) [OF sample_docs_inv]]
    by (simp add: sample_bulk_call_def sample_input_def)
  have "result_keys (sample_bulk_call 0) b \<subseteq> stored_keys SEGMENTS d \<and>
      (\<exists>e. run_or_rollback (bulk_rest (sample_bulk_call 1) []) d = (Inl e, d))"
    using racing_bulks_insert_once [OF sample_docs_inv run', of 0 b 1] key
    by (simp add: sample_bulk_call_def sample_input_def)
  with run' key show ?thesis by fastforce
qed

end
