(* ===== verification/Wipe_Races.thy ===== *)
theory Wipe_Races
  imports Chunk_Properties Speaker_Properties Flights
begin

section \<open>Wipes and uploads that race\<close>

text \<open>
  A wipe of \<^verbatim>\<open>src/routes/mute.rs\<close> commits the deletion of the rows, stamps the participant, and only
  then sweeps the objects. The stream numbers its next chunk from 0 again as soon as the rows are
  gone, and an object's key is made of the session's prefix, the speaker and that number. So the
  keys a wipe is about to sweep are the keys the next uploads write. Here one upload runs between
  the commit of a wipe and its sweep, and one is in flight when the wipe commits. Nor does an upload
  look at the status of its session.
\<close>

subsection \<open>The wipe in three parts\<close>

text \<open>The handler after its two transactions.\<close>

definition wipe_rest ::
    "'s app_state \<Rightarrow> env \<Rightarrow> uuid \<Rightarrow> pseudo_id \<Rightarrow> string list \<times> int \<times> int \<Rightarrow> ('s, json) operation" where
  "wipe_rest st ev sid p = (\<lambda>(keys, segs, mutes).
     h_bind (sweep_keys st keys) (\<lambda>_.
     h_bind (read_db (guild_id_for_session sid)) (\<lambda>guild.
     h_bind (emit (audio_deleted_event ev sid guild p)) (\<lambda>_.
     h_return (jobject [(''ok'', JBool True), (''chunk_count'', JInt (int (length keys))),
                        (''segment_count'', JInt segs), (''mute_count'', JInt mutes)])))))"

lemma wipe_route_split:
  assumes "is_valid_pseudo_id raw"
  shows "wipe_participant_audio_route st ev svc sid raw =
    h_bind (run_tx (wipe_tx (ev_db_now ev 0) (ev_audit_id ev 0) svc sid (PseudoId raw))) (\<lambda>x.
    h_bind (run_tx (participants_mark_wiped (ev_db_now ev 1) sid (PseudoId raw))) (\<lambda>_.
    wipe_rest st ev sid (PseudoId raw) x))"
  using assms
  by (simp add: wipe_participant_audio_route_def wipe_rest_def pseudo_id_new_def h_bind_def
      split_def fun_eq_iff)

text \<open>In a state the service can be in, a stream with chunks has one with number 0, under its key.\<close>

lemma first_key:
  assumes inv: "service_inv d" and keys: "stream_keys sid p d \<noteq> []"
  shows "\<exists>s. find_session sid d = Some s \<and>
    chunk_s3_key (ses_s3_prefix s) p 0 \<in> set (stream_keys sid p d)"
proof -
  let ?cs = "stream_rows sid p d"
  have "map ch_seq ?cs = map int [0..<length ?cs]"
    using streams_gaplessD [OF service_invD(3) [OF inv]] stream_rows_def by metis
  moreover obtain c cs where cs: "?cs = c # cs"
    using keys by (cases ?cs) (simp_all add: stream_keys_def)
  ultimately have "ch_seq c = 0" by (simp add: upt_conv_Cons del: upt_Suc)
  moreover have "c \<in> set (t_chunks d)" "ch_session_id c = sid" "ch_pseudo_id c = p"
    using cs by (auto simp: stream_rows_def in_stream_def filter_eq_Cons_iff)
  ultimately show ?thesis
    using service_invD(6) [OF inv] cs by (fastforce simp: chunk_keys_ok_def stream_keys_def)
qed

text \<open>A sweep can delete audio that was uploaded after the wipe. Take a wipe of a speaker who has
  audio; after its transactions have committed and before it sweeps, a new upload of that speaker
  succeeds. It gets number 0 again and with it the key of an object the wipe is about to delete.
  When the sweep is done both requests have been answered with success, the row of the new chunk
  is stored, its object is gone, and every download of it fails.\<close>

theorem sweep_deletes_new_upload:
  assumes store: "object_store (st_store st) contents" and inv: "service_inv (w_db w)"
    and wipe: "run_tx (wipe_tx now aid svc sid p) w = (Inr (keys, n), w1)"
    and mark: "run_tx (participants_mark_wiped now' sid p) w1 = (Inr u, w2)"
    and had: "keys \<noteq> []"
    and upload: "chunks_upload_route st ev rfc svc' sid (pid_str p) headers body w2 = (Inr r, w3)"
    and swept: "os_delete_many (st_store st) keys (w_store w3) = (Inr k, s')"
  shows "\<exists>j w4 c e. wipe_rest st ev' sid p (keys, n) w3 = (Inr j, w4) \<and>
    \<not> ur_deduplicated r \<and> ur_seq r = 0 \<and>
    chunks_get sid p 0 (w_db w4) = Inr c \<and> ch_s3_key c = ur_s3_key r \<and>
    contents (w_store w4) (ur_s3_key r) = None \<and>
    fst (chunks_download_route st ev2 sid (pid_str p) 0 w4) = Inl e"
proof -
  let ?d = "w_db w"
  obtain segs mutes where n: "n = (segs, mutes)" by (cases n)
  from wipe obtain a where keys: "keys = stream_keys sid p ?d"
    and w1: "w_db w1 = (wiped_participant sid p ?d)\<lparr>t_audit_log := a\<rparr>"
    unfolding n run_tx_eq_Inr wipe_tx_eq_Inr by auto
  have w2: "w_db w2 = marked_wiped now' sid p (w_db w1)"
    using mark by (auto simp: run_tx_eq_Inr mark_wiped_apply)
  have empty: "stream_rows sid p (w_db w2) = []"
    by (simp add: w2 w1 marked_wiped_def wiped_participant_def stream_rows_def delete_rows_def
        filter_empty_conv)
  have none: "chunks_lookup_by_client_id sid p cid (w_db w2) = None" for cid
    using empty by (auto simp: chunks_lookup_by_client_id_def find_None_iff stream_rows_def
        filter_empty_conv)
  have seq0: "next_seq sid p (w_db w2) = 0" by (simp add: next_seq_def empty max_seq_def)
  from upload none obtain h where raw: "pid_str p = MIXED_PSEUDO_ID \<or> is_valid_pseudo_id (pid_str p)"
    and up: "upload_new st ev svc' sid p h body (w_db w2) w2 = (Inr r, w3)"
    by (auto simp: chunks_upload_route_Inr)
  obtain s0 where s0: "find_session sid ?d = Some s0"
    and first: "chunk_s3_key (ses_s3_prefix s0) p 0 \<in> set keys"
    using first_key [OF inv] had keys by blast
  have s2: "find_session sid (w_db w2) = Some s0" using s0 by (simp add: w2 w1)
  from up s2 seq0 have r: "\<not> ur_deduplicated r" "ur_seq r = 0"
      "ur_s3_key r = chunk_s3_key (ses_s3_prefix s0) p 0"
    and fresh: "\<not> has_key chunk_seq_key (sid, p, 0) (t_chunks (w_db w2))"
    and s3: "find_session sid (w_db w3) = Some s0"
    unfolding upload_new_eq_Inr by (auto simp: upload_inserts_def find_session_def)
  obtain c where c: "t_chunks (w_db w3) = t_chunks (w_db w2) @ [c]" "in_stream sid p c"
      "ch_seq c = ur_seq r" "ch_s3_key c = ur_s3_key r"
    using upload_new_row [OF up] by blast
  have get: "chunks_get sid p 0 (w_db w3) = Inr c"
    using chunks_get_new [OF c(1,2)] c(3) r(2) fresh by simp
  obtain j w4 where rest: "wipe_rest st ev' sid p (keys, n) w3 = (Inr j, w4)"
    and w4: "w_db w4 = w_db w3" "w_store w4 = s'"
    using s3 had swept
    by (auto simp: wipe_rest_def n h_bind_def sweep_keys_world guild_id_for_session_def ok_or_def)
  have gone: "contents s' (ur_s3_key r) = None"
    using object_store.delete_contents [OF store swept] first r(3) by simp
  have "fst (chunks_download_route st ev2 sid (pid_str p) 0 w4) =
      os_get (st_store st) (ur_s3_key r) s'"
    using raw get c(4) w4
    by (auto simp: chunks_download_route_def h_bind_def pseudo_id_new_or_mixed_def split: sum.split)
  moreover have "os_get (st_store st) (ur_s3_key r) s' \<noteq> Inr b" for b
    using object_store.get_contents [OF store] gone by fastforce
  ultimately obtain e where "fst (chunks_download_route st ev2 sid (pid_str p) 0 w4) = Inl e"
    by (metis sum.exhaust_sel sum.collapse(2))
  with rest r get c(4) gone w4 show ?thesis by auto
qed

lemma sample_wipe_parts:
  obtains keys n w1 u w2 where
    "run_tx (wipe_tx 100 2000 ''bot'' 1 sample_pid) (sample_world sample_speaker_db) =
      (Inr (keys, n), w1)"
    and "run_tx (participants_mark_wiped 101 1 sample_pid) w1 = (Inr u, w2)" and "keys \<noteq> []"
    and "find_session 1 (w_db w2) = Some (sample_session Uploaded)" and "t_chunks (w_db w2) = []"
    and "map au_id (t_audit_log (w_db w2)) = [2000]" and "w_store w2 = Map.empty"
proof -
  let ?w = "sample_world sample_speaker_db"
  have "\<exists>keys n d. wipe_tx 100 2000 ''bot'' 1 sample_pid (w_db ?w) = Inr ((keys, n), d) \<and> keys \<noteq> [] \<and>
      find_session 1 d = Some (sample_session Uploaded) \<and> t_chunks d = [] \<and>
      map au_id (t_audit_log d) = [2000]"
    by (simp add: wipe_tx_def tx_bind_def chunks_delete_for_participant_def
        uniform_delete_for_participant_segments_def mute_ranges_delete_for_participant_def
        audit_append_tx_eq audit_append_def tx_return_def sample_speaker_defs find_session_def
        stream_rows_def in_stream_def audit_row_of_def)
  then obtain keys n d where tx: "wipe_tx 100 2000 ''bot'' 1 sample_pid (w_db ?w) = Inr ((keys, n), d)"
    and d: "keys \<noteq> []" "find_session 1 d = Some (sample_session Uploaded)" "t_chunks d = []"
      "map au_id (t_audit_log d) = [2000]" by (elim exE conjE) (rule that)
  show thesis
    by (rule that [of keys n "?w\<lparr>w_db := d\<rparr>" "()" "?w\<lparr>w_db := marked_wiped 101 1 sample_pid d\<rparr>"])
      (use tx d in \<open>simp_all add: run_tx_def mark_wiped_apply marked_wiped_def find_session_def
        sample_world_def\<close>)
qed

theorem sweep_deletes_new_upload_witness:
  "\<exists>r w3 j w4 e keys n. chunks_upload_route sample_state sample_env2 sample_rfc3339 ''bot'' 1
      (pid_str sample_pid) sample_headers (Inr [1, 2, 3]) w3 = (Inr r, w4) \<and>
     fst (wipe_rest sample_state sample_env 1 sample_pid (keys, n) w4) = Inr j \<and>
     fst (chunks_download_route sample_state sample_env2 1 (pid_str sample_pid) 0
       (snd (wipe_rest sample_state sample_env 1 sample_pid (keys, n) w4))) = Inl e"
proof -
  let ?w = "sample_world sample_speaker_db"
  obtain keys n w1 u w2 where parts:
    "run_tx (wipe_tx 100 2000 ''bot'' 1 sample_pid) ?w = (Inr (keys, n), w1)"
    "run_tx (participants_mark_wiped 101 1 sample_pid) w1 = (Inr u, w2)" "keys \<noteq> []"
    and w2: "find_session 1 (w_db w2) = Some (sample_session Uploaded)" "t_chunks (w_db w2) = []"
      "map au_id (t_audit_log (w_db w2)) = [2000]" "w_store w2 = Map.empty"
    by (rule sample_wipe_parts)
  obtain r w3 where up: "chunks_upload_route sample_state sample_env2 sample_rfc3339 ''bot'' 1
      (pid_str sample_pid) sample_headers (Inr [1, 2, 3]) w2 = (Inr r, w3)"
    using sample_upload_into [OF w2(1,2) _ _ sample_headers_parse, of sample_env2 sample_state "''bot''"] w2(3)
    by (auto simp: has_key_iff_image sample_env2_def sample_state_def)
  obtain k s' where swept: "os_delete_many (st_store sample_state) keys (w_store w3) = (Inr k, s')"
    by (cases "mem_delete_loop keys 0 (w_store w3)")
      (simp add: sample_state_def mem_store_def mem_delete_many_def)
  have inv: "service_inv (w_db ?w)" using sample_speaker_inv by (simp add: sample_world_def)
  from sweep_deletes_new_upload [OF sample_store inv parts up swept, of sample_env sample_env2]
  obtain j w4 e where rest: "wipe_rest sample_state sample_env 1 sample_pid (keys, n) w3 = (Inr j, w4)"
    and "fst (chunks_download_route sample_state sample_env2 1 (pid_str sample_pid) 0 w4) = Inl e"
    by blast
  with up show ?thesis
    by (intro exI [of _ r] exI [of _ w2] exI [of _ j] exI [of _ w3] exI [of _ e] exI [of _ keys]
        exI [of _ n]) simp
qed

subsection \<open>An upload in flight during a wipe\<close>

text \<open>
  An upload holds its session's row locked from its insert to its commit, and stores the object in
  between. A wipe takes no lock on the session and deletes the rows it can see, which the row of an
  upload that has not committed is not one of. So a wipe can commit in the middle of an upload: a
  run of \<open>Flights\<close> that is not calm.
\<close>

lemma new_key_unused:
  assumes inv: "service_inv d" and s: "find_session sid d = Some s" and p: "chunk_pid_ok p"
    and n: "next_seq sid p d \<le> n"
  shows "chunk_s3_key (ses_s3_prefix s) p n \<notin> set (stream_keys sid p d)"
proof
  assume "chunk_s3_key (ses_s3_prefix s) p n \<in> set (stream_keys sid p d)"
  then obtain c where c: "c \<in> set (t_chunks d)" "ch_session_id c = sid" "ch_pseudo_id c = p"
    and eq: "chunk_s3_key (ses_s3_prefix s) p n = ch_s3_key c"
    by (auto simp: stream_keys_def stream_rows_def in_stream_def)
  have range: "0 \<le> ch_seq c" "ch_seq c < n" using chunk_seq_range [OF inv c(1)] c(2,3) n by auto
  have "ch_s3_key c = chunk_s3_key (ses_s3_prefix s) p (ch_seq c)"
    using chunk_session [OF inv c(1)] c(2,3) s by (metis option.inject)
  with eq chunk_s3_key_inj [OF _ p p, of _ n _ "ch_seq c"] range have "n = ch_seq c" by simp
  with range show False by simp
qed

lemma wiped_between:
  assumes inv: "service_inv d" and s: "find_session sid d = Some s"
    and wipe: "wipe_tx now aid svc sid p d = Inr ((keys, n), d1)"
    and mark: "participants_mark_wiped now' sid p d1 = Inr (u, d2)"
  shows "keys = stream_keys sid p d" and "service_inv d2"
    and "\<And>c. c \<in> set (t_chunks d2) \<Longrightarrow> \<not> in_stream sid p c" and "find_session sid d2 = Some s"
proof -
  obtain segs mutes where n: "n = (segs, mutes)" by (cases n)
  from wipe obtain a where "keys = stream_keys sid p d"
    and d1: "d1 = (wiped_participant sid p d)\<lparr>t_audit_log := a\<rparr>"
    unfolding n wipe_tx_eq_Inr by auto
  then show "keys = stream_keys sid p d" by simp
  have d2: "d2 = marked_wiped now' sid p d1" using mark by (simp add: mark_wiped_apply)
  show "service_inv d2"
    using plain.tx_step_keeps [OF tx_step.wipe [OF wipe]]
      plain.tx_step_keeps [OF tx_step.mark_wiped [OF mark]] inv by simp
  show "\<not> in_stream sid p c" if "c \<in> set (t_chunks d2)" for c
    using that by (simp add: d2 d1 marked_wiped_def wiped_participant_def delete_rows_def)
  show "find_session sid d2 = Some s" using s by (simp add: d2 d1)
qed

lemma wipe_respects_lock:
  assumes wipe: "wipe_tx now aid svc sid p d = Inr (x, d')"
  shows "respects_lock i d d'"
proof -
  obtain keys segs mutes where x: "x = (keys, segs, mutes)" by (cases x)
  from wipe show ?thesis
    unfolding x wipe_tx_eq_Inr
    by (auto simp: respects_lock_def wiped_participant_def delete_rows_def find_session_def)
qed

lemma mark_respects_lock:
  "participants_mark_wiped now sid p d = Inr (u, d') \<Longrightarrow> respects_lock i d d'"
  by (auto simp: mark_wiped_apply respects_lock_def marked_wiped_def find_session_def)

text \<open>C16. An upload survives a wipe that commits between its insert and its own commit. The run is
  one of the runs of \<open>flight_run\<close>, so the constraints of every table hold. Its row is the only one
  left of the stream and its object is none of those the wipe sweeps. The next upload of the stream
  gets a number beyond this one's and beyond those of all the wiped chunks, so it replaces neither
  this one's object nor any that the wipe is still to sweep. What the race costs is the number 0: the
  numbers of the stream have a gap in front exactly if the wipe deleted anything.\<close>

theorem upload_survives_wipe:
  assumes inv: "service_inv d" and s: "find_session sid d = Some s"
    and insert: "chunks_insert t sid p '''' z cap dur cid d = Inr (row, d')"
    and wipe: "wipe_tx now aid svc sid p d = Inr ((keys, n), d1)"
    and mark: "participants_mark_wiped now' sid p d1 = Inr (u, d2)"
    and key: "key = chunk_s3_key (ses_s3_prefix s) p (ch_seq row)"
    and finish: "upload_finish_tx t' aid' svc' sid p (ch_seq row) key z
      (d2\<lparr>t_chunks := t_chunks d2 @ [row]\<rparr>) = Inr (v, d3)"
  shows "flight_run False ([], d) ([], d3) \<and> db_wf d3 \<and> chunk_keys_ok d3 \<and>
    stream_rows sid p d3 = [row\<lparr>ch_s3_key := key\<rparr>] \<and> key \<notin> set keys \<and>
    ch_seq row < next_seq sid p d3 \<and> next_seq sid p d3 = int (length keys) + 1 \<and>
    chunk_s3_key (ses_s3_prefix s) p (next_seq sid p d3) \<notin> insert key (set keys) \<and>
    (streams_gapless (t_chunks d3) \<longleftrightarrow> keys = [])"
proof -
  note mid = wiped_between [OF inv s wipe mark]
  have row: "pending d row" "ch_session_id row = sid" "ch_pseudo_id row = p" "ch_seq row = next_seq sid p d"
    and size: "ch_size_bytes row = z" and pid: "chunk_pid_ok p"
    using pending_new [OF _ s insert] gapless_rising [OF service_invD(3) [OF inv]] insert
    by (auto simp: chunks_insert_eq_Inr)
  have step1: "flight_step False ([], d) ([row], d)"
    by (rule flight_step.insert [OF s _ insert]) simp
  have step2: "flight_step False ([row], d) ([row], d1)"
    by (rule flight_step.other [OF tx_step.wipe [OF wipe]]) (simp_all add: wipe_respects_lock [OF wipe])
  have step3: "flight_step False ([row], d1) ([row], d2)"
    by (rule flight_step.other [OF tx_step.mark_wiped [OF mark]])
      (simp_all add: mark_respects_lock [OF mark])
  have step4: "flight_step False ([row], d2) (remove1 row [row], d3)"
    using mid(4) finish by (intro flight_step.commit) (auto simp: row(2,3) size key)
  from step1 step2 step3 step4 have run: "flight_run False ([], d) ([], d3)"
    by simp
  from flight_run_inv [OF run flight_start(1) [OF inv]]
  have facts: "db_wf d3" "chunk_keys_ok d3"
    by (simp_all add: flight_inv_def rising.inv_def base_inv_def base_facts_def)
  have flying: "pending d2 row"
    using pending_kept [OF pending_kept [OF row(1) wipe_respects_lock [OF wipe]]
        mark_respects_lock [OF mark]] .
  have d3: "t_chunks d3 = t_chunks d2 @ [row\<lparr>ch_s3_key := key\<rparr>]"
    using commit_row [OF flying row(2,3) finish] by simp
  have num: "ch_seq row = int (length keys)"
    by (simp add: row(4) mid(1) stream_keys_def next_seq_gapless [OF service_invD(3) [OF inv]])
  have empty: "filter (in_stream sid p) (t_chunks d2) = []" using mid(3) by (simp add: filter_empty_conv)
  then have rows: "stream_rows sid p d3 = [row\<lparr>ch_s3_key := key\<rparr>]"
    using row by (simp add: d3 stream_rows_def in_stream_def)
  then have next_num: "next_seq sid p d3 = int (length keys) + 1"
    by (simp add: next_seq_def max_seq_def num)
  have swept: "chunk_s3_key (ses_s3_prefix s) p k \<notin> set keys" if "int (length keys) \<le> k" for k
    using new_key_unused [OF inv s pid, of k] that num row(4) mid(1) by simp
  have "chunk_s3_key (ses_s3_prefix s) p (int (length keys) + 1) \<noteq> key"
    using chunk_s3_key_inj [OF _ pid pid, of "ses_s3_prefix s" "int (length keys) + 1"
        "ses_s3_prefix s" "int (length keys)"] by (auto simp: key num)
  moreover have "streams_gapless (t_chunks d3) \<longleftrightarrow> keys = []"
    using streams_gapless_snoc [OF service_invD(3) [OF mid(2)], of sid p "row\<lparr>ch_s3_key := key\<rparr>"]
      row(2,3) empty num by (simp add: d3 in_stream_def)
  ultimately show ?thesis
    using run facts rows swept [of "int (length keys)"] swept [of "int (length keys) + 1"]
    by (simp add: next_num num key)
qed

theorem upload_survives_wipe_witness:
  "\<exists>row keys n d1 u d2 v d3.
     chunks_insert 50 1 sample_pid '''' 3 12 2000 ''c9'' sample_speaker_db =
       Inr (row, sample_speaker_db\<lparr>t_chunks := t_chunks sample_speaker_db @ [row]\<rparr>) \<and>
     wipe_tx 100 2000 ''bot'' 1 sample_pid sample_speaker_db = Inr ((keys, n), d1) \<and>
     participants_mark_wiped 101 1 sample_pid d1 = Inr (u, d2) \<and>
     upload_finish_tx 60 4000 ''bot'' 1 sample_pid (ch_seq row)
       (chunk_s3_key (ses_s3_prefix (sample_session Uploaded)) sample_pid (ch_seq row)) 3
       (d2\<lparr>t_chunks := t_chunks d2 @ [row]\<rparr>) = Inr (v, d3) \<and>
     keys \<noteq> [] \<and> length (stream_rows 1 sample_pid d3) = 1"
proof -
  let ?d = sample_speaker_db
  let ?w = "sample_world ?d"
  obtain keys n w1 u w2 where
    "run_tx (wipe_tx 100 2000 ''bot'' 1 sample_pid) ?w = (Inr (keys, n), w1)"
    "run_tx (participants_mark_wiped 101 1 sample_pid) w1 = (Inr u, w2)" and had: "keys \<noteq> []"
    and w2: "t_chunks (w_db w2) = []" "map au_id (t_audit_log (w_db w2)) = [2000]"
    by (rule sample_wipe_parts)
  then have wipe: "wipe_tx 100 2000 ''bot'' 1 sample_pid ?d = Inr ((keys, n), w_db w1)"
    and mark: "participants_mark_wiped 101 1 sample_pid (w_db w1) = Inr (u, w_db w2)"
    by (auto simp: run_tx_eq_Inr sample_world_def)
  have s: "find_session 1 ?d = Some (sample_session Uploaded)"
    by (simp add: sample_speaker_defs find_session_def)
  obtain row where ins: "chunks_insert 50 1 sample_pid '''' 3 12 2000 ''c9'' ?d =
      Inr (row, ?d\<lparr>t_chunks := t_chunks ?d @ [row]\<rparr>)"
    by (auto simp: chunks_insert_eq_Inr sample_speaker_defs next_seq_def max_seq_def stream_rows_def
        in_stream_def in_int4_def chunk_pid_ok_def has_key_def chunk_seq_key_def chunk_client_key_def)
  let ?key = "chunk_s3_key (ses_s3_prefix (sample_session Uploaded)) sample_pid (ch_seq row)"
  have "\<not> has_key au_id 4000 (t_audit_log (w_db w2))" by (simp add: has_key_iff_image w2(2) flip: set_map)
  then obtain v d3 where fin: "upload_finish_tx 60 4000 ''bot'' 1 sample_pid (ch_seq row) ?key 3
      ((w_db w2)\<lparr>t_chunks := t_chunks (w_db w2) @ [row]\<rparr>) = Inr (v, d3)"
    by (auto simp: upload_finish_tx_def tx_bind_eq_Inr chunks_set_s3_key_def audit_append_tx_eq
        audit_append_eq_Inr)
  from upload_survives_wipe [OF sample_speaker_inv s ins wipe mark refl fin]
  have "length (stream_rows 1 sample_pid d3) = 1" by simp
  with ins wipe mark fin had show ?thesis by blast
qed

subsection \<open>Uploads to a deleted session\<close>

text \<open>A tombstone does not stop uploads. After a session has been deleted, an upload to it is
  accepted like any other (given a body within the limit and a store that takes it): it becomes
  chunk 0 of the deleted session and its audio is stored.\<close>

theorem deleted_session_takes_audio:
  assumes store: "object_store (st_store st) contents"
    and delete: "delete_cascade_route st ev svc i w = (Inr j, w1)"
    and raw: "is_valid_pseudo_id raw" and h: "parse_chunk_headers rfc headers = Inr h"
    and b: "length b \<le> MAX_CHUNK_BYTES"
    and aid: "\<not> has_key au_id (ev_audit_id ev2 0) (t_audit_log (w_db w1))"
    and put: "\<And>k. \<exists>s'. os_put (st_store st) k b ''audio/pcm'' (w_store w1) = (Inr (), s')"
  shows "\<exists>r w2. chunks_upload_route st ev2 rfc svc2 i raw headers (Inr b) w1 = (Inr r, w2) \<and>
    map_option ses_status (find_session i (w_db w2)) = Some Deleted \<and>
    sm_chunk_count (sessions_summary i (w_db w2)) = 1 \<and>
    contents (w_store w2) (ur_s3_key r) = Some b"
proof -
  let ?p = "PseudoId raw"
  from delete obtain s keys u d where
    "delete_cascade_tx (ev_db_now ev 0) (ev_audit_id ev 0) svc i (w_db w) = Inr ((s, keys, u), d)"
    and db: "w_db w1 = d"
    by (auto simp: delete_cascade_route_def h_bind_eq_Inr run_tx_eq_Inr sweep_keys_eq)
  then obtain a where s: "find_session i (w_db w) = Some s"
    and d: "d = (wiped_session (ev_db_now ev 0) i (w_db w))\<lparr>t_audit_log := a\<rparr>"
    unfolding delete_cascade_tx_eq_Inr by blast
  have s1: "find_session i d = Some (set_status (ev_db_now ev 0) Deleted s)"
    using find_session_updated [OF s, of "set_status (ev_db_now ev 0) Deleted" i]
    by (simp add: d wiped_session_def find_session_def keeps_session_simps)
  have none: "ch_session_id c \<noteq> i" if "c \<in> set (t_chunks d)" for c
    using that by (simp add: d wiped_session_def delete_rows_def)
  then have empty: "stream_rows i ?p d = []"
    by (auto simp: stream_rows_def in_stream_def filter_empty_conv)
  have nokey: "\<not> has_key chunk_seq_key (i, ?p, n) (t_chunks d)"
    "\<not> has_key chunk_client_key (i, ?p, cid) (t_chunks d)" for n cid
    using none by (auto simp: has_key_def chunk_seq_key_def chunk_client_key_def)
  have seq0: "next_seq i ?p d = 0" by (simp add: next_seq_def empty max_seq_def)
  obtain s' where put': "os_put (st_store st) (chunk_s3_key (ses_s3_prefix s) ?p 0) b ''audio/pcm''
      (w_store w1) = (Inr (), s')" using put by blast
  have prefix: "ses_s3_prefix (set_status (ev_db_now ev 0) Deleted s) = ses_s3_prefix s"
    by (simp add: set_status_def)
  let ?s = "set_status (ev_db_now ev 0) Deleted s"
  let ?r = "\<lparr>ur_seq = 0, ur_s3_key = chunk_s3_key (ses_s3_prefix s) ?p 0, ur_deduplicated = False\<rparr>"
  define w2 where "w2 = \<lparr>w_db = upload_inserts ev2 svc2 i ?p h b ?s (w_db w1), w_store = s',
    w_events = w_events w1 @ [chunk_uploaded_event ev2 i (ses_guild_id ?s) ?p 0 (int (length b))],
    w_metrics = inc_counter ''chronicle_chunks_uploaded_total'' 1
      (observe_histogram ''chronicle_s3_put_seconds'' (ev_elapsed ev2) (w_metrics w1))\<rparr>"
  have up: "upload_new st ev2 svc2 i ?p h (Inr b) (w_db w1) w1 = (Inr ?r, w2)"
    unfolding upload_new_eq_Inr using s1 b aid nokey put' raw
    by (intro exI [of _ ?s] exI [of _ b] exI [of _ "()"] exI [of _ s'])
      (simp add: seq0 prefix db in_int4_def chunk_pid_ok_def w2_def)
  have w2: "w_db w2 = upload_inserts ev2 svc2 i ?p h b ?s d" "w_store w2 = s'"
    by (simp_all add: w2_def db)
  have "chunks_lookup_by_client_id i ?p (hd_client_chunk_id h) (w_db w1) = None"
    using nokey by (simp add: lookup_iff_has_key db)
  then have "chunks_upload_route st ev2 rfc svc2 i raw headers (Inr b) w1 = (Inr ?r, w2)"
    using up raw h by (simp add: chunks_upload_route_Inr)
  moreover have "map_option ses_status (find_session i (w_db w2)) = Some Deleted"
    using s1 by (simp add: w2 upload_inserts_def find_session_def)
  moreover have "filter (\<lambda>c. ch_session_id c = i) (t_chunks d) = []"
    using none by (simp add: filter_empty_conv)
  then have "sm_chunk_count (sessions_summary i (w_db w2)) = 1"
    using s1 by (auto simp: w2 upload_inserts_def sessions_summary_def count_rows_def
        dest: find_session_SomeD)
  moreover have "contents (w_store w2) (ur_s3_key ?r) = Some b"
    using object_store.put_contents [OF store put'] by (simp add: w2)
  ultimately show ?thesis by blast
qed

theorem deleted_session_takes_audio_witness:
  "\<exists>j w1 r w2. delete_cascade_route sample_state sample_env ''bot'' 1 (sample_world (sample_db Uploaded)) =
     (Inr j, w1) \<and>
     chunks_upload_route sample_state sample_env2 sample_rfc3339 ''bot'' 1 (pid_str sample_pid)
       sample_headers (Inr [1, 2, 3]) w1 = (Inr r, w2) \<and>
     map_option ses_status (find_session 1 (w_db w2)) = Some Deleted \<and>
     w_store w2 (ur_s3_key r) = Some [1, 2, 3]"
proof -
  let ?w = "sample_world (sample_db Uploaded)"
  obtain j w1 where del: "delete_cascade_route sample_state sample_env ''bot'' 1 ?w = (Inr j, w1)"
    using delete_cascade_sample by blast
  then obtain s keys u d where
    "delete_cascade_tx (ev_db_now sample_env 0) (ev_audit_id sample_env 0) ''bot'' 1 (w_db ?w) =
      Inr ((s, keys, u), d)" "w_db w1 = d"
    by (auto simp: delete_cascade_route_def h_bind_eq_Inr run_tx_eq_Inr sweep_keys_eq)
  then have aid: "\<not> has_key au_id (ev_audit_id sample_env2 0) (t_audit_log (w_db w1))"
    unfolding delete_cascade_tx_eq_Inr by (auto simp: sample_defs audit_row_of_def)
  have put: "\<exists>s'. os_put (st_store sample_state) k [1, 2, 3] ''audio/pcm'' (w_store w1) = (Inr (), s')" for k
    by (simp add: sample_state_def mem_store_def mem_put_def)
  have "is_valid_pseudo_id (pid_str sample_pid)" by (simp add: sample_pid_def)
  moreover have "length [1, 2, 3 :: 8 word] \<le> MAX_CHUNK_BYTES" by (simp add: MAX_CHUNK_BYTES_def)
  ultimately show ?thesis
    using deleted_session_takes_audio [OF sample_store del _ sample_headers_parse _ aid put] del
    by blast
qed

end
