(* ===== verification/Request_Bodies.thy ===== *)
theory Request_Bodies
  imports Routes_Sessions Routes_Uniform Routes_Participants Routes_Auth Ws_Session
    "HOL-Library.Monad_Syntax"
begin

section \<open>Request bodies\<close>

text \<open>
  How a JSON body becomes the argument of a handler: the structs that derive \<^verbatim>\<open>Deserialize\<close> in
  \<^verbatim>\<open>src/routes\<close> and \<^verbatim>\<open>src/db\<close>, with their \<^verbatim>\<open>serde\<close> attributes. A body is the list of members of
  an object; a decoder answers \<open>None\<close> where serde reports an error. By serde's documented rules a
  member the struct does not name is ignored, a named one that occurs twice is an error, a missing
  one is an error unless its field is an \<^verbatim>\<open>Option\<close> or has a default, and \<^verbatim>\<open>null\<close> is the absent value
  of an \<^verbatim>\<open>Option\<close>. The parsers of UUIDs and points in time and the conversion of an integer to a
  double belong to crates and are parameters. The forms that serde accepts besides objects (a
  struct as the array of its fields) are left out.
\<close>

record wire =
  wi_uuid :: "string \<Rightarrow> uuid option"
  wi_time :: "string \<Rightarrow> time option"
  wi_f64 :: "int \<Rightarrow> f64"

type_synonym 'a decoder = "json \<Rightarrow> 'a option"

subsection \<open>Values\<close>

fun de_string :: "string decoder" where
  "de_string (JStr s) = Some s"
| "de_string _ = None"

fun de_bool :: "bool decoder" where
  "de_bool (JBool b) = Some b"
| "de_bool _ = None"

fun de_int :: "(int \<Rightarrow> bool) \<Rightarrow> int decoder" where
  "de_int inside (JInt n) = (if inside n then Some n else None)"
| "de_int inside _ = None"

fun de_f64 :: "wire \<Rightarrow> f64 decoder" where
  "de_f64 wi (JFloat x) = Some x"
| "de_f64 wi (JInt n) = Some (wi_f64 wi n)"
| "de_f64 wi _ = None"

fun de_list :: "'a decoder \<Rightarrow> 'a list decoder" where
  "de_list d (JArr js) = those (map d js)"
| "de_list d _ = None"

fun de_object :: "(json_map \<Rightarrow> 'a option) \<Rightarrow> 'a decoder" where
  "de_object f (JObj m) = f m"
| "de_object f _ = None"

definition de_option :: "'a decoder \<Rightarrow> 'a option decoder" where
  "de_option d j = (if j = JNull then Some None else map_option Some (d j))"

definition de_uuid :: "wire \<Rightarrow> uuid decoder" where
  "de_uuid wi j = Option.bind (de_string j) (wi_uuid wi)"

definition de_time :: "wire \<Rightarrow> time decoder" where
  "de_time wi j = Option.bind (de_string j) (wi_time wi)"

definition ok_option :: "'e + 'a \<Rightarrow> 'a option" where
  "ok_option r = (case r of Inl e \<Rightarrow> None | Inr x \<Rightarrow> Some x)"

definition de_pseudo_id :: "pseudo_id decoder" where
  "de_pseudo_id j = Option.bind (de_string j) (\<lambda>s. ok_option (pseudo_id_deserialize s))"

definition de_status :: "session_status decoder" where
  "de_status j = Option.bind (de_string j) (\<lambda>s. ok_option (status_from_str s))"

subsection \<open>Fields\<close>

definition members :: "string \<Rightarrow> json_map \<Rightarrow> json list" where
  "members k m = map snd (filter (\<lambda>kv. fst kv = k) m)"

definition required :: "'a decoder \<Rightarrow> string \<Rightarrow> json_map \<Rightarrow> 'a option" where
  "required d k m = (case members k m of [v] \<Rightarrow> d v | _ \<Rightarrow> None)"

definition default_to :: "'a \<Rightarrow> 'a decoder \<Rightarrow> string \<Rightarrow> json_map \<Rightarrow> 'a option" where
  "default_to x d k m = (case members k m of [] \<Rightarrow> Some x | [v] \<Rightarrow> d v | _ \<Rightarrow> None)"

definition optional :: "'a decoder \<Rightarrow> string \<Rightarrow> json_map \<Rightarrow> 'a option option" where
  "optional d = default_to None (de_option d)"

text \<open>\<^verbatim>\<open>deserialize_optional_optional\<close> of \<^verbatim>\<open>src/routes/sessions.rs\<close>: \<^verbatim>\<open>null\<close> is a value of its own.\<close>

definition deserialize_optional_optional :: "'a decoder \<Rightarrow> 'a option option decoder" where
  "deserialize_optional_optional d j = Option.bind (de_option d j) (\<lambda>v. Some (Some v))"

subsection \<open>Sessions\<close>

definition create_session_decode :: "wire \<Rightarrow> json_map \<Rightarrow> create_session option" where
  "create_session_decode wi m = do {
     i \<leftarrow> required (de_uuid wi) ''id'' m;
     guild \<leftarrow> required (de_int in_int8) ''guild_id'' m;
     started \<leftarrow> required (de_time wi) ''started_at'' m;
     game \<leftarrow> optional de_string ''game_system'' m;
     campaign \<leftarrow> optional de_string ''campaign_name'' m;
     prefix \<leftarrow> required de_string ''s3_prefix'' m;
     Some \<lparr>cs_id = i, cs_guild_id = guild, cs_started_at = started, cs_game_system = game,
           cs_campaign_name = campaign, cs_s3_prefix = prefix\<rparr> }"

definition patch_session_decode :: "wire \<Rightarrow> json_map \<Rightarrow> patch_session option" where
  "patch_session_decode wi m = do {
     status \<leftarrow> optional de_status ''status'' m;
     ended \<leftarrow> default_to None (deserialize_optional_optional (de_time wi)) ''ended_at'' m;
     n \<leftarrow> default_to None (deserialize_optional_optional (de_int in_int4)) ''participant_count'' m;
     Some \<lparr>pb_status = status, pb_ended_at = ended, pb_participant_count = n\<rparr> }"

definition resume_body_decode :: "json_map \<Rightarrow> resume_body option" where
  "resume_body_decode m = do {
     by_service \<leftarrow> required de_string ''resumed_by_service_name'' m;
     reason \<leftarrow> optional de_string ''reason'' m;
     Some \<lparr>rb_resumed_by_service_name = by_service, rb_reason = reason\<rparr> }"

subsection \<open>Participants, mute ranges, consent, users\<close>

definition add_participant_decode :: "json_map \<Rightarrow> add_participant option" where
  "add_participant_decode m = do {
     p \<leftarrow> required de_pseudo_id ''pseudo_id'' m;
     mid \<leftarrow> default_to False de_bool ''mid_session_join'' m;
     Some \<lparr>ap_pseudo_id = p, ap_mid_session_join = mid\<rparr> }"

definition batch_decode :: "json_map \<Rightarrow> add_participant list option" where
  "batch_decode = required (de_list (de_object add_participant_decode)) ''participants''"

definition update_consent_decode :: "wire \<Rightarrow> json_map \<Rightarrow> update_consent option" where
  "update_consent_decode wi m = do {
     scope \<leftarrow> required de_string ''consent_scope'' m;
     given \<leftarrow> optional (de_time wi) ''consented_at'' m;
     Some \<lparr>uc_consent_scope = scope, uc_consented_at = given\<rparr> }"

definition update_license_decode :: "json_map \<Rightarrow> update_license option" where
  "update_license_decode m = do {
     llm \<leftarrow> optional de_bool ''no_llm_training'' m;
     pub \<leftarrow> optional de_bool ''no_public_release'' m;
     Some \<lparr>ul_no_llm_training = llm, ul_no_public_release = pub\<rparr> }"

definition create_mute_range_decode :: "json_map \<Rightarrow> create_mute_range option" where
  "create_mute_range_decode m = do {
     a \<leftarrow> required (de_int in_int8) ''start_offset_ms'' m;
     b \<leftarrow> required (de_int in_int8) ''end_offset_ms'' m;
     reason \<leftarrow> optional de_string ''reason'' m;
     Some \<lparr>cm_start_offset_ms = a, cm_end_offset_ms = b, cm_reason = reason\<rparr> }"

definition create_token_request_decode :: "wire \<Rightarrow> json_map \<Rightarrow> create_token_request option" where
  "create_token_request_decode wi m = do {
     sid \<leftarrow> required (de_uuid wi) ''session_id'' m;
     pa \<leftarrow> required (de_uuid wi) ''participant_id'' m;
     p \<leftarrow> required de_pseudo_id ''pseudo_id'' m;
     Some \<lparr>tq_session_id = sid, tq_participant_id = pa, tq_pseudo_id = p\<rparr> }"

definition patch_consent_decode :: "json_map \<Rightarrow> patch_consent_body option" where
  "patch_consent_decode m = do {
     scope \<leftarrow> optional de_string ''consent_scope'' m;
     llm \<leftarrow> optional de_bool ''no_llm_training'' m;
     pub \<leftarrow> optional de_bool ''no_public_release'' m;
     Some \<lparr>pc_consent_scope = scope, pc_no_llm_training = llm, pc_no_public_release = pub\<rparr> }"

definition upsert_user_decode :: "json_map \<Rightarrow> pseudo_id option" where
  "upsert_user_decode = required de_pseudo_id ''pseudo_id''"

definition upsert_display_name_decode :: "json_map \<Rightarrow> upsert_display_name option" where
  "upsert_display_name_decode m = do {
     name \<leftarrow> required de_string ''display_name'' m;
     src \<leftarrow> required de_string ''source'' m;
     Some \<lparr>ud_display_name = name, ud_source = src\<rparr> }"

definition patch_user_decode :: "json_map \<Rightarrow> bool option" where
  "patch_user_decode = required de_bool ''is_admin''"

text \<open>The member \<^verbatim>\<open>is_admin\<close> of a grant defaults to true (\<^verbatim>\<open>default_true\<close>), but \<^verbatim>\<open>null\<close> is an error.\<close>

definition grant_request_decode :: "json_map \<Rightarrow> grant_request option" where
  "grant_request_decode m = do {
     secret \<leftarrow> required de_string ''shared_secret'' m;
     p \<leftarrow> required de_pseudo_id ''pseudo_id'' m;
     admin \<leftarrow> default_to None (\<lambda>j. map_option Some (de_bool j)) ''is_admin'' m;
     Some \<lparr>gr_shared_secret = secret, gr_pseudo_id = p, gr_is_admin = admin\<rparr> }"

definition auth_request_decode :: "json_map \<Rightarrow> auth_request option" where
  "auth_request_decode m = do {
     secret \<leftarrow> required de_string ''shared_secret'' m;
     name \<leftarrow> required de_string ''service_name'' m;
     Some \<lparr>ar_shared_secret = secret, ar_service_name = name\<rparr> }"

subsection \<open>Segments, beats, scenes\<close>

definition create_input_decode :: "wire \<Rightarrow> json_map \<Rightarrow> create_input option" where
  "create_input_decode wi m = do {
     cid \<leftarrow> required de_string ''client_id'' m;
     a \<leftarrow> required (de_int in_int8) ''start_ms'' m;
     b \<leftarrow> required (de_int in_int8) ''end_ms'' m;
     p \<leftarrow> optional de_pseudo_id ''pseudo_id'' m;
     te \<leftarrow> optional de_string ''text'' m;
     ti \<leftarrow> optional de_string ''title'' m;
     su \<leftarrow> optional de_string ''summary'' m;
     co \<leftarrow> optional (de_f64 wi) ''confidence'' m;
     fl \<leftarrow> optional Some ''flags'' m;
     og \<leftarrow> optional Some ''original'' m;
     au \<leftarrow> optional de_pseudo_id ''author_user_pseudo_id'' m;
     Some \<lparr>ci_client_id = cid, ci_start_ms = a, ci_end_ms = b, ci_pseudo_id = p, ci_text = te,
           ci_title = ti, ci_summary = su, ci_confidence = co, ci_flags = fl, ci_original = og,
           ci_author_user_pseudo_id = au\<rparr> }"

definition bulk_request_decode :: "wire \<Rightarrow> json_map \<Rightarrow> bulk_request option" where
  "bulk_request_decode wi m = do {
     se \<leftarrow> optional (de_list (de_object (create_input_decode wi))) ''segments'' m;
     be \<leftarrow> optional (de_list (de_object (create_input_decode wi))) ''beats'' m;
     sc \<leftarrow> optional (de_list (de_object (create_input_decode wi))) ''scenes'' m;
     Some \<lparr>bq_segments = se, bq_beats = be, bq_scenes = sc\<rparr> }"

text \<open>
  The field \<^verbatim>\<open>confidence\<close> is an \<^verbatim>\<open>Option<Option<f64>>\<close> with a plain default: the outer option takes
  the \<^verbatim>\<open>null\<close>.
\<close>

definition patch_input_decode :: "wire \<Rightarrow> json_map \<Rightarrow> patch_input option" where
  "patch_input_decode wi m = do {
     te \<leftarrow> optional de_string ''text'' m;
     ti \<leftarrow> optional de_string ''title'' m;
     su \<leftarrow> optional de_string ''summary'' m;
     co \<leftarrow> optional (de_option (de_f64 wi)) ''confidence'' m;
     a \<leftarrow> optional (de_int in_int8) ''start_ms'' m;
     b \<leftarrow> optional (de_int in_int8) ''end_ms'' m;
     fl \<leftarrow> optional Some ''flags'' m;
     au \<leftarrow> optional de_pseudo_id ''author_user_pseudo_id'' m;
     Some \<lparr>pi_text = te, pi_title = ti, pi_summary = su, pi_confidence = co, pi_start_ms = a,
           pi_end_ms = b, pi_flags = fl, pi_author_user_pseudo_id = au\<rparr> }"

subsection \<open>Frames of a WebSocket client\<close>

definition filter_decode :: "wire \<Rightarrow> json_map \<Rightarrow> subscription_filter option" where
  "filter_decode wi m = do {
     guild \<leftarrow> optional (de_int in_int8) ''guild_id'' m;
     sid \<leftarrow> optional (de_uuid wi) ''session_id'' m;
     Some \<lparr>fl_guild_id = guild, fl_session_id = sid\<rparr> }"

definition client_frame_decode :: "wire \<Rightarrow> json_map \<Rightarrow> client_frame option" where
  "client_frame_decode wi m = do {
     kind \<leftarrow> required de_string ''type'' m;
     if kind = ''subscribe'' then do {
       names \<leftarrow> required (de_list de_string) ''events'' m;
       f \<leftarrow> default_to filter_default (de_object (filter_decode wi)) ''filter'' m;
       Some (Subscribe names f) }
     else if kind = ''unsubscribe'' then do {
       names \<leftarrow> required (de_list de_string) ''events'' m;
       Some (Unsubscribe names) }
     else if kind = ''ping'' then Some Ping
     else None }"

subsection \<open>Lemmas\<close>

lemma members_simps [simp]:
  "members k [] = []"
  "members k ((k', v) # m) = (if k' = k then v # members k m else members k m)"
  "members k (m @ m') = members k m @ members k m'"
  by (simp_all add: members_def)

lemma de_option_eq_Some:
  "de_option d j = Some x \<longleftrightarrow>
     (if j = JNull then x = None else \<exists>v. d j = Some v \<and> x = Some v)"
  by (auto simp: de_option_def)

lemma optional_eq_Some:
  "optional d k m = Some x \<longleftrightarrow>
     (members k m = [] \<and> x = None) \<or> (\<exists>v. members k m = [v] \<and> de_option d v = Some x)"
  by (auto simp: optional_def default_to_def split: list.splits)

text \<open>An optional field of an optional type never holds the inner absent value.\<close>

lemma optional_option_some:
  "optional (de_option d) k m = Some x \<Longrightarrow> x \<noteq> Some None"
  by (auto simp: optional_eq_Some de_option_def split: if_splits)

lemma optional_null: "members k m = [JNull] \<Longrightarrow> optional d k m = Some x \<Longrightarrow> x = None"
  by (auto simp: optional_eq_Some de_option_def)

end
