(* ===== verification/Body_Properties.thy ===== *)
theory Body_Properties
  imports Request_Bodies Uniform_Properties
begin

section \<open>Properties of request bodies\<close>

text \<open>
  What a client can say in the body of a \<^verbatim>\<open>PATCH\<close>: for a session, that a field is to be left, set
  or cleared; for a row, that its confidence is to be left or set, but not that it is to be cleared,
  although the handler would do so.
\<close>

definition field :: "string \<Rightarrow> ('a \<Rightarrow> json) \<Rightarrow> 'a option \<Rightarrow> json_map" where
  "field k f x = (case x of None \<Rightarrow> [] | Some v \<Rightarrow> [(k, f v)])"

definition session_patch_members :: "(time \<Rightarrow> string) \<Rightarrow> patch_session \<Rightarrow> json_map" where
  "session_patch_members print b =
     field ''status'' (\<lambda>s. JStr (status_as_str s)) (pb_status b) @
     field ''ended_at'' (json_opt (\<lambda>t. JStr (print t))) (pb_ended_at b) @
     field ''participant_count'' (json_opt JInt) (pb_participant_count b)"

lemma members_field [simp]:
  "members k (field k' f x) = (if k' = k then (case x of None \<Rightarrow> [] | Some v \<Rightarrow> [f v]) else [])"
  by (simp add: field_def split: option.split)

text \<open>C34. Every change of a session that the handler of \<^verbatim>\<open>PATCH\<close> knows can be sent and is understood
  as sent: a body that lists the members to change, with \<^verbatim>\<open>null\<close> for a field to be cleared, decodes
  to exactly that change, so that leaving out a field and clearing it stay apart.\<close>

theorem session_patch_body_roundtrip:
  assumes time: "\<And>t. wi_time wi (print t) = Some t"
    and count: "\<And>n. pb_participant_count b = Some (Some n) \<Longrightarrow> in_int4 n"
  shows "patch_session_decode wi (session_patch_members print b) = Some b"
proof -
  have "optional de_status ''status'' (session_patch_members print b) = Some (pb_status b)"
    by (simp add: session_patch_members_def optional_def default_to_def de_option_def de_status_def
        ok_option_def split: option.split)
  moreover have "default_to None (deserialize_optional_optional (de_time wi)) ''ended_at''
      (session_patch_members print b) = Some (pb_ended_at b)"
    by (simp add: session_patch_members_def default_to_def deserialize_optional_optional_def
        de_option_def de_time_def json_opt_def time split: option.split)
  moreover have "default_to None (deserialize_optional_optional (de_int in_int4))
      ''participant_count'' (session_patch_members print b) = Some (pb_participant_count b)"
    using count
    by (simp add: session_patch_members_def default_to_def deserialize_optional_optional_def
        de_option_def json_opt_def split: option.split)
  ultimately show ?thesis by (simp add: patch_session_decode_def)
qed

definition sample_wire :: wire where
  "sample_wire =
     \<lparr>wi_uuid = (\<lambda>s. if s = ''u1'' then Some 1 else None),
      wi_time = (\<lambda>s. Some (int (length s) * (if set s \<subseteq> {CHR ''-''} then - 1 else 1))),
      wi_f64 = word_of_int\<rparr>"

definition sample_print :: "time \<Rightarrow> string" where
  "sample_print t = replicate (nat \<bar>t\<bar>) (if t < 0 then CHR ''-'' else CHR ''+'')"

lemma sample_time: "wi_time sample_wire (sample_print t) = Some t"
  by (auto simp: sample_wire_def sample_print_def)

theorem session_patch_body_roundtrip_witness:
  "patch_session_decode sample_wire (session_patch_members sample_print
      \<lparr>pb_status = None, pb_ended_at = Some None, pb_participant_count = Some (Some 4)\<rparr>) =
     Some \<lparr>pb_status = None, pb_ended_at = Some None, pb_participant_count = Some (Some 4)\<rparr>"
  by (rule session_patch_body_roundtrip [OF sample_time]) (simp add: in_int4_def)

lemma patch_input_confidence:
  assumes "patch_input_decode wi m = Some b"
  shows "pi_confidence b \<noteq> Some None" "members ''confidence'' m = [JNull] \<Longrightarrow> pi_confidence b = None"
proof -
  from assms have "optional (de_option (de_f64 wi)) ''confidence'' m = Some (pi_confidence b)"
    by (auto simp: patch_input_decode_def bind_eq_Some_conv)
  then show "pi_confidence b \<noteq> Some None"
    "members ''confidence'' m = [JNull] \<Longrightarrow> pi_confidence b = None"
    by (auto dest: optional_option_some optional_null)
qed

lemma patch_row_natural:
  assumes run: "patch_row_route rt ev svc i headers body w = (Inr x, w')"
    and r: "find_pg rt i (w_db w) = Some r" and seg: "pg_natural r = SegmentColumns p t c"
  shows "\<exists>r' t'. find_pg rt i (w_db w') = Some r' \<and>
    (pg_natural r' = SegmentColumns p t' (unwrap_or c (pi_confidence body)) \<or>
     pg_natural r' = pg_natural r)"
proof -
  from patch_row_route_Inr [OF run] obtain u d a where
    tx: "uniform_patch rt (ev_db_now ev 0) (ev_tag ev 0) i (if_match_header_of headers) body
       (w_db w) = Inr (u, d)"
    and w': "w_db w' = d\<lparr>t_audit_log := t_audit_log d @ [a]\<rparr>" by blast
  from tx r obtain e where e: "row_from_pg rt r = Inr e"
    and d: "d = set_uniform_table rt (update_rows (\<lambda>r. pg_id r = i) (update_pg rt (ev_db_now ev 0)
      (ev_tag ev 0) (apply_patch rt body e) (pi_author_user_pseudo_id body))
      (uniform_table rt (w_db w))) (w_db w)"
    unfolding uniform_patch_eq_Inr Let_def by auto
  have "find_pg rt i (w_db w') = Some (update_pg rt (ev_db_now ev 0) (ev_tag ev 0)
      (apply_patch rt body e) (pi_author_user_pseudo_id body) r)"
    by (simp add: w' d find_pg_updated [OF r])
  then show ?thesis
    unfolding row_columns [OF e] by (cases "rt_shape rt") (auto simp: seg)
qed

text \<open>A confidence, once stored, cannot be removed by a \<^verbatim>\<open>PATCH\<close>: whatever JSON body is sent,
  the patched segment still has a confidence, and with a body that says \<^verbatim>\<open>null\<close> it keeps the old one.
  (The handler's code for clearing it is out of reach, because the decoder reads \<^verbatim>\<open>null\<close> as an
  absent field.)\<close>

theorem confidence_never_cleared:
  assumes body: "patch_input_decode wi m = Some b"
    and run: "patch_row_route rt ev svc i headers b w = (Inr x, w')"
    and r: "find_pg rt i (w_db w) = Some r" "pg_natural r = SegmentColumns p t (Some c)"
  shows "\<exists>r' t' c'. find_pg rt i (w_db w') = Some r' \<and>
    pg_natural r' = SegmentColumns p t' (Some c') \<and>
    (members ''confidence'' m = [JNull] \<longrightarrow> c' = c)"
proof -
  have "\<exists>c'. unwrap_or (Some c) (pi_confidence b) = Some c' \<and>
      (members ''confidence'' m = [JNull] \<longrightarrow> c' = c)"
    using patch_input_confidence [OF body]
    by (auto simp: unwrap_or_def split: option.splits)
  with patch_row_natural [OF run r] r(2) show ?thesis by metis
qed

definition sample_rated :: database where
  "sample_rated = sample_docs\<lparr>t_segments :=
     [sample_segment\<lparr>pg_natural := SegmentColumns None ''hello'' (Some 7)\<rparr>]\<rparr>"

theorem confidence_never_cleared_witness:
  "\<exists>b x w' r' t'. patch_input_decode sample_wire [(''confidence'', JNull)] = Some b \<and>
     patch_row_route SEGMENTS sample_env ''bot'' 70 Map.empty b (sample_world sample_rated) =
       (Inr x, w') \<and>
     find_pg SEGMENTS 70 (w_db w') = Some r' \<and> pg_natural r' = SegmentColumns None t' (Some 7)"
proof -
  let ?b = "\<lparr>pi_text = None, pi_title = None, pi_summary = None, pi_confidence = None,
    pi_start_ms = None, pi_end_ms = None, pi_flags = None, pi_author_user_pseudo_id = None\<rparr>"
  have dec: "patch_input_decode sample_wire [(''confidence'', JNull)] = Some ?b"
    by (simp add: patch_input_decode_def optional_def default_to_def de_option_def)
  have "\<exists>x w'. patch_row_route SEGMENTS sample_env ''bot'' 70 Map.empty ?b
     (sample_world sample_rated) = (Inr x, w')"
    by (simp add: sample_rated_def patch_row_route_def h_bind_def run_tx_def uniform_patch_def
        tx_bind_def if_match_header_of_def header_str_def
        find_pg_def sample_doc_defs row_from_pg_def decode_opt_pid_def
        bind_res_def check_expected_def uniform_update_pg_def update_pg_def apply_patch_def
        Let_def unwrap_or_def author_ok_def audit_def audit_append_def guild_id_for_session_def
        find_session_def ok_or_def)
  then obtain x w' where run: "patch_row_route SEGMENTS sample_env ''bot'' 70 Map.empty ?b
     (sample_world sample_rated) = (Inr x, w')" by blast
  have "find_pg SEGMENTS 70 (w_db (sample_world sample_rated)) =
      Some (sample_segment\<lparr>pg_natural := SegmentColumns None ''hello'' (Some 7)\<rparr>)"
    by (simp add: sample_rated_def sample_doc_defs find_pg_def)
  from confidence_never_cleared [OF dec run this] dec run show ?thesis by auto
qed

end
