(* ===== verification/Service_Properties.thy ===== *)
theory Service_Properties
  imports Service Session_Properties
begin

section \<open>Properties of the whole service\<close>

text \<open>
  What holds of every request, whatever its endpoint: nothing happens without a live token, and
  a session, once created, stays with its identity and moves along the edges of the state machine.
\<close>

text \<open>C4. Nothing behind the middleware happens without a live token: when no stored token that is
  still within the window has the hash of the request's bearer token, a request to a protected
  endpoint is answered with 401 (with 500 if the window is too large for the database's
  intervals) and the database, the object store, the bus and the metrics are as before.\<close>

theorem protected_needs_live_token:
  assumes prot: "\<not> unprotected (rq_endpoint rq)"
    and dead: "\<And>t v. bearer_token (rq_headers rq) = Some t \<Longrightarrow>
      v \<in> set (t_service_sessions (w_db w)) \<Longrightarrow> sv_token_hash v = dp_hash dp t \<Longrightarrow>
      \<not> alive (ev_auth_now ev) (st_heartbeat_reap (dp_state dp)) v"
  shows "\<exists>e. serve dp ev tok rq w = (Inl e, w) \<and>
    (resp_status e = 401 \<or> resp_status e = 500 \<and> \<not> interval_ok (st_heartbeat_reap (dp_state dp)))"
proof (cases "extract_bearer (rq_headers rq)")
  case (Inl e)
  then have "resp_status e = 401"
    by (auto simp: extract_bearer_def error_response_def split: option.splits)
  with Inl prot show ?thesis by (simp add: serve_def require_service_auth_def)
next
  case (Inr t)
  have "List.find (\<lambda>v. sv_token_hash v = dp_hash dp t \<and>
      alive (ev_auth_now ev) (st_heartbeat_reap (dp_state dp)) v) (t_service_sessions (w_db w)) = None"
    using dead Inr by (auto simp: find_None_iff)
  with Inr prot show ?thesis
    by (auto simp: serve_def require_service_auth_def service_sessions_lookup_alive_def
        error_response_def simp del: extract_bearer_eq_Inr)
qed

definition sample_deployment :: "mem_objects deployment" where
  "sample_deployment = \<lparr>dp_state = sample_state, dp_hash = (\<lambda>t. t), dp_rfc3339 = (\<lambda>s. Inl s)\<rparr>"

text \<open>A database with a live token, and a request that carries it.\<close>

definition live_db :: database where
  "live_db = (sample_db Recording)\<lparr>t_service_sessions := [\<lparr>sv_id = 60, sv_service_name = ''bot'',
     sv_token_hash = ''tok'', sv_created_at = 80, sv_last_seen_at = 80\<rparr>]\<rparr>"

lemma live_auth:
  assumes "h ''authorization'' = Some ''Bearer tok''"
    and "t_service_sessions d = t_service_sessions live_db"
  shows "require_service_auth 90 90 (\<lambda>t. t) h d = Inr ''bot''"
proof -
  have "extract_bearer h = Inr ''tok''"
    using assms(1) by (simp add: extract_bearer_def header_str_def to_str_def visible_ascii_def
        bearer_prefix_def strip_prefix_def)
  with assms(2) show ?thesis
    by (simp add: require_service_auth_def bind_res_def service_sessions_lookup_alive_def
        live_db_def alive_def window_us_def interval_ok_def in_int8_def del: extract_bearer_eq_Inr)
qed

theorem protected_needs_live_token_witness:
  "\<exists>e. serve sample_deployment sample_env ''tok''
      \<lparr>rq_headers = Map.empty, rq_endpoint = SessionsDelete 1\<rparr> (sample_world (sample_db Recording)) =
    (Inl e, sample_world (sample_db Recording)) \<and> resp_status e = 401"
proof -
  have "interval_ok (st_heartbeat_reap (dp_state sample_deployment))"
    by (simp add: sample_deployment_def sample_state_def interval_ok_def window_us_def in_int8_def)
  moreover have "\<not> unprotected (rq_endpoint \<lparr>rq_headers = Map.empty, rq_endpoint = SessionsDelete 1\<rparr>)"
    by simp
  ultimately show ?thesis
    using protected_needs_live_token [of "\<lparr>rq_headers = Map.empty, rq_endpoint = SessionsDelete 1\<rparr>"
        "sample_world (sample_db Recording)" sample_deployment sample_env "''tok''"]
    by (auto simp: sample_defs)
qed

text \<open>C6. The life of a session: along every interleaving of the transactions of any requests and of
  the reaper a session is never removed, keeps its guild, its storage prefix and its start, and its
  status follows the edges of the state machine (the table of \<^verbatim>\<open>can_transition\<close> and the resume); so a
  deleted session stays deleted, and a transcribed one is never anything but transcribed or deleted.\<close>

theorem session_lifecycle:
  assumes run: "tx_run d d'" and inv: "service_inv d" and s: "find_session i d = Some s"
  shows "\<exists>s'. find_session i d' = Some s' \<and> ses_guild_id s' = ses_guild_id s \<and>
    ses_s3_prefix s' = ses_s3_prefix s \<and> ses_started_at s' = ses_started_at s \<and>
    session_edge\<^sup>*\<^sup>* (ses_status s) (ses_status s') \<and>
    (ses_status s = Deleted \<longrightarrow> ses_status s' = Deleted) \<and>
    (ses_status s = Transcribed \<longrightarrow> ses_status s' = Transcribed \<or> ses_status s' = Deleted)"
proof -
  obtain s' where "find_session i d' = Some s'" "session_later s s'"
    using session_kept [OF assms] by blast
  then show ?thesis
    by (auto simp: session_later_def dest: session_edges.path_from_final path_from_Transcribed)
qed

lemma sample_login_step:
  "\<exists>w'. service_step sample_deployment (sample_world d) w' \<and>
     t_sessions (w_db w') = t_sessions d \<and> tx_run d (w_db w')"
proof -
  let ?rq = "\<lparr>rq_headers = Map.empty, rq_endpoint = Authenticate
       \<lparr>ar_shared_secret = ''secret'', ar_service_name = ''bot''\<rparr>\<rparr>"
  obtain r w' where served: "serve sample_deployment sample_env ''tok'' ?rq (sample_world d) = (r, w')"
    by fastforce
  then have step: "service_step sample_deployment (sample_world d) w'" by (rule service_step.request)
  moreover have "t_sessions (w_db w') = t_sessions d"
    using served by (auto simp: serve_def handle_def respond_def h_map_def h_bind_def
        authenticate_route_def run_tx_def service_sessions_insert_def sample_world_def Let_def
        split: if_splits option.splits sum.splits)
  ultimately show ?thesis
    using service_step_run [OF step] by (auto simp: sample_world_def)
qed

theorem session_lifecycle_witness:
  "\<exists>w' s'. service_step sample_deployment (sample_world (sample_db Transcribed)) w' \<and>
     find_session 1 (w_db w') = Some s' \<and> ses_guild_id s' = 7 \<and>
     (ses_status s' = Transcribed \<or> ses_status s' = Deleted)"
proof -
  obtain w' where step: "service_step sample_deployment (sample_world (sample_db Transcribed)) w'"
    and run: "tx_run (sample_db Transcribed) (w_db w')"
    using sample_login_step by blast
  have s: "find_session 1 (sample_db Transcribed) = Some (sample_session Transcribed)"
    by (simp add: sample_defs find_session_def)
  from session_lifecycle [OF run sample_inv s] step show ?thesis
    by (auto simp: sample_session_def)
qed

text \<open>C39. Every failure of the service's own code is answered as one, and opaquely. A request that
  reaches an endpoint of the API and fails, in the middleware or in its handler, gets a status from
  400 to 599 and a JSON object with an \<^verbatim>\<open>error\<close> field, and a failure of the database or an internal
  one (500) shows nothing of its cause, only one of three fixed texts. The two routes that do not
  answer JSON, the metrics and the handshake of the socket, refuse with one of four fixed plain texts.
  (Rejections by the web framework, of a body, path or query that does not decode and of unknown
  routes, are its own and not covered.)\<close>

theorem failures_are_opaque:
  assumes "serve dp ev tok rq w = (Inl e, w')"
  shows "400 \<le> resp_status e \<and> resp_status e < 600 \<and>
    (\<exists>fields m. resp_body e = JObj fields \<and> map_of fields ''error'' = Some m) \<and>
    (resp_status e = 500 \<longrightarrow> resp_body e \<in>
       {error_body [Lit ''database error''], error_body [Lit ''internal error''],
        jobject [(''error'', JStr ''auth lookup failed'')]}) \<and>
    (\<forall>addr m x. metrics_route addr m = Inl x \<longrightarrow> x = (403, ''metrics are loopback-only'')) \<and>
    (\<forall>now reap hash h q d x. ws_upgrade now reap hash h q d = Inl x \<longrightarrow>
       x \<in> {(401, ''missing bearer token''), (401, ''invalid token''), (500, ''auth lookup failed'')})"
proof -
  let ?ok = "\<lambda>e. 400 \<le> resp_status e \<and> resp_status e < 600 \<and>
    (\<exists>fields m. resp_body e = JObj fields \<and> map_of fields ''error'' = Some m) \<and>
    (resp_status e = 500 \<longrightarrow> resp_body e \<in>
       {error_body [Lit ''database error''], error_body [Lit ''internal error''],
        jobject [(''error'', JStr ''auth lookup failed'')]})"
  have app: "?ok (app_error_response x)" for x
    by (cases x) (simp_all add: error_body_def jobject_def map_of_obj_extend)
  have auth: "?ok r" if "require_service_auth now reap hash h d = Inl r" for now reap hash h d r
    using that by (auto simp: require_service_auth_def bind_res_def extract_bearer_def
        error_response_def jobject_def map_of_obj_extend split: option.splits sum.splits)
  have "?ok e"
    using assms app auth by (auto simp: serve_def respond_def split: if_splits sum.splits prod.splits)
  moreover have "x = (403, ''metrics are loopback-only'')" if "metrics_route addr m = Inl x" for addr m x
    using that by (simp add: metrics_route_def split: if_splits)
  moreover have "x \<in> {(401, ''missing bearer token''), (401, ''invalid token''), (500, ''auth lookup failed'')}"
    if "ws_upgrade now reap hash h q d = Inl x" for now reap hash h q d x
    using that by (auto simp: ws_upgrade_def split: option.splits sum.splits)
  ultimately show ?thesis by blast
qed

theorem failures_are_opaque_witness:
  "\<exists>e w'. serve sample_deployment sample_env ''tok''
      \<lparr>rq_headers = Map.empty, rq_endpoint = UsersUpsert sample_pid\<rparr> (sample_world (sample_db Recording)) =
    (Inl e, w') \<and> resp_status e = 401"
proof -
  have "\<exists>e. serve sample_deployment sample_env ''tok''
      \<lparr>rq_headers = Map.empty, rq_endpoint = UsersUpsert sample_pid\<rparr> (sample_world (sample_db Recording)) =
    (Inl e, sample_world (sample_db Recording)) \<and> resp_status e = 401"
    by (simp add: serve_def require_service_auth_def extract_bearer_def header_str_def
        bind_res_def error_response_def)
  with failures_are_opaque show ?thesis by blast
qed

end
