(* ===== verification/Status_Tracking.thy ===== *)
theory Status_Tracking
  imports Service_Properties Ws_Properties Side_Handlers
begin

section \<open>The bus tells the status of a session\<close>

text \<open>
  Where the routes, the bus and the WebSocket connections meet: the \<^verbatim>\<open>session_state_changed\<close> events
  are meant to let a client follow a session without asking for it. \<open>replay\<close> is such a client: from
  the status it knows it follows the events, and gives up when one does not start where the last
  one ended. \<open>told w w'\<close> says that replaying the events sent between two states of the service
  yields the status of every session; every handler does so (\<open>tells\<close>), hence every run of requests,
  and what a connection delivers is enough to follow along. Events are sent after the commit, so
  this is about requests that run one after another; two concurrent ones can commit in one order
  and announce in the other (\<open>announcements_swapped\<close>).
\<close>

subsection \<open>A client that follows a session\<close>

fun replay :: "uuid \<Rightarrow> int \<Rightarrow> session_status \<Rightarrow> event list \<Rightarrow> session_status option" where
  "replay i g st [] = Some st"
| "replay i g st (e # es) =
     (case e of
        SessionStateChanged t c \<Rightarrow>
          if ssc_session_id c \<noteq> i then replay i g st es
          else if ssc_old c = st \<and> ssc_guild_id c = g then replay i g (ssc_new c) es else None
      | _ \<Rightarrow> replay i g st es)"

lemma replay_skip: "\<not> status_event i e \<Longrightarrow> replay i g st (e # es) = replay i g st es"
  by (auto simp: status_event_def split: event.split)

lemma replay_append:
  "replay i g st (xs @ ys) = (case replay i g st xs of None \<Rightarrow> None | Some st' \<Rightarrow> replay i g st' ys)"
  by (induction xs arbitrary: st) (auto split: event.split)

text \<open>Only the status events of the session matter.\<close>

lemma replay_filter:
  assumes "\<And>e. e \<in> set es \<Longrightarrow> status_event i e \<Longrightarrow> P e"
  shows "replay i g st (filter P es) = replay i g st es"
  using assms
proof (induction es arbitrary: st)
  case (Cons e es)
  show ?case
  proof (cases "P e")
    case True
    with Cons show ?thesis by (auto split: event.split)
  next
    case False
    with Cons.prems have "replay i g st (e # es) = replay i g st es" by (intro replay_skip) auto
    with False Cons show ?thesis by (simp del: replay.simps)
  qed
qed simp

lemma replay_guild:
  "replay i g st es = Some st' \<Longrightarrow> SessionStateChanged t c \<in> set es \<Longrightarrow> ssc_session_id c = i \<Longrightarrow>
   ssc_guild_id c = g"
  by (induction es arbitrary: st) (auto split: event.splits if_splits)

subsection \<open>What the service told\<close>

definition told :: "'s world \<Rightarrow> 's world \<Rightarrow> bool" where
  "told w w' \<longleftrightarrow> (\<exists>es. w_events w' = w_events w @ es \<and>
     (\<forall>i s. find_session i (w_db w) = Some s \<longrightarrow>
        (\<exists>s'. find_session i (w_db w') = Some s' \<and> ses_guild_id s' = ses_guild_id s \<and>
           replay i (ses_guild_id s) (ses_status s) es = Some (ses_status s'))))"

lemma told_refl: "told w w"
  by (simp add: told_def)

lemma told_trans: "told u v \<Longrightarrow> told v w \<Longrightarrow> told u w"
  unfolding told_def by (clarsimp simp: replay_append) fastforce

lemma told_quiet:
  assumes "t_sessions (w_db w') = t_sessions (w_db w)" and "w_events w' = w_events w @ es"
    and "\<And>i e. e \<in> set es \<Longrightarrow> \<not> status_event i e"
  shows "told w w'"
proof -
  have "\<forall>e \<in> set es. \<not> status_event i e \<Longrightarrow> replay i g st es = Some st" for i g st
    by (induction es) (auto simp: replay_skip simp del: replay.simps(2))
  then have "replay i g st es = Some st" for i g st using assms(3) by blast
  with assms(1,2) show ?thesis by (auto simp: told_def find_session_def)
qed

text \<open>A change of one session row, announced when its status changed.\<close>

lemma told_changed:
  assumes s: "find_session i (w_db w) = Some s" and f: "keeps_session f"
    and guild: "ses_guild_id (f s) = ses_guild_id s"
    and ss: "t_sessions (w_db w') = update_rows (\<lambda>s. ses_id s = i) f (t_sessions (w_db w))"
    and es: "w_events w' = w_events w @ es"
    and ann: "es = [] \<and> ses_status (f s) = ses_status s \<or>
      es = [state_changed ev i (ses_guild_id s) (ses_status s) (ses_status (f s))]"
  shows "told w w'"
proof -
  have "find_session j (w_db w') = (if j = i then Some (f s) else find_session j (w_db w))" for j
    using find_session_updated [OF s f, of j] ss by (simp add: find_session_def)
  moreover note guild
  moreover have "replay i (ses_guild_id s) (ses_status s) es = Some (ses_status (f s))"
    using ann by (auto simp: state_changed_def)
  moreover have "replay j g st es = Some st" if "j \<noteq> i" for j g st
    using ann that by (auto simp: state_changed_def)
  ultimately show ?thesis using s es by (auto simp: told_def)
qed

subsection \<open>Handlers\<close>

abbreviation tells :: "('s, 'a) operation \<Rightarrow> bool" where
  "tells \<equiv> along told"

interpretation telling: side_relation told
proof
  fix u v w w' :: "'s world" and e
  show "told u v \<Longrightarrow> told v w \<Longrightarrow> told u w" by (rule told_trans)
  assume ev: "w_events w' = w_events w @ [e]" and db: "w_db w' = w_db w"
    and no: "\<And>i. \<not> status_event i e"
  show "told w w'" by (rule told_quiet [OF _ ev]) (use db no in auto)
qed (auto intro: told_quiet [where es = "[]"])

interpretation telling: store_blind told
  by unfold_locales (auto intro: told_quiet [where es = "[]"])

lemma wipe_sessions_same:
  "leaves sessions_same (wipe_tx now aid svc sid p)"
  "leaves sessions_same (token_wipe_tx now aid sid p)"
  unfolding wipe_tx_def token_wipe_tx_def
  by (intro sess.leaves_bind audit_append_frames core_weaken frame_intros)+

lemma tells_sessions_same: "leaves sessions_same m \<Longrightarrow> tells (run_tx m)"
  by (intro telling.along_run_tx told_quiet [where es = "[]"])
    (auto dest: leavesD simp: sessions_same_def)

lemmas tells_wipe_txs = wipe_sessions_same [THEN tells_sessions_same]

lemma tells_wipes:
  "tells (wipe_participant_audio_route st ev svc sid raw)"
  "tells (delete_audio_token_route st ev tok)"
  unfolding wipe_participant_audio_route_def delete_audio_token_route_def Let_def
  by (auto intro!: telling.along_side_intros telling.along_store tells_wipe_txs side_intros
      split: prod.splits)

subsection \<open>The routes that change a status\<close>

lemma tells_create: "tells (sessions_create_route ev svc inp)"
proof -
  have "tells (run_tx (sessions_create now c))" for now c
    by (auto simp: along_def run_tx_def sessions_create_def Let_def told_def find_session_def
        find_append split: sum.splits if_splits)
  then show ?thesis unfolding sessions_create_route_def
    by (intro telling.along_bind telling.along_audit telling.along_basic)
qed

lemma tells_patch: "tells (sessions_patch_route ev svc i body)"
  unfolding along_def
proof (intro allI impI)
  fix w r w' assume run: "sessions_patch_route ev svc i body w = (r, w')"
  show "told w w'"
  proof (cases "sessions_patch_tx (ev_db_now ev 0) (ev_audit_id ev 0) svc i body (w_db w)")
    case (Inl e)
    with run show ?thesis
      by (simp add: sessions_patch_route_def h_bind_def run_tx_def told_refl)
  next
    case (Inr x)
    obtain u ch d' where x: "x = ((u, ch), d')" by (metis surj_pair)
    from Inr obtain s where s: "find_session i (w_db w) = Some s"
      and u: "u = patched_session (ev_db_now ev 0) body s"
      and ch: "case pb_status body of None \<Rightarrow> ch = None
        | Some st \<Rightarrow> can_transition (ses_status s) st \<and>
            ch = (if ses_status s \<noteq> st then Some (ses_status s, st) else None)"
      and "\<exists>a. d' = (w_db w)\<lparr>t_sessions := update_rows (\<lambda>s. ses_id s = i)
        (patched_session (ev_db_now ev 0) body) (t_sessions (w_db w)), t_audit_log := a\<rparr>"
      unfolding x sessions_patch_tx_eq_Inr by blast
    then have ss: "t_sessions d' = update_rows (\<lambda>s. ses_id s = i)
        (patched_session (ev_db_now ev 0) body) (t_sessions (w_db w))" by auto
    have db: "w_db w' = d'" and evs: "w_events w' = w_events w @ (case ch of None \<Rightarrow> []
        | Some (a, b) \<Rightarrow> [state_changed ev i (ses_guild_id u) a b])"
      using run Inr by (cases ch; auto simp: x sessions_patch_route_def h_bind_def run_tx_def)+
    have "ses_guild_id u = ses_guild_id s"
      and "ses_status u = (case pb_status body of None \<Rightarrow> ses_status s | Some st \<Rightarrow> st)"
      by (simp_all add: u patched_session_def split: option.split)
    with ch show ?thesis
      by (intro told_changed [OF s keeps_patched _ _ evs, of "ev_db_now ev 0" body ev])
        (auto simp: db ss u split: option.splits if_splits)
  qed
qed

lemma tells_resume: "tells (sessions_resume_route st ev svc i rb)"
  unfolding along_def
proof (intro allI impI)
  fix w r w' assume run: "sessions_resume_route st ev svc i rb w = (r, w')"
  show "told w w'"
  proof (cases "sessions_resume_tx (ev_db_now ev 0) (ev_audit_id ev 0) (ev_utc_now ev 1)
      (st_resume_ttl st) svc i rb (w_db w)")
    case (Inl e)
    with run show ?thesis
      by (simp add: sessions_resume_route_def h_bind_def run_tx_def told_refl)
  next
    case (Inr x)
    obtain u d' where x: "x = (u, d')" by (metis surj_pair)
    have "w_db w' = d' \<and> w_events w' = w_events w @ [state_changed ev i (ses_guild_id u) Abandoned Recording]"
      using run Inr by (auto simp: x sessions_resume_route_def h_bind_def run_tx_def
          simp del: One_nat_def)
    moreover from Inr obtain s where "find_session i (w_db w) = Some s" "ses_status s = Abandoned"
      "t_sessions d' = update_rows (\<lambda>s. ses_id s = i) set_resumed (t_sessions (w_db w))"
      "u = set_resumed s"
      unfolding x sessions_resume_tx_eq_Inr by auto
    ultimately show ?thesis
      by (intro told_changed [where f = set_resumed and s = s and ev = ev and i = i])
        (auto simp: keeps_session_simps)
  qed
qed

lemma tells_delete: "tells (delete_cascade_route st ev svc i)"
  unfolding along_def
proof (intro allI impI)
  fix w r w' assume run: "delete_cascade_route st ev svc i w = (r, w')"
  show "told w w'"
  proof (cases "delete_cascade_tx (ev_db_now ev 0) (ev_audit_id ev 0) svc i (w_db w)")
    case (Inl e)
    with run show ?thesis
      by (simp add: delete_cascade_route_def h_bind_def run_tx_def told_refl)
  next
    case (Inr x)
    obtain s keys u d' where x: "x = ((s, keys, u), d')" by (metis surj_pair)
    have "w_db w' = d' \<and>
        w_events w' = w_events w @ [state_changed ev i (ses_guild_id s) (ses_status s) Deleted]"
      using run Inr by (auto simp: x delete_cascade_route_def h_bind_def run_tx_def sweep_keys_eq)
    moreover from Inr have "find_session i (w_db w) = Some s"
      "t_sessions d' = update_rows (\<lambda>s. ses_id s = i) (set_status (ev_db_now ev 0) Deleted)
         (t_sessions (w_db w))"
      unfolding x delete_cascade_tx_eq_Inr by (auto simp: wiped_session_def)
    ultimately show ?thesis
      by (intro told_changed [where f = "set_status (ev_db_now ev 0) Deleted" and s = s and ev = ev
            and i = i]) (auto simp: keeps_session_simps)
  qed
qed

lemma tells_upload: "tells (chunks_upload_route st ev rfc svc sid raw hs body)"
  by (rule telling.along_upload)
    (auto simp: upload_new_eq_Inr upload_inserts_def intro!: told_quiet)

lemma tells_handle: "tells (handle dp ev tok svc h e)"
  by (cases e)
    (simp_all add: handle_def telling.along_map telling.along_basic telling.along_reads
      telling.along_health telling.along_side_routes tells_wipes tells_upload tells_create tells_patch tells_resume
      tells_delete)

lemma serve_told: "serve dp ev tok rq w = (r, w') \<Longrightarrow> told w w'"
  using tells_handle unfolding along_def serve_def respond_def
  by (fastforce intro: told_refl split: if_splits sum.splits prod.splits)

lemma tells_reaper: "tells (reaper_tick now win)"
  unfolding reaper_tick_def by (intro telling.along_best_effort telling.along_side_op side_intros)

lemma service_step_told: "service_step dp w w' \<Longrightarrow> told w w'"
  by (elim service_stepE) (auto dest: serve_told alongD [OF tells_reaper])

lemma service_run_told: "(service_step dp)\<^sup>*\<^sup>* w w' \<Longrightarrow> told w w'"
  by (induction rule: rtranclp_induct) (auto intro: told_refl told_trans service_step_told)

subsection \<open>A subscriber\<close>

fun received :: "ws_input list \<Rightarrow> event list" where
  "received [] = []"
| "received (i # is) = (case i of Recv e \<Rightarrow> e # received is | _ \<Rightarrow> received is)"

text \<open>A subscription to the status of a session, by its id, its guild, both or neither.\<close>

definition follows :: "subscription_set \<Rightarrow> uuid \<Rightarrow> int \<Rightarrow> bool" where
  "follows subs i g \<longleftrightarrow> (\<exists>f. \<lparr>su_event = ''session_state_changed'', su_filter = f\<rparr> \<in> subs \<and>
     fl_session_id f \<in> {None, Some i} \<and> fl_guild_id f \<in> {None, Some g})"

lemma follows_matches:
  "follows subs i g \<Longrightarrow> ssc_session_id c = i \<Longrightarrow> ssc_guild_id c = g \<Longrightarrow>
   set_matches subs (SessionStateChanged t c)"
  by (force simp: follows_def set_matches_iff filter_admits_def)

lemma follows_kept:
  assumes "follows subs i g"
    and "\<And>names. x = TextMessage (Inr (Unsubscribe names)) \<Longrightarrow> ''session_state_changed'' \<notin> set names"
  shows "follows (input_subs x subs) i g"
  using assms
  by (cases "(x, subs)" rule: input_subs.cases)
    (auto simp: follows_def subscribe_eq unsubscribe_def)

lemma accepted_append: "accepted (xs @ ys) subs = accepted xs subs @ accepted ys (subs_after xs subs)"
  by (induction xs arbitrary: subs) auto

lemma replay_accepted:
  assumes "follows subs i g"
    and "\<And>names. TextMessage (Inr (Unsubscribe names)) \<in> set is \<Longrightarrow> ''session_state_changed'' \<notin> set names"
    and "\<And>t c. SessionStateChanged t c \<in> set (received is) \<Longrightarrow> ssc_session_id c = i \<Longrightarrow> ssc_guild_id c = g"
  shows "replay i g st (accepted is subs) = replay i g st (received is)"
  using assms
proof (induction "is" arbitrary: subs st)
  case (Cons x xs)
  have IH: "replay i g st (accepted xs (input_subs x subs)) = replay i g st (received xs)" for st
  proof (rule Cons.IH)
    show "follows (input_subs x subs) i g" using Cons.prems(1,2) by (intro follows_kept) auto
    have "set (received xs) \<subseteq> set (received (x # xs))" by (cases x) auto
    then show "\<And>t c. SessionStateChanged t c \<in> set (received xs) \<Longrightarrow> ssc_session_id c = i \<Longrightarrow>
        ssc_guild_id c = g" using Cons.prems(3) by blast
  qed (use Cons.prems(2) in auto)
  show ?case
  proof (cases x)
    case (Recv e)
    show ?thesis
    proof (cases "set_matches subs e")
      case True
      with Recv IH show ?thesis by (auto split: event.split)
    next
      case False
      with Cons.prems(1,3) Recv have "\<not> status_event i e"
        by (auto simp: status_event_def dest: follows_matches)
      from replay_skip [OF this] Recv False IH show ?thesis by (simp del: replay.simps)
    qed
  qed (use IH in simp_all)
qed simp

text \<open>C7. A client can follow a session on the bus alone. Take a connection that has subscribed to
  \<^verbatim>\<open>session_state_changed\<close> for a session (by its id, its guild, both or neither), knows the session's
  status, does not unsubscribe again and is still open; between two states of the service, with
  requests one after another, it receives what was sent on the bus. Then the events it is sent
  after those it was sent before, and at most one more that is still queued, form a chain of
  changes from the status the client knew to the status the session has now.\<close>

theorem subscriber_tracks_status:
  assumes run: "(service_step dp)\<^sup>*\<^sup>* w w'" and sent: "w_events w' = w_events w @ received after"
    and s: "find_session i (w_db w) = Some s"
    and conn: "ws_loop xs (ws_init depth now m) = (Inr (), c)"
    and inputs: "map it_input xs = before @ after"
    and subscribed: "follows (subs_after before subscription_set_new) i (ses_guild_id s)"
    and kept: "\<And>names. TextMessage (Inr (Unsubscribe names)) \<in> set after \<Longrightarrow>
      ''session_state_changed'' \<notin> set names"
  shows "\<exists>seen pending s'. length pending \<le> 1 \<and>
    frame_events (ws_out c) @ pending = accepted before subscription_set_new @ seen \<and>
    find_session i (w_db w') = Some s' \<and>
    replay i (ses_guild_id s) (ses_status s) seen = Some (ses_status s')"
proof -
  from service_run_told [OF run] sent s obtain s' where s': "find_session i (w_db w') = Some s'"
    and rep: "replay i (ses_guild_id s) (ses_status s) (received after) = Some (ses_status s')"
    unfolding told_def by auto
  let ?seen = "accepted after (subs_after before subscription_set_new)"
  have "replay i (ses_guild_id s) (ses_status s) ?seen = Some (ses_status s')"
    using replay_accepted [OF subscribed kept] replay_guild [OF rep] rep by (metis (no_types))
  moreover have "length (q_inner (ws_q c)) \<le> 1 \<and> frame_events (ws_out c) @ q_inner (ws_q c) =
      accepted before subscription_set_new @ ?seen"
    using ws_loop_spec [OF ws_inv_init conn] inputs
    by (simp add: accepted_append ws_inv_def ws_init_def queue_new_def)
  ultimately show ?thesis using s' by blast
qed

definition sample_upload_done :: request where
  "sample_upload_done = \<lparr>rq_headers = [''authorization'' \<mapsto> ''Bearer tok''],
     rq_endpoint = SessionsPatch 1
       \<lparr>pb_status = Some Uploaded, pb_ended_at = None, pb_participant_count = None\<rparr>\<rparr>"

lemma sample_upload_done_served:
  obtains r w' where "serve sample_deployment sample_env ''x'' sample_upload_done
      (sample_world live_db) = (r, w')"
    and "w_events w' = [state_changed sample_env 1 7 Recording Uploaded]"
proof -
  have auth: "require_service_auth 90 90 (\<lambda>t. t) [''authorization'' \<mapsto> ''Bearer tok''] live_db =
      Inr ''bot''" by (rule live_auth) (simp_all add: live_db_def)
  have "\<exists>r w'. serve sample_deployment sample_env ''x'' sample_upload_done (sample_world live_db) =
      (r, w') \<and> w_events w' = [state_changed sample_env 1 7 Recording Uploaded]"
    using auth
    by (simp add: serve_def sample_upload_done_def sample_deployment_def sample_state_def
        sample_world_def sample_env_def respond_def handle_def h_map_def h_bind_def
        sessions_patch_route_def run_tx_def sessions_patch_tx_def tx_bind_def
        sessions_get_in_tx_def patch_status_def find_session_def sessions_update_status_def
        sessions_update_def set_status_def audit_append_tx_def live_db_def sample_db_def
        sample_session_def empty_db_def state_changed_def)
  then show thesis using that by blast
qed

theorem subscriber_tracks_status_witness:
  "\<exists>w' c e seen pending s'. service_step sample_deployment (sample_world live_db) w' \<and>
     w_events w' = [e] \<and>
     ws_loop [at_time 1 (TextMessage (Inr (Subscribe [''session_state_changed''] filter_default))),
       at_time 2 (Recv e), at_time 3 PongMessage] (ws_init 1 0 metrics_new) = (Inr (), c) \<and>
     length pending \<le> 1 \<and> frame_events (ws_out c) @ pending = seen \<and>
     find_session 1 (w_db w') = Some s' \<and> replay 1 7 Recording seen = Some (ses_status s')"
proof -
  let ?e = "state_changed sample_env 1 7 Recording Uploaded"
  let ?sub = "TextMessage (Inr (Subscribe [''session_state_changed''] filter_default))"
  let ?xs = "[at_time 1 ?sub, at_time 2 (Recv ?e), at_time 3 PongMessage]"
  obtain r w' where run: "serve sample_deployment sample_env ''x'' sample_upload_done
      (sample_world live_db) = (r, w')" and e: "w_events w' = [?e]"
    by (rule sample_upload_done_served)
  then have step: "service_step sample_deployment (sample_world live_db) w'"
    by (auto intro: service_step.request)
  have matches: "set_matches {\<lparr>su_event = ''session_state_changed'', su_filter = filter_default\<rparr>} ?e"
    by (simp add: set_matches_iff state_changed_def filter_admits_def filter_default_def)
  have "\<exists>c. ws_loop ?xs (ws_init 1 0 metrics_new) = (Inr (), c)"
    using matches
    by (simp add: at_time_def ws_iter_def h_bind_def ws_drain_def queue_pop_def ws_init_def
        queue_new_def ws_recv_def subscription_set_new_def ws_reply_def active_def queue_push_def
        sample_send_def)
  then obtain c where conn: "ws_loop ?xs (ws_init 1 0 metrics_new) = (Inr (), c)" by blast
  have s: "find_session 1 (w_db (sample_world live_db)) = Some (sample_session Recording)"
    by (simp add: live_db_def sample_defs find_session_def)
  have sent: "w_events w' = w_events (sample_world live_db) @ received [Recv ?e, PongMessage]"
    by (simp add: e sample_world_def)
  have "follows (subs_after [?sub] subscription_set_new) 1 (ses_guild_id (sample_session Recording))"
    by (simp add: follows_def subscription_set_new_def filter_default_def)
  from subscriber_tracks_status [OF r_into_rtranclp [where r = "service_step sample_deployment",
        OF step] sent s conn _ this]
  have "\<exists>seen pending s'. length pending \<le> 1 \<and> frame_events (ws_out c) @ pending = seen \<and>
      find_session 1 (w_db w') = Some s' \<and> replay 1 7 Recording seen = Some (ses_status s')"
    by (simp add: at_time_def sample_session_def)
  with step e conn show ?thesis by blast
qed

subsection \<open>Concurrent changes\<close>

text \<open>The part of the \<^verbatim>\<open>PATCH\<close> handler after the commit.\<close>

definition announce_patch ::
    "env \<Rightarrow> uuid \<Rightarrow> session \<times> status_change \<Rightarrow> ('s, session) operation" where
  "announce_patch ev i = (\<lambda>(updated, emit_event).
     h_bind (case emit_event of
               None \<Rightarrow> h_return ()
             | Some (old_st, new_st) \<Rightarrow>
                 h_bind (emit (state_changed ev i (ses_guild_id updated) old_st new_st)) (\<lambda>_.
                 on_metrics (inc_counter
                   (''chronicle_session_state_'' @ status_as_str new_st @ ''_total'') 1)))
       (\<lambda>_. h_return updated))"

lemma patch_route_split:
  "sessions_patch_route ev svc i body =
     h_bind (run_tx (sessions_patch_tx (ev_db_now ev 0) (ev_audit_id ev 0) svc i body))
       (announce_patch ev i)"
  by (simp add: sessions_patch_route_def announce_patch_def)

definition status_patch :: "session_status \<Rightarrow> patch_session" where
  "status_patch st = \<lparr>pb_status = Some st, pb_ended_at = None, pb_participant_count = None\<rparr>"

lemma status_patch_commits:
  assumes "find_session i (w_db w) = Some s" and "can_transition (ses_status s) st"
    and "ses_status s \<noteq> st" and "\<not> has_key au_id (ev_audit_id ev 0) (t_audit_log (w_db w))"
  obtains u w1 where "run_tx (sessions_patch_tx (ev_db_now ev 0) (ev_audit_id ev 0) svc i
      (status_patch st)) w = (Inr (u, Some (ses_status s, st)), w1)"
    and "find_session i (w_db w1) = Some u" and "ses_status u = st"
    and "ses_guild_id u = ses_guild_id s" and "w_events w1 = w_events w"
    and "\<exists>a. t_audit_log (w_db w1) = t_audit_log (w_db w) @ [a] \<and> au_id a = ev_audit_id ev 0"
proof -
  let ?f = "patched_session (ev_db_now ev 0) (status_patch st)"
  have "\<exists>d'. sessions_patch_tx (ev_db_now ev 0) (ev_audit_id ev 0) svc i (status_patch st) (w_db w) =
      Inr ((?f s, Some (ses_status s, st)), d')"
    using assms unfolding sessions_patch_tx_eq_Inr by (auto simp: status_patch_def)
  then obtain d' where tx: "sessions_patch_tx (ev_db_now ev 0) (ev_audit_id ev 0) svc i
      (status_patch st) (w_db w) = Inr ((?f s, Some (ses_status s, st)), d')" by blast
  then obtain e where d': "d' = (w_db w)\<lparr>t_sessions := update_rows (\<lambda>s. ses_id s = i) ?f
      (t_sessions (w_db w)), t_audit_log := t_audit_log (w_db w) @
        [audit_row_of (ev_audit_id ev 0) (ev_db_now ev 0) e]\<rparr>"
    unfolding sessions_patch_tx_eq_Inr by blast
  have "find_session i d' = Some (?f s)"
    using find_session_updated [OF assms(1) keeps_patched] by (simp add: d')
  moreover have "ses_status (?f s) = st" "ses_guild_id (?f s) = ses_guild_id s"
    by (simp_all add: patched_session_def status_patch_def)
  ultimately show thesis
    using that [of "?f s" "w\<lparr>w_db := d'\<rparr>"] tx by (simp add: run_tx_def d' audit_row_of_def)
qed

text \<open>The events of concurrent changes can arrive in the wrong order. A status is announced after
  its transaction has committed and released the session's lock. So of two \<^verbatim>\<open>PATCH\<close> requests that move
  a session from one status to a second and on to a third, the second can be announced first: the
  last event names the second status, the session has the third, and a client that follows the
  events is left behind.\<close>

theorem announcements_swapped:
  assumes "find_session i (w_db w) = Some s"
    and "can_transition (ses_status s) b" and "can_transition b c"
    and "ses_status s \<noteq> b" and "b \<noteq> c"
    and "\<not> has_key au_id (ev_audit_id ev1 0) (t_audit_log (w_db w))"
    and "\<not> has_key au_id (ev_audit_id ev2 0) (t_audit_log (w_db w))"
    and "ev_audit_id ev1 0 \<noteq> ev_audit_id ev2 0"
  shows "\<exists>x1 w1 x2 w2 u w3 v w4 es.
    run_tx (sessions_patch_tx (ev_db_now ev1 0) (ev_audit_id ev1 0) svc i (status_patch b)) w =
      (Inr x1, w1) \<and>
    run_tx (sessions_patch_tx (ev_db_now ev2 0) (ev_audit_id ev2 0) svc i (status_patch c)) w1 =
      (Inr x2, w2) \<and>
    announce_patch ev2 i x2 w2 = (Inr u, w3) \<and> announce_patch ev1 i x1 w3 = (Inr v, w4) \<and>
    map_option ses_status (find_session i (w_db w4)) = Some c \<and>
    w_events w4 = w_events w @ es \<and> last es = state_changed ev1 i (ses_guild_id s) (ses_status s) b \<and>
    replay i (ses_guild_id s) (ses_status s) es = None"
proof -
  obtain s1 w1 where one: "run_tx (sessions_patch_tx (ev_db_now ev1 0) (ev_audit_id ev1 0) svc i
        (status_patch b)) w = (Inr (s1, Some (ses_status s, b)), w1)"
    and s1: "find_session i (w_db w1) = Some s1" "ses_status s1 = b" "ses_guild_id s1 = ses_guild_id s"
      "w_events w1 = w_events w"
    and a1: "\<exists>a. t_audit_log (w_db w1) = t_audit_log (w_db w) @ [a] \<and> au_id a = ev_audit_id ev1 0"
    using status_patch_commits [OF assms(1,2,4,6)] by metis
  have "\<not> has_key au_id (ev_audit_id ev2 0) (t_audit_log (w_db w1))"
    using a1 assms(7,8) by auto
  then obtain s2 w2 where two: "run_tx (sessions_patch_tx (ev_db_now ev2 0) (ev_audit_id ev2 0) svc i
        (status_patch c)) w1 = (Inr (s2, Some (b, c)), w2)"
    and s2: "find_session i (w_db w2) = Some s2" "ses_status s2 = c" "ses_guild_id s2 = ses_guild_id s"
      "w_events w2 = w_events w"
    using status_patch_commits [OF s1(1), of c ev2 svc] s1 assms(3,5) by metis
  let ?e2 = "state_changed ev2 i (ses_guild_id s) b c"
  let ?e1 = "state_changed ev1 i (ses_guild_id s) (ses_status s) b"
  obtain w3 where three: "announce_patch ev2 i (s2, Some (b, c)) w2 = (Inr s2, w3)"
    and w3: "w_events w3 = w_events w @ [?e2]" "w_db w3 = w_db w2"
    using s2 by (auto simp: announce_patch_def h_bind_def)
  obtain w4 where four: "announce_patch ev1 i (s1, Some (ses_status s, b)) w3 = (Inr s1, w4)"
    and w4: "w_events w4 = w_events w @ [?e2, ?e1]" "w_db w4 = w_db w2"
    using s1 w3 by (auto simp: announce_patch_def h_bind_def)
  have "replay i (ses_guild_id s) (ses_status s) [?e2, ?e1] = None"
    using assms(4) by (simp add: state_changed_def)
  with one two three four s2 w4 show ?thesis
    by (intro exI [of _ "(s1, Some (ses_status s, b))"] exI [of _ w1] exI [of _ "(s2, Some (b, c))"]
        exI [of _ w2] exI [of _ s2] exI [of _ w3] exI [of _ s1] exI [of _ w4]
        exI [of _ "[?e2, ?e1]"]) simp
qed

theorem announcements_swapped_witness:
  "\<exists>(w4 :: mem_objects world) es. map_option ses_status (find_session 1 (w_db w4)) = Some Transcribing \<and>
     w_events w4 = es \<and> last es = state_changed sample_env 1 7 Recording Uploaded \<and>
     replay 1 7 Recording es = None"
proof -
  let ?w = "sample_world (sample_db Recording)"
  have s: "find_session 1 (w_db ?w) = Some (sample_session Recording)"
    and none: "w_events ?w = []" "\<not> has_key au_id k (t_audit_log (w_db ?w))" for k
    by (simp_all add: sample_defs find_session_def)
  have st: "ses_status (sample_session Recording) = Recording"
    "ses_guild_id (sample_session Recording) = 7" by (simp_all add: sample_session_def)
  have legal: "can_transition Recording Uploaded" "can_transition Uploaded Transcribing" by simp_all
  have new: "Recording \<noteq> Uploaded" "Uploaded \<noteq> Transcribing" by simp_all
  have ids: "ev_audit_id sample_env 0 \<noteq> ev_audit_id sample_env2 0"
    by (simp add: sample_env_def sample_env2_def)
  from announcements_swapped [OF s, unfolded st, OF legal new none(2) none(2) ids,
      unfolded none(1) append_Nil]
  show ?thesis by blast
qed

end
