(* ===== verification/Audit_Trail.thy ===== *)
theory Audit_Trail
  imports Service_Properties "HOL-Library.Sublist"
begin

section \<open>The audit trail\<close>

text \<open>
  Every route appends to the audit log what it did, in its own transaction or right after it.
  A small calculus follows who writes to the log: \<open>attributed a m\<close> says that all entries \<open>m\<close>
  appends, whether it succeeds or fails, name the actor \<open>a\<close>; \<open>logged a m\<close> that it also appends
  at least one when it succeeds; \<open>audited a m\<close> that a success which appends none left all
  tables alone, the service tokens apart (authentication and heartbeats are not audited).
\<close>

definition by_actor :: "string \<Rightarrow> audit_row list \<Rightarrow> bool" where
  "by_actor a es \<longleftrightarrow> (\<forall>e \<in> set es. au_actor_service e = a)"

definition extends_log :: "string \<Rightarrow> audit_row list \<Rightarrow> audit_row list \<Rightarrow> bool" where
  "extends_log a l l' \<longleftrightarrow> (\<exists>es. l' = l @ es \<and> by_actor a es)"

lemma extends_log_refl [simp]: "extends_log a l l"
  by (simp add: extends_log_def by_actor_def)

lemma extends_log_trans: "extends_log a l l' \<Longrightarrow> extends_log a l' l'' \<Longrightarrow> extends_log a l l''"
  unfolding extends_log_def by_actor_def by force

lemma extends_log_length: "extends_log a l l' \<Longrightarrow> length l \<le> length l'"
  by (auto simp: extends_log_def)

lemma extends_log_prefix: "extends_log a l l' \<Longrightarrow> prefix l l'"
  by (auto simp: extends_log_def)

lemma extends_log_snoc [simp]: "au_actor_service e = a \<Longrightarrow> extends_log a l (l @ [e])"
  by (auto simp: extends_log_def by_actor_def)

text \<open>All tables but the service tokens.\<close>

definition same_tables :: "database \<Rightarrow> database \<Rightarrow> bool" where
  "same_tables d d' \<longleftrightarrow> d' = d\<lparr>t_service_sessions := t_service_sessions d'\<rparr>"

lemma same_tables_refl [simp]: "same_tables d d"
  by (simp add: same_tables_def)

subsection \<open>Transactions\<close>

definition log_by :: "string \<Rightarrow> database \<Rightarrow> database \<Rightarrow> bool" where
  "log_by a d d' \<longleftrightarrow> extends_log a (t_audit_log d) (t_audit_log d')"

abbreviation tx_attributed :: "string \<Rightarrow> 'a dbop \<Rightarrow> bool" where
  "tx_attributed a \<equiv> leaves (log_by a)"

interpretation entry: db_frame "log_by a"
  by unfold_locales (auto simp: log_by_def intro: extends_log_trans)

definition tx_logged :: "string \<Rightarrow> 'a dbop \<Rightarrow> bool" where
  "tx_logged a m \<longleftrightarrow> (\<forall>d x d'. m d = Inr (x, d') \<longrightarrow> extends_log a (t_audit_log d) (t_audit_log d') \<and>
     length (t_audit_log d) < length (t_audit_log d'))"

named_theorems attr_intros \<open>attribution of audit entries\<close>

lemma tx_attributed_frame: "core_frame m \<Longrightarrow> tx_attributed a m"
  by (erule leaves_mono) (simp add: core_same_def log_by_def)

lemma tx_attributed_logged: "tx_logged a m \<Longrightarrow> tx_attributed a m"
  by (simp add: tx_logged_def leaves_def log_by_def)

lemmas tx_attributed_bind [attr_intros] = entry.leaves_bind

lemma tx_logged_bind_left:
  "tx_logged a m \<Longrightarrow> (\<And>x. tx_attributed a (f x)) \<Longrightarrow> tx_logged a (tx_bind m f)"
  unfolding tx_logged_def leaves_def log_by_def tx_bind_eq_Inr
  by (metis extends_log_trans extends_log_length order_less_le_trans)

lemma tx_logged_bind_right:
  "tx_attributed a m \<Longrightarrow> (\<And>x. tx_logged a (f x)) \<Longrightarrow> tx_logged a (tx_bind m f)"
  unfolding tx_logged_def leaves_def log_by_def tx_bind_eq_Inr
  by (metis extends_log_trans extends_log_length order_le_less_trans)

lemma tx_logged_append:
  "en_actor_service e = a \<Longrightarrow> tx_logged a (audit_append aid now e)"
  "en_actor_service e = a \<Longrightarrow> tx_logged a (audit_append_tx aid now e)"
  by (auto simp: tx_logged_def audit_append_tx_eq audit_append_eq_Inr audit_row_of_def)

lemma tx_attributed_sessions [attr_intros]:
  "tx_attributed a (sessions_create now c)" "tx_attributed a (sessions_get_in_tx i)"
  "tx_attributed a (sessions_update i f)" "tx_attributed a (sessions_update_status now i st)"
  "tx_attributed a (sessions_patch_fields i e p)" "tx_attributed a (sessions_resume_from_abandoned i)"
  by (auto simp: leaves_def log_by_def sessions_create_def Let_def sessions_update_eq_Inr
      sessions_update_status_def sessions_patch_fields_def sessions_resume_from_abandoned_def
      split: if_splits)

lemma tx_attributed_frames [attr_intros]:
  "tx_attributed a (tx_return x)" "tx_attributed a (tx_fail e)"
  "tx_attributed a (users_upsert now p)" "tx_attributed a (users_set_admin now p admin)"
  "tx_attributed a (display_names_upsert now p name src)"
  "tx_attributed a (participants_add now new_id sid ap)"
  "tx_attributed a (participants_add_many now ids sid inputs)"
  "tx_attributed a (participants_update_consent now i c)"
  "tx_attributed a (participants_update_license i l)"
  "tx_attributed a (participants_mark_wiped now sid p)"
  "tx_attributed a (participants_delete_for_session sid)"
  "tx_attributed a (chunks_delete_for_session sid)"
  "tx_attributed a (chunks_delete_for_participant sid p)"
  "tx_attributed a (metadata_replace now tag sid blob)"
  "tx_attributed a (metadata_shallow_merge now tag tag' sid expected blob)"
  "tx_attributed a (metadata_delete_for_session sid)"
  "tx_attributed a (uniform_bulk_insert rt now ids tags sid svc inps)"
  "tx_attributed a (uniform_patch rt now tag i expected pp)"
  "tx_attributed a (uniform_delete_all_for_session rt sid)"
  "tx_attributed a (uniform_delete_for_participant_segments sid p)"
  "tx_attributed a (mute_ranges_create now new_id sid p cm)"
  "tx_attributed a (mute_ranges_delete_one sid p mi)"
  "tx_attributed a (mute_ranges_delete_for_session sid)"
  "tx_attributed a (mute_ranges_delete_for_participant sid p)"
  "tx_attributed a (service_sessions_insert now new_id nm hsh)"
  "tx_attributed a (service_sessions_touch now hsh)"
  "tx_attributed a (consent_tokens_create now new_id sid pa p)"
  by (intro tx_attributed_frame frame_intros)+

lemma tx_attributed_reap: "tx_attributed a (service_sessions_reap_stale now win)"
  by (intro tx_attributed_frame frame_intros)

lemma tx_attributed_patch_status [attr_intros]:
  "tx_attributed a (patch_status now i s st)"
  unfolding patch_status_def by (auto intro!: attr_intros split: option.split)

text \<open>The transactions that carry their own entry.\<close>

lemma tx_logged_routes:
  "tx_logged svc (sessions_patch_tx now aid svc i body)"
  "tx_logged svc (sessions_resume_tx now aid clk ttl svc i rb)"
  "tx_logged svc (delete_cascade_tx now aid svc i)"
  "tx_logged svc (wipe_tx now aid svc sid p)"
  "tx_logged svc (patch_user_tx now aid svc p admin)"
  "tx_logged ''consent_token'' (token_wipe_tx now aid sid p)"
  "tx_logged ''admin_bootstrap'' (grant_tx now aid p admin)"
proof -
  have ent: "en_actor_service (session_entry svc i act det) = svc"
    "en_actor_service (wipe_entry svc sid p act cts) = svc"
    "en_actor_service (user_entry svc ps rt ri act od) = svc" for svc i act det sid p cts ps rt ri od
    by (simp_all add: session_entry_def wipe_entry_def user_entry_def entry_def)
  note last = tx_logged_bind_left [OF tx_logged_append(2)] and step = tx_logged_bind_right
  have fail: "tx_logged svc (tx_fail e)" for e by (simp add: tx_logged_def)
  show "tx_logged svc (sessions_patch_tx now aid svc i body)"
    unfolding sessions_patch_tx_def
    by (rule step, rule attr_intros, rule step, rule attr_intros, clarify, rule step)
      (auto intro!: attr_intros last simp: ent)
  show "tx_logged svc (sessions_resume_tx now aid clk ttl svc i rb)"
    unfolding sessions_resume_tx_def
    by (rule step) (auto intro!: attr_intros fail step [of _ "sessions_resume_from_abandoned i"] last simp: ent)
  show "tx_logged svc (delete_cascade_tx now aid svc i)"
    unfolding delete_cascade_tx_def
    by ((rule step, rule attr_intros)+, rule last) (auto intro!: attr_intros simp: ent)
  show "tx_logged svc (wipe_tx now aid svc sid p)"
    "tx_logged ''consent_token'' (token_wipe_tx now aid sid p)"
    "tx_logged svc (patch_user_tx now aid svc p admin)"
    "tx_logged ''admin_bootstrap'' (grant_tx now aid p admin)"
    unfolding wipe_tx_def token_wipe_tx_def patch_user_tx_def grant_tx_def
    by ((rule step, rule attr_intros)+, rule last, auto intro!: attr_intros simp: ent)+
qed

text \<open>As rules about a transaction that committed.\<close>

lemmas tx_extends =
  tx_attributed_sessions [unfolded leaves_def log_by_def, rule_format]
  tx_attributed_frames [unfolded leaves_def log_by_def, rule_format]
  tx_logged_routes [THEN tx_attributed_logged, unfolded leaves_def log_by_def, rule_format]
  tx_attributed_reap [unfolded leaves_def log_by_def, rule_format]

subsection \<open>Handlers\<close>

abbreviation world_log :: "'s world \<Rightarrow> audit_row list" where
  "world_log w \<equiv> t_audit_log (w_db w)"

abbreviation attributed :: "string \<Rightarrow> ('s, 'a) operation \<Rightarrow> bool" where
  "attributed a \<equiv> along (\<lambda>w w'. extends_log a (world_log w) (world_log w'))"

interpretation entries: db_relation "\<lambda>w w'. extends_log a (world_log w) (world_log w')" for a
  by unfold_locales (auto intro: extends_log_trans)

lemmas attributed_basic [attr_intros] = entries.along_intros entries.along_store entries.along_emit

definition logged :: "string \<Rightarrow> ('s, 'a) operation \<Rightarrow> bool" where
  "logged a m \<longleftrightarrow> attributed a m \<and>
     (\<forall>w x w'. m w = (Inr x, w') \<longrightarrow> length (world_log w) < length (world_log w'))"

definition audited :: "string \<Rightarrow> ('s, 'a) operation \<Rightarrow> bool" where
  "audited a m \<longleftrightarrow> attributed a m \<and> (\<forall>w x w'. m w = (Inr x, w') \<longrightarrow>
     length (world_log w) < length (world_log w') \<or> same_tables (w_db w) (w_db w'))"

lemma audited_logged: "logged a m \<Longrightarrow> audited a m"
  by (simp add: logged_def audited_def)

lemma attributed_run_tx [attr_intros]: "tx_attributed a m \<Longrightarrow> attributed a (run_tx m)"
  by (intro entries.along_run_tx) (auto simp: leaves_def log_by_def)

lemma attributed_uniform_delete [attr_intros]: "attributed a (on_db (uniform_delete rt i))"
proof -
  have "t_audit_log (snd (uniform_delete rt i d)) = t_audit_log d" for d
    by (auto simp: uniform_delete_def split: option.split)
  then show ?thesis by (auto simp: along_def on_db_def split: prod.splits) (metis extends_log_refl snd_conv)
qed

lemma attributed_audit [attr_intros]:
  "en_actor_service e = a \<Longrightarrow> attributed a (audit ev t k e)"
  unfolding audit_def
  by (intro attr_intros tx_attributed_logged tx_logged_append)

lemma logged_run_tx: "tx_logged a m \<Longrightarrow> logged a (run_tx m)"
  unfolding logged_def
  by (auto intro: attr_intros tx_attributed_logged) (auto simp: tx_logged_def run_tx_eq_Inr)

lemma logged_audit: "en_actor_service e = a \<Longrightarrow> logged a (audit ev t k e)"
  unfolding audit_def by (intro logged_run_tx tx_logged_append)

lemma logged_fail: "logged a (h_fail e)"
  by (simp add: logged_def attr_intros)

lemma logged_bind_left:
  assumes m: "logged a m" and f: "\<And>x. attributed a (f x)"
  shows "logged a (h_bind m f)"
  unfolding logged_def
proof (intro conjI allI impI)
  show "attributed a (h_bind m f)" using assms by (auto simp: logged_def intro: attr_intros)
  fix w x w' assume "h_bind m f w = (Inr x, w')"
  then obtain y w1 where "m w = (Inr y, w1)" "f y w1 = (Inr x, w')" by (auto simp: h_bind_eq_Inr)
  with m f [of y] show "length (world_log w) < length (world_log w')"
    unfolding logged_def along_def by (meson extends_log_length order_less_le_trans)
qed

lemma logged_bind_right:
  assumes m: "attributed a m" and f: "\<And>x. logged a (f x)"
  shows "logged a (h_bind m f)"
  unfolding logged_def
proof (intro conjI allI impI)
  show "attributed a (h_bind m f)" using assms by (auto simp: logged_def intro: attr_intros)
  fix w x w' assume "h_bind m f w = (Inr x, w')"
  then obtain y w1 where "m w = (Inr y, w1)" "f y w1 = (Inr x, w')" by (auto simp: h_bind_eq_Inr)
  with m f [of y] show "length (world_log w) < length (world_log w')"
    unfolding logged_def along_def by (meson extends_log_length order_le_less_trans)
qed

text \<open>The two shapes of a handler: its entry right after the transaction, or within it.\<close>

lemma logged_after:
  "attributed a m \<Longrightarrow> (\<And>x. en_actor_service (e x) = a) \<Longrightarrow> (\<And>x. attributed a (rest x)) \<Longrightarrow>
   logged a (h_bind m (\<lambda>x. h_bind (audit ev t k (e x)) (\<lambda>_. rest x)))"
  by (intro logged_bind_right logged_bind_left logged_audit)

lemma logged_within:
  "tx_logged a m \<Longrightarrow> (\<And>x. attributed a (f x)) \<Longrightarrow> logged a (h_bind (run_tx m) f)"
  by (intro logged_bind_left logged_run_tx)

lemma logged_map: "logged a m \<Longrightarrow> logged a (h_map f m)"
  unfolding h_map_def by (intro logged_bind_left attr_intros)

lemma entry_actor [simp]:
  "en_actor_service (entry svc ps so ty ri act det) = svc"
  "en_actor_service (session_entry svc i act d) = svc"
  "en_actor_service (participant_entry svc ps sid i act det) = svc"
  "en_actor_service (mute_entry svc p sid i act det) = svc"
  "en_actor_service (user_entry svc pu ty ri act det) = svc"
  "en_actor_service (metadata_entry svc sid act tag) = svc"
  "en_actor_service (row_entry rt svc author sid i act det) = svc"
  "en_actor_service (upload_entry svc sid p n z) = svc"
  by (simp_all add: entry_def session_entry_def participant_entry_def mute_entry_def
      user_entry_def metadata_entry_def row_entry_def upload_entry_def)

lemmas logged_shapes = logged_after logged_within logged_fail
lemmas logged_prefix = logged_bind_right [OF entries.along_basic(3)]
  logged_bind_right [OF entries.along_basic(5)]

lemma routes_logged:
  "logged svc (sessions_create_route ev svc inp)"
  "logged svc (sessions_patch_route ev svc i body)"
  "logged svc (sessions_resume_route st ev svc i rb)"
  "logged svc (delete_cascade_route st ev svc i)"
  "logged svc (metadata_replace_route ev svc sid blob)"
  "logged svc (metadata_patch_route ev svc sid hs blob)"
  "logged svc (patch_row_route rt ev svc i hs pb)"
  "logged svc (delete_row_route rt ev svc i)"
  "logged svc (add_one_route ev svc sid ap)"
  "logged svc (add_batch_route ev svc sid aps)"
  "logged svc (patch_consent_route ev svc i uc)"
  "logged svc (patch_license_route ev svc i ul)"
  "logged svc (create_token_route ev svc tq)"
  "logged svc (upsert_user_route ev svc p)"
  unfolding sessions_create_route_def sessions_patch_route_def sessions_resume_route_def
    delete_cascade_route_def metadata_replace_route_def metadata_patch_route_def
    patch_row_route_def delete_row_route_def add_one_route_def add_batch_route_def
    patch_consent_route_def patch_license_route_def create_token_route_def upsert_user_route_def
  by (rule logged_shapes; auto intro!: attr_intros tx_logged_routes split: prod.split)+

lemma routes_logged_parsed:
  "logged svc (create_mute_route ev svc sid raw cm)"
  "logged svc (delete_mute_route ev svc sid raw rid)"
  "logged svc (wipe_participant_audio_route st ev svc sid raw)"
  "logged svc (patch_user_route ev svc raw admin)"
  unfolding create_mute_route_def delete_mute_route_def wipe_participant_audio_route_def
    patch_user_route_def
  by (rule logged_prefix, (rule logged_shapes | rule logged_run_tx);
      auto intro!: attr_intros tx_logged_routes split: prod.split)+

lemma post_display_logged: "logged svc (post_display_route ev svc raw ud)"
  unfolding post_display_route_def
  by (rule logged_prefix, rule logged_bind_right, rule attr_intros, rule attr_intros,
      rule logged_shapes) (auto intro!: attr_intros)

lemma token_routes_logged:
  "logged ''consent_token'' (patch_consent_token_route ev tok pc)"
  "logged ''consent_token'' (delete_audio_token_route st ev tok)"
  "logged ''admin_bootstrap'' (admin_grant_route st ev gq)"
proof -
  show "logged ''consent_token'' (patch_consent_token_route ev tok pc)"
    unfolding patch_consent_token_route_def Let_def
    by (rule logged_bind_right, rule attr_intros, rule logged_bind_right, intro attr_intros,
        rule logged_after) (auto intro!: attr_intros)
  show "logged ''consent_token'' (delete_audio_token_route st ev tok)"
    unfolding delete_audio_token_route_def Let_def
    by (rule logged_bind_right, rule attr_intros, rule logged_within, rule tx_logged_routes)
      (intro attr_intros)
  show "logged ''admin_bootstrap'' (admin_grant_route st ev gq)"
    unfolding admin_grant_route_def
    by (auto intro!: logged_within tx_logged_routes attr_intros logged_fail)
qed

subsection \<open>Handlers that may have nothing to record\<close>

lemma upload_audited: "audited svc (chunks_upload_route st ev rfc svc sid raw hs body)"
  unfolding audited_def
proof (intro conjI allI impI)
  show "attributed svc (chunks_upload_route st ev rfc svc sid raw hs body)"
    by (rule entries.along_upload) (auto simp: upload_new_eq_Inr upload_inserts_def audit_row_of_def)
  fix w x w' assume "chunks_upload_route st ev rfc svc sid raw hs body w = (Inr x, w')"
  then show "length (world_log w) < length (world_log w') \<or> same_tables (w_db w) (w_db w')"
    by (auto simp: chunks_upload_route_Inr upload_new_eq_Inr upload_inserts_def split: option.splits)
qed

lemma attributed_announce: "attributed svc (announce_rows rt ev svc sid guild k rows)"
  by (induction rows arbitrary: k) (auto intro!: attr_intros)

lemma logged_announce: "rows \<noteq> [] \<Longrightarrow> logged svc (announce_rows rt ev svc sid guild k rows)"
  by (cases rows) (auto intro!: logged_bind_left logged_audit attr_intros attributed_announce)

lemma insert_rows_none: "insert_rows rt now ids tags k sid svc is d = Inr ([], d') \<Longrightarrow> d' = d"
  by (cases "is") (auto simp: tx_bind_eq_Inr)

lemma bulk_insert_nothing:
  assumes "uniform_bulk_insert rt now ids tags sid svc inputs d = Inr (b, d')" and "br_inserted b = []"
  shows "d' = d"
  using assms
  by (auto simp: uniform_bulk_insert_def tx_bind_eq_Inr split: if_splits dest: insert_rows_none)

lemma bulk_create_audited: "audited svc (bulk_create_route rt ev svc sid req)"
  unfolding audited_def
proof (intro conjI allI impI)
  show "attributed svc (bulk_create_route rt ev svc sid req)"
    unfolding bulk_create_route_def by (intro attr_intros attributed_announce)
  fix w x w' assume "bulk_create_route rt ev svc sid req w = (Inr x, w')"
  then obtain b d guild where ins: "uniform_bulk_insert rt (ev_db_now ev 0) (ev_row_id ev) (ev_tag ev)
        sid svc (bulk_request_take rt req) (w_db w) = Inr (b, d)"
    and ann: "announce_rows rt ev svc sid guild 0 (br_inserted b) (w\<lparr>w_db := d\<rparr>) = (Inr (), w')"
    by (auto simp: bulk_create_route_def h_bind_eq_Inr run_tx_eq_Inr)
  show "length (world_log w) < length (world_log w') \<or> same_tables (w_db w) (w_db w')"
  proof (cases "br_inserted b = []")
    case True
    with bulk_insert_nothing [OF ins] ann show ?thesis by auto
  next
    case False
    from ins have "extends_log svc (t_audit_log (w_db w)) (t_audit_log d)"
      using tx_attributed_frames(17) unfolding leaves_def log_by_def by blast
    then have "length (world_log w) \<le> length (t_audit_log d)" by (rule extends_log_length)
    also have "\<dots> < length (world_log w')"
      using logged_announce [OF False] ann unfolding logged_def by fastforce
    finally show ?thesis by simp
  qed
qed

definition quiet_step :: "'s world \<Rightarrow> 's world \<Rightarrow> bool" where
  "quiet_step w w' \<longleftrightarrow>
     w_db w' = w_db w\<lparr>t_service_sessions := t_service_sessions (w_db w')\<rparr>"

abbreviation quiet :: "('s, 'a) operation \<Rightarrow> bool" where
  "quiet \<equiv> along quiet_step"

interpretation calm: db_relation quiet_step
proof
  show "quiet_step u w" if "quiet_step u v" "quiet_step v w" for u v w :: "'s world"
    using that unfolding quiet_step_def
    by (metis database.select_convs(11) database.update_convs(12) database.surjective)
qed (auto simp: quiet_step_def)

lemma audited_quiet: "quiet m \<Longrightarrow> audited a m"
  unfolding quiet_step_def audited_def along_def same_tables_def
  by (metis extends_log_refl database.select_convs(11) database.update_convs(12) database.surjective)

lemmas quiet_reads = calm.along_reads calm.along_health calm.along_basic(1)

lemma quiet_auth:
  "quiet (authenticate_route st ev hash tok req)" "quiet (heartbeat_route ev hash h)"
  by (auto simp: along_def quiet_step_def authenticate_route_def heartbeat_route_def h_bind_def run_tx_def
      service_sessions_insert_def service_sessions_touch_def Let_def
      split: sum.splits option.splits if_splits)

lemma audited_map: "audited a m \<Longrightarrow> audited a (h_map f m)"
  unfolding audited_def along_def by (auto simp: h_map_apply split: prod.splits sum.splits)

subsection \<open>Every endpoint\<close>

text \<open>Who acts: the routes that take no service token write fixed names.\<close>

definition actor_of :: "string \<Rightarrow> endpoint \<Rightarrow> string" where
  "actor_of svc e =
     (case e of
        AdminGrant _ \<Rightarrow> ''admin_bootstrap''
      | ConsentPatch _ _ \<Rightarrow> ''consent_token''
      | ConsentDeleteAudio _ \<Rightarrow> ''consent_token''
      | _ \<Rightarrow> svc)"

lemmas operations_logged = routes_logged routes_logged_parsed post_display_logged
  token_routes_logged

lemma handle_audited: "audited (actor_of svc e) (handle dp ev tok svc h e)"
  by (cases e; simp only: handle_def actor_of_def endpoint.case)
    ((rule audited_map, rule upload_audited bulk_create_audited)
     | (rule audited_map, rule audited_logged, rule operations_logged)
     | (rule audited_quiet, rule quiet_reads)
     | (rule audited_quiet, rule calm.along_map, rule quiet_reads quiet_auth))+

lemma respond_audited:
  assumes "respond (handle dp ev tok svc h e) w = (r, w')"
  shows "extends_log (actor_of svc e) (world_log w) (world_log w') \<and>
    (\<forall>x. r = Inr x \<longrightarrow> length (world_log w) < length (world_log w') \<or>
       same_tables (w_db w) (w_db w'))"
  using handle_audited [of svc e dp ev tok h] assms
  unfolding audited_def along_def respond_def by (auto split: prod.splits sum.splits)

text \<open>C3. No silent change: whatever a request did, the audit log afterwards is the log before and
  the entries of this request, each naming its actor: for a protected endpoint the service the
  middleware authenticated, and otherwise the endpoint's fixed actor. A request that is answered
  with success and wrote no entry has left every table as it was, the service tokens apart.\<close>

theorem changes_are_audited:
  assumes "serve dp ev tok rq w = (r, w')"
  shows "\<exists>svc es. t_audit_log (w_db w') = t_audit_log (w_db w) @ es \<and>
    (\<forall>a \<in> set es. au_actor_service a = actor_of svc (rq_endpoint rq)) \<and>
    (es = [] \<or> unprotected (rq_endpoint rq) \<or>
       require_service_auth (ev_auth_now ev) (st_heartbeat_reap (dp_state dp)) (dp_hash dp)
         (rq_headers rq) (w_db w) = Inr svc) \<and>
    (\<forall>x. r = Inr x \<longrightarrow> es = [] \<longrightarrow> same_tables (w_db w) (w_db w'))"
proof -
  have run: ?thesis
    if "respond (handle dp ev tok svc (rq_headers rq) (rq_endpoint rq)) w = (r, w')"
      and "unprotected (rq_endpoint rq) \<or>
       require_service_auth (ev_auth_now ev) (st_heartbeat_reap (dp_state dp)) (dp_hash dp)
         (rq_headers rq) (w_db w) = Inr svc" for svc
    using respond_audited [OF that(1)] that(2) unfolding extends_log_def by_actor_def
    by (intro exI [of _ svc]) auto
  show ?thesis
  proof (cases "unprotected (rq_endpoint rq)")
    case True
    with assms run [of "''''"] show ?thesis by (simp add: serve_def)
  next
    case False
    then show ?thesis using assms run by (auto simp: serve_def split: sum.splits)
  qed
qed

definition sample_grant :: request where
  "sample_grant = \<lparr>rq_headers = Map.empty, rq_endpoint = AdminGrant \<lparr>gr_shared_secret = ''secret'',
     gr_pseudo_id = sample_pid, gr_is_admin = None\<rparr>\<rparr>"

lemma sample_grant_served:
  "\<exists>x w'. serve sample_deployment sample_env ''tok'' sample_grant (sample_world (sample_db Recording)) =
     (Inr x, w') \<and> world_log w' \<noteq> []"
  by (simp add: valid_pid_def find_user_def serve_def sample_deployment_def sample_grant_def handle_def respond_def h_map_def
      h_bind_def admin_grant_route_def run_tx_def grant_tx_def tx_bind_def users_set_admin_def
      audit_append_tx_def sample_defs Let_def unwrap_or_def)

theorem changes_are_audited_witness:
  "\<exists>x w' es. serve sample_deployment sample_env ''tok'' sample_grant (sample_world (sample_db Recording)) =
     (Inr x, w') \<and> t_audit_log (w_db w') = es \<and> es \<noteq> [] \<and> (\<forall>a \<in> set es. au_actor_service a = ''admin_bootstrap'')"
proof -
  obtain x w' where run: "serve sample_deployment sample_env ''tok'' sample_grant
      (sample_world (sample_db Recording)) = (Inr x, w')"
      "world_log w' \<noteq> []"
    using sample_grant_served by blast
  from changes_are_audited [OF run(1)] run show ?thesis
    by (auto simp: sample_grant_def actor_of_def sample_defs)
qed

lemma tx_step_extends_log: "tx_step d d' \<Longrightarrow> prefix (t_audit_log d) (t_audit_log d')"
proof (induction rule: tx_step.induct)
  case (row_delete rt i d r d')
  then show ?case by (auto simp: uniform_delete_def split: option.splits)
next
  case upload
  then show ?case by (simp add: upload_inserts_def)
next
  case (audit aid now e d x d')
  then show ?case by (auto simp: audit_append_eq_Inr)
qed (drule tx_extends, erule extends_log_prefix)+

text \<open>C36. History is never rewritten: along every interleaving of the transactions of any requests and
  of the reaper the audit log only grows at its end, so a row once returned by the audit query
  stays in the log, unchanged.\<close>

theorem audit_append_only:
  assumes "tx_run d d'"
  shows "prefix (t_audit_log d) (t_audit_log d') \<and>
    (\<forall>f rows. audit_query f d = Inr rows \<longrightarrow> set rows \<subseteq> set (t_audit_log d'))"
proof -
  have "prefix (t_audit_log d) (t_audit_log d')"
    using assms by (induction rule: rtranclp_induct) (auto dest: tx_step_extends_log)
  then show ?thesis using audit_query_sound(1) by (fastforce simp: prefix_def)
qed

theorem audit_append_only_witness:
  "\<exists>w'. service_step sample_deployment (sample_world (sample_db Recording)) w' \<and>
     prefix [] (t_audit_log (w_db w'))"
proof -
  obtain w' where step: "service_step sample_deployment (sample_world (sample_db Recording)) w'"
    and run: "tx_run (sample_db Recording) (w_db w')"
    using sample_login_step by blast
  from audit_append_only [OF run] step show ?thesis by (auto simp: sample_defs)
qed

end
