(* ===== verification/Audio_Handlers.thy ===== *)
theory Audio_Handlers
  imports Service Side_Handlers
begin

section \<open>Handlers that have nothing to do with audio\<close>

text \<open>
  Six endpoints store, remove or read audio. Every other request leaves the chunks table and the
  object store as they are; the locale \<open>chunk_relation\<close> says so for any relation that asks for no more
  than that. Its instances are the archive (\<open>Audio_Archive\<close>) and the bounds of the stored rows
  (\<open>Chunk_Bounds\<close>).
\<close>

fun audio_endpoint :: "endpoint \<Rightarrow> bool" where
  "audio_endpoint (ChunksUpload _ _ _) = True"
| "audio_endpoint (ChunksList _ _) = True"
| "audio_endpoint (ChunksDownload _ _ _) = True"
| "audio_endpoint (AudioWipe _ _) = True"
| "audio_endpoint (ConsentDeleteAudio _) = True"
| "audio_endpoint (SessionsDelete _) = True"
| "audio_endpoint _ = False"

locale chunk_relation = world_relation R for R :: "'s world \<Rightarrow> 's world \<Rightarrow> bool" +
  assumes kept: "t_chunks (w_db w') = t_chunks (w_db w) \<Longrightarrow> w_store w' = w_store w \<Longrightarrow> R w w'"

sublocale chunk_relation < side_relation R
  by unfold_locales (auto intro: kept)

sublocale chunk_relation < event_blind R
  by unfold_locales (auto intro: kept)

context chunk_relation
begin

lemma along_chunks_same: "leaves chunks_same m \<Longrightarrow> along R (run_tx m)"
  by (rule along_run_tx, rule kept) (auto dest: leavesD simp: chunks_same_def)

lemma along_session_routes:
  "along R (sessions_create_route ev svc inp)"
  "along R (sessions_patch_route ev svc i body)"
  "along R (sessions_resume_route st ev svc i rb)"
  unfolding sessions_create_route_def sessions_patch_route_def sessions_resume_route_def Let_def
  by (auto intro!: along_intros along_audit along_emit along_chunks_same chunk_intros
      split: prod.splits)

lemma along_unrelated: "\<not> audio_endpoint e \<Longrightarrow> along R (handle dp ev tok svc h e)"
  by (cases e)
    (simp_all add: handle_def along_map along_basic along_reads along_health along_side_routes
      along_session_routes)

lemma along_reading:
  "along R (handle dp ev tok svc h (ChunksList i p))"
  "along R (handle dp ev tok svc h (ChunksDownload i p n))"
  by (simp_all add: handle_def along_map along_reads)

lemma along_reaper: "along R (reaper_tick now win)"
  unfolding reaper_tick_def by (intro along_best_effort along_side_op side_intros)

end

end
