(* ===== verification/Audio_Archive.thy ===== *)
theory Audio_Archive
  imports Service_Properties Audio_Handlers Chunk_Properties Speaker_Properties
begin

section \<open>The audio archive\<close>

text \<open>
  What the service promises about audio, and that the routes, the chunks table and the object store
  together keep the promise. The abstract state (\<open>archive\<close>) is a list of recordings for every
  session and speaker; \<open>archive_answer\<close> says what each request may answer and do to it. The code
  splits a recording into a row and an object, in two systems without a common transaction:
  \<open>archive_of\<close> puts them together again, and \<open>archive_inv\<close> is what makes that possible: every row has
  its object, of the size the row says.

  The key of an object starts with the prefix of its session, which the client chooses when it
  creates the session; nothing in the schema keeps two sessions from sharing one. \<open>own_prefixes\<close> says
  that the clients have not done that.
\<close>

subsection \<open>The specification\<close>

type_synonym archive = "uuid \<Rightarrow> pseudo_id \<Rightarrow> bytes list"

definition add_chunk :: "uuid \<Rightarrow> pseudo_id \<Rightarrow> bytes \<Rightarrow> archive \<Rightarrow> archive" where
  "add_chunk i p b a = a(i := (a i)(p := a i p @ [b]))"

definition clear_stream :: "uuid \<Rightarrow> pseudo_id \<Rightarrow> archive \<Rightarrow> archive" where
  "clear_stream i p a = a(i := (a i)(p := []))"

definition drop_session :: "uuid \<Rightarrow> archive \<Rightarrow> archive" where
  "drop_session i a = a(i := (\<lambda>_. []))"

text \<open>The parameter \<open>whose\<close> says to which session and speaker a consent token belongs.\<close>

inductive archive_answer ::
    "(uuid \<Rightarrow> (uuid \<times> pseudo_id) option) \<Rightarrow> endpoint \<Rightarrow> response + reply \<Rightarrow> archive \<Rightarrow> archive \<Rightarrow> bool"
  for whose where
  failed: "archive_answer whose e (Inl x) a a"
| unrelated: "\<not> audio_endpoint e \<Longrightarrow> archive_answer whose e (Inr y) a a"
| uploaded: "\<not> ur_deduplicated u \<Longrightarrow> ur_seq u = int (length (a i (PseudoId p))) \<Longrightarrow>
    archive_answer whose (ChunksUpload i p (Inr b)) (Inr (RUpload u)) a (add_chunk i (PseudoId p) b a)"
| repeated: "ur_deduplicated u \<Longrightarrow> 0 \<le> ur_seq u \<Longrightarrow> ur_seq u < int (length (a i (PseudoId p))) \<Longrightarrow>
    archive_answer whose (ChunksUpload i p body) (Inr (RUpload u)) a a"
| listed: "map ch_seq cs = map int [0..<length (a i (PseudoId p))] \<Longrightarrow>
    map ch_size_bytes cs = map (\<lambda>b. int (length b)) (a i (PseudoId p)) \<Longrightarrow>
    archive_answer whose (ChunksList i p) (Inr (RChunks cs)) a a"
| downloaded: "n < length (a i (PseudoId p)) \<Longrightarrow> b = a i (PseudoId p) ! n \<Longrightarrow>
    archive_answer whose (ChunksDownload i p (int n)) (Inr (RAudio b)) a a"
| wiped: "archive_answer whose (AudioWipe i p) (Inr y) a (clear_stream i (PseudoId p) a)"
| token_wiped: "whose t = Some (i, q) \<Longrightarrow>
    archive_answer whose (ConsentDeleteAudio t) (Inr y) a (clear_stream i q a)"
| deleted: "archive_answer whose (SessionsDelete i) (Inr y) a (drop_session i a)"

subsection \<open>Rows and objects\<close>

definition token_stream :: "database \<Rightarrow> uuid \<Rightarrow> (uuid \<times> pseudo_id) option" where
  "token_stream d tok =
     (case List.find (\<lambda>t. ct_token t = tok) (t_consent_tokens d) of
        None \<Rightarrow> None
      | Some t \<Rightarrow> map_option (\<lambda>p. (ct_session_id t, par_pseudo_id p))
          (find_participant (ct_participant_id t) d))"

definition own_prefixes :: "database \<Rightarrow> bool" where
  "own_prefixes d \<longleftrightarrow> distinct (map ses_s3_prefix (t_sessions d))"

definition audio_present :: "('s \<Rightarrow> string \<rightharpoonup> bytes) \<Rightarrow> 's world \<Rightarrow> bool" where
  "audio_present contents w \<longleftrightarrow> (\<forall>c \<in> set (t_chunks (w_db w)).
     \<exists>b. contents (w_store w) (ch_s3_key c) = Some b \<and> ch_size_bytes c = int (length b))"

definition archive_inv :: "('s \<Rightarrow> string \<rightharpoonup> bytes) \<Rightarrow> 's world \<Rightarrow> bool" where
  "archive_inv contents w \<longleftrightarrow> service_inv (w_db w) \<and> audio_present contents w"

definition archive_of :: "('s \<Rightarrow> string \<rightharpoonup> bytes) \<Rightarrow> 's world \<Rightarrow> archive" where
  "archive_of contents w = (\<lambda>i p.
     map (\<lambda>c. the (contents (w_store w) (ch_s3_key c))) (stream_rows i p (w_db w)))"

text \<open>The stream of a valid token is the one that the token's route wipes.\<close>

lemma token_stream_valid:
  assumes wf: "db_wf d" and cx: "consent_tokens_validate now tok d = Inr (Some cx)"
  shows "token_stream d tok = Some (ct_session_id (cx_token cx), par_pseudo_id (cx_participant cx))"
proof -
  have dist: "distinct (map ct_token (t_consent_tokens d))"
    using db_wfD(13) [OF wf] by (simp add: consent_tokens_wf_def)
  note v = validate_SomeD [OF cx]
  have "List.find (\<lambda>t. ct_token t = tok) (t_consent_tokens d) = Some (cx_token cx)"
    using find_key_Some_distinct [OF dist] v(1,3) by blast
  with v(5) show ?thesis by (simp add: token_stream_def)
qed

lemma own_prefixesD:
  assumes "own_prefixes d" and "find_session i d = Some s" and "find_session j d = Some t"
    and "ses_s3_prefix s = ses_s3_prefix t"
  shows "i = j \<and> s = t"
proof -
  have "s \<in> set (t_sessions d)" "ses_id s = i" "t \<in> set (t_sessions d)" "ses_id t = j"
    using assms(2,3) by (auto dest: find_session_SomeD)
  then show ?thesis using assms(1,4) by (auto simp: own_prefixes_def distinct_map dest: inj_onD)
qed

text \<open>A session keeps its prefix, so prefixes that are distinct have been distinct before.\<close>

lemma own_prefixes_before:
  assumes run: "tx_run d d'" and inv: "service_inv d" and own: "own_prefixes d'"
  shows "own_prefixes d"
proof -
  have ids: "distinct (map ses_id (t_sessions d))"
    using db_wfD(3) [OF service_invD(1) [OF inv]] by (simp add: sessions_wf_def)
  have found: "find_session (ses_id s) d = Some s" if "s \<in> set (t_sessions d)" for s
    using that find_session_None [of "ses_id s" d] find_session_unique [OF service_invD(1) [OF inv]]
    by (cases "find_session (ses_id s) d") (auto simp: has_key_iff_image)
  have "s = t" if st: "s \<in> set (t_sessions d)" "t \<in> set (t_sessions d)"
    "ses_s3_prefix s = ses_s3_prefix t" for s t
  proof -
    obtain s' t' where "find_session (ses_id s) d' = Some s'" "ses_s3_prefix s' = ses_s3_prefix s"
      "find_session (ses_id t) d' = Some t'" "ses_s3_prefix t' = ses_s3_prefix t"
      using session_kept [OF run inv found [OF st(1)]] session_kept [OF run inv found [OF st(2)]]
      by (auto simp: session_later_def)
    then have "ses_id s = ses_id t" using own_prefixesD [OF own] st(3) by metis
    then show "s = t" using ids st by (auto simp: distinct_map dest: inj_onD)
  qed
  then show ?thesis using ids by (auto simp: own_prefixes_def distinct_map intro: inj_onI)
qed

text \<open>With prefixes of their own, no two rows share an object, and the next key is unused.\<close>

lemma key_fresh:
  assumes inv: "service_inv d" and own: "own_prefixes d" and s: "find_session i d = Some s"
    and p: "chunk_pid_ok p" and c: "c \<in> set (t_chunks d)"
  shows "ch_s3_key c \<noteq> chunk_s3_key (ses_s3_prefix s) p (next_seq i p d)"
proof
  assume eq: "ch_s3_key c = chunk_s3_key (ses_s3_prefix s) p (next_seq i p d)"
  obtain t where t: "find_session (ch_session_id c) d = Some t"
    "ch_s3_key c = chunk_s3_key (ses_s3_prefix t) (ch_pseudo_id c) (ch_seq c)"
    using chunk_session [OF inv c] .
  have "0 \<le> next_seq i p d" by (simp add: next_seq_gapless [OF service_invD(3) [OF inv]])
  with chunk_s3_key_inj [OF _ chunk_pid [OF inv c] p, of "ses_s3_prefix t" "ch_seq c"] eq t(2)
    chunk_seq_range [OF inv c]
  have same: "ses_s3_prefix t = ses_s3_prefix s" "ch_pseudo_id c = p" "ch_seq c = next_seq i p d"
    by auto
  with own_prefixesD [OF own t(1) s] have "ch_session_id c = i" by blast
  with same chunk_seq_range [OF inv c] show False by simp
qed

lemma keys_unshared:
  assumes inv: "service_inv d" and own: "own_prefixes d"
    and c: "c \<in> set (t_chunks d)" and c': "c' \<in> set (t_chunks d)" and eq: "ch_s3_key c = ch_s3_key c'"
  shows "c = c'"
proof -
  have "ch_session_id c = ch_session_id c'"
    using chunk_key_determines [OF inv c c' eq] own_prefixesD [OF own]
      chunk_session [OF inv c] chunk_session [OF inv c']
    by (metis option.map(2) option.inject)
  with chunk_key_determines [OF inv c c' eq] show ?thesis by blast
qed

subsection \<open>The two ways to change the archive\<close>

text \<open>A new row with its object.\<close>

lemma archive_added:
  assumes pres: "audio_present contents w"
    and rows: "t_chunks (w_db w') = t_chunks (w_db w) @ [c]"
    and c: "ch_session_id c = i" "ch_pseudo_id c = p" "ch_s3_key c = k" "ch_size_bytes c = int (length b)"
    and put: "contents (w_store w') = (contents (w_store w))(k \<mapsto> b)"
    and fresh: "\<And>c. c \<in> set (t_chunks (w_db w)) \<Longrightarrow> ch_s3_key c \<noteq> k"
  shows "audio_present contents w' \<and>
    archive_of contents w' = add_chunk i p b (archive_of contents w)"
proof -
  have "archive_of contents w' j q = add_chunk i p b (archive_of contents w) j q" for j q
  proof -
    have "map (\<lambda>c. the (contents (w_store w') (ch_s3_key c))) (stream_rows j q (w_db w)) =
        archive_of contents w j q"
      unfolding archive_of_def using fresh
      by (intro map_cong) (auto simp: put stream_rows_def)
    then show ?thesis
      using c by (auto simp: archive_of_def add_chunk_def stream_rows_def rows put in_stream_def)
  qed
  moreover have "audio_present contents w'"
    using pres fresh c by (auto simp: audio_present_def rows put)
  ultimately show ?thesis by (simp add: fun_eq_iff)
qed

text \<open>Rows deleted, and at most their objects with them.\<close>

lemma archive_deleted:
  assumes inv: "service_inv (w_db w)" and own: "own_prefixes (w_db w)"
    and pres: "audio_present contents w"
    and rows: "t_chunks (w_db w') = filter (\<lambda>c. \<not> Q c) (t_chunks (w_db w))"
    and kept: "\<And>k. k \<notin> ch_s3_key ` {c \<in> set (t_chunks (w_db w)). Q c} \<Longrightarrow>
      contents (w_store w') k = contents (w_store w) k"
  shows "audio_present contents w' \<and>
    (\<forall>j q. archive_of contents w' j q = map (\<lambda>c. the (contents (w_store w) (ch_s3_key c)))
       (filter (\<lambda>c. \<not> Q c) (stream_rows j q (w_db w))))"
proof -
  have same: "contents (w_store w') (ch_s3_key c) = contents (w_store w) (ch_s3_key c)"
    if "c \<in> set (t_chunks (w_db w))" "\<not> Q c" for c
    using that keys_unshared [OF inv own] by (intro kept) blast
  then have "audio_present contents w'"
    using pres by (auto simp: audio_present_def rows)
  moreover have "stream_rows j q (w_db w') = filter (\<lambda>c. \<not> Q c) (stream_rows j q (w_db w))" for j q
    by (simp add: stream_rows_def rows conj_commute)
  ultimately show ?thesis
    using same by (auto simp: archive_of_def stream_rows_def)
qed

subsection \<open>Handlers that leave the archive alone\<close>

definition same_audio :: "'s world \<Rightarrow> 's world \<Rightarrow> bool" where
  "same_audio w w' \<longleftrightarrow> t_chunks (w_db w') = t_chunks (w_db w) \<and> w_store w' = w_store w"

lemma same_audio_archive:
  assumes "same_audio w w'"
  shows "archive_of contents w' = archive_of contents w"
    and "audio_present contents w' = audio_present contents w"
  using assms by (simp_all add: same_audio_def archive_of_def audio_present_def stream_rows_def)

interpretation audio: chunk_relation same_audio
  by unfold_locales (simp_all add: same_audio_def)

subsection \<open>Uploads\<close>

lemma upload_added:
  assumes store: "object_store (st_store st) contents"
    and pres: "audio_present contents w" and inv: "service_inv (w_db w)" and own: "own_prefixes (w_db w)"
    and up: "upload_new st ev svc i p h body (w_db w) w = (Inr u, w')"
  shows "\<exists>b. body = Inr b \<and> \<not> ur_deduplicated u \<and>
    ur_seq u = int (length (archive_of contents w i p)) \<and> audio_present contents w' \<and>
    archive_of contents w' = add_chunk i p b (archive_of contents w)"
proof -
  from up obtain s b where s: "find_session i (w_db w) = Some s" and body: "body = Inr b"
    and p: "chunk_pid_ok p" and u: "ur_seq u = next_seq i p (w_db w)" "\<not> ur_deduplicated u"
      "ur_s3_key u = chunk_s3_key (ses_s3_prefix s) p (next_seq i p (w_db w))"
    and put: "contents (w_store w') = (contents (w_store w))(ur_s3_key u \<mapsto> b)"
    unfolding upload_new_eq_Inr by (auto dest: object_store.put_contents [OF store])
  from upload_new_row [OF up] obtain c where
    c: "t_chunks (w_db w') = t_chunks (w_db w) @ [c]" "ch_session_id c = i" "ch_pseudo_id c = p"
      "ch_s3_key c = ur_s3_key u" "ch_size_bytes c = int (length b)"
    by (auto simp: body in_stream_def)
  have "ch_s3_key c' \<noteq> ur_s3_key u" if "c' \<in> set (t_chunks (w_db w))" for c'
    using key_fresh [OF inv own s p that] u(3) by simp
  from archive_added [OF pres c put this] body u(1,2) show ?thesis
    by (simp add: archive_of_def next_seq_gapless [OF service_invD(3) [OF inv]])
qed

lemma upload_failed:
  assumes store: "object_store (st_store st) contents"
    and pres: "audio_present contents w" and inv: "service_inv (w_db w)" and own: "own_prefixes (w_db w)"
    and up: "chunks_upload_route st ev rfc svc i raw hs body w = (Inl e, w')"
  shows "audio_present contents w' \<and> archive_of contents w' = archive_of contents w"
proof -
  have db: "w_db w' = w_db w" using upload_error_frame [OF up] by simp
  have kept: "contents (w_store w') (ch_s3_key c) = contents (w_store w) (ch_s3_key c)"
    if c: "c \<in> set (t_chunks (w_db w))" for c
  proof (rule ccontr)
    assume changed: "contents (w_store w') (ch_s3_key c) \<noteq> contents (w_store w) (ch_s3_key c)"
    with up obtain h e' where "upload_new st ev svc i (PseudoId raw) h body (w_db w) w = (Inl e', w')"
      unfolding chunks_upload_route_def by (auto simp: h_bind_eq_Inl split: option.splits)
    from upload_new_failed [OF store this changed] key_fresh [OF inv own _ _ c] show False
      by blast
  qed
  then show ?thesis using pres by (auto simp: audio_present_def archive_of_def db stream_rows_def fun_eq_iff)
qed

lemma upload_repeated:
  assumes inv: "service_inv d"
    and old: "chunks_lookup_by_client_id i p cid d = Some c"
  shows "0 \<le> ch_seq c \<and> ch_seq c < int (length (stream_rows i p d))"
proof -
  have "c \<in> set (t_chunks d)" "ch_session_id c = i" "ch_pseudo_id c = p"
    using old by (auto simp: chunks_lookup_by_client_id_def in_stream_def dest!: find_SomeD)
  with chunk_seq_range [OF inv] show ?thesis
    by (fastforce simp: next_seq_gapless [OF service_invD(3) [OF inv]])
qed

subsection \<open>Wipes and deletes\<close>

lemma swept_kept:
  assumes store: "object_store (st_store st) contents"
    and "w_store w' = (if keys = [] then w_store w
      else snd (os_delete_many (st_store st) keys (w_store w)))" and "k \<notin> set keys"
  shows "contents (w_store w') k = contents (w_store w) k"
  using assms(2,3) object_store.delete_frame [OF store, of keys "w_store w"]
  by (metis surjective_pairing)

lemma archive_cleared:
  assumes store: "object_store (st_store st) contents"
    and inv: "service_inv (w_db w)" and own: "own_prefixes (w_db w)" and pres: "audio_present contents w"
    and wiped: "speaker_wiped st ev i p now w w'"
  shows "audio_present contents w' \<and>
    archive_of contents w' = clear_stream i p (archive_of contents w)"
proof -
  have rows: "t_chunks (w_db w') = filter (\<lambda>c. \<not> in_stream i p c) (t_chunks (w_db w))"
    by (rule speaker_wiped_tables(1) [OF wiped])
  have "contents (w_store w') k = contents (w_store w) k"
    if "k \<notin> ch_s3_key ` {c \<in> set (t_chunks (w_db w)). in_stream i p c}" for k
    using wiped that
    by (intro swept_kept [OF store, where keys = "stream_keys i p (w_db w)"])
      (auto simp: speaker_wiped_def stream_keys_def stream_rows_def)
  from archive_deleted [OF inv own pres rows this] have pres': "audio_present contents w'"
    and arch: "\<And>j q. archive_of contents w' j q = map (\<lambda>c. the (contents (w_store w) (ch_s3_key c)))
       (filter (\<lambda>c. \<not> in_stream i p c) (stream_rows j q (w_db w)))" by auto
  have "filter (\<lambda>c. \<not> in_stream i p c) (stream_rows j q (w_db w)) =
      (if j = i \<and> q = p then [] else stream_rows j q (w_db w))" for j q
    by (auto simp: stream_rows_def in_stream_def filter_empty_conv intro!: filter_cong)
  with pres' arch show ?thesis
    by (auto simp: clear_stream_def fun_eq_iff archive_of_def)
qed

lemma archive_dropped:
  assumes store: "object_store (st_store st) contents"
    and inv: "service_inv (w_db w)" and own: "own_prefixes (w_db w)" and pres: "audio_present contents w"
    and run: "delete_cascade_route st ev svc i w = (Inr j, w')"
  shows "audio_present contents w' \<and> archive_of contents w' = drop_session i (archive_of contents w)"
proof -
  from run have rows: "t_chunks (w_db w') = filter (\<lambda>c. \<not> ch_session_id c = i) (t_chunks (w_db w))"
    and swept: "w_store w' = (if session_keys i (w_db w) = [] then w_store w
      else snd (os_delete_many (st_store st) (session_keys i (w_db w)) (w_store w)))"
    by (auto simp: delete_cascade_route_def h_bind_eq_Inr run_tx_eq_Inr sweep_keys_eq
        delete_cascade_tx_eq_Inr wiped_session_def delete_rows_def)
  have "contents (w_store w') k = contents (w_store w) k"
    if "k \<notin> ch_s3_key ` {c \<in> set (t_chunks (w_db w)). ch_session_id c = i}" for k
    using that by (intro swept_kept [OF store swept]) (auto simp: session_keys_def)
  from archive_deleted [OF inv own pres rows this] have pres': "audio_present contents w'"
    and arch: "\<And>j q. archive_of contents w' j q = map (\<lambda>c. the (contents (w_store w) (ch_s3_key c)))
       (filter (\<lambda>c. \<not> ch_session_id c = i) (stream_rows j q (w_db w)))" by auto
  have "filter (\<lambda>c. \<not> ch_session_id c = i) (stream_rows j q (w_db w)) =
      (if j = i then [] else stream_rows j q (w_db w))" for j q
    by (auto simp: stream_rows_def in_stream_def filter_empty_conv intro!: filter_cong)
  with pres' arch show ?thesis
    by (auto simp: drop_session_def fun_eq_iff archive_of_def)
qed

text \<open>A wipe or a delete that is answered with an error has not touched any audio.\<close>

lemma delete_failed:
  "delete_cascade_route st ev svc i w = (Inl e, w') \<Longrightarrow> same_audio w w'"
  by (auto simp: delete_cascade_route_def h_bind_eq_Inl run_tx_def sweep_keys_eq same_audio_def
      split: sum.splits)

lemma no_session_no_audio:
  assumes inv: "service_inv d" and none: "find_session i d = None"
  shows "stream_rows i p d = []"
proof -
  have "\<not> in_stream i p c" if c: "c \<in> set (t_chunks d)" for c
    by (rule chunk_session [OF inv c]) (use none in \<open>auto simp: in_stream_def\<close>)
  then show ?thesis by (auto simp: stream_rows_def filter_empty_conv)
qed

lemma wipe_failed:
  assumes inv: "service_inv (w_db w)"
    and run: "wipe_participant_audio_route st ev svc i raw w = (Inl e, w')"
  shows "same_audio w w'"
proof (cases "w' = w")
  case False
  let ?p = "PseudoId raw"
  from run False obtain keys segs mutes d where
    tx: "wipe_tx (ev_db_now ev 0) (ev_audit_id ev 0) svc i ?p (w_db w) = Inr ((keys, segs, mutes), d)"
    and none: "find_session i d = None" and w': "w_db w' = marked_wiped (ev_db_now ev 1) i ?p d"
      "w_store w' = (if keys = [] then w_store w
         else snd (os_delete_many (st_store st) keys (w_store w)))"
    by (auto simp: wipe_participant_audio_route_def h_bind_eq_Inl run_tx_eq_Inr run_tx_eq_Inl
        sweep_keys_world mark_wiped_apply guild_id_for_session_def ok_or_eq_Inl cong: if_cong)
  from tx none have "find_session i (w_db w) = None" by (auto simp: wipe_tx_eq_Inr)
  with no_session_no_audio [OF inv] have "stream_rows i ?p (w_db w) = []" by blast
  with tx show ?thesis
    by (auto simp: same_audio_def w' wipe_tx_eq_Inr stream_keys_def marked_wiped_def
        wiped_participant_def delete_rows_def stream_rows_def filter_empty_conv filter_id_conv)
qed (simp add: same_audio_def)

lemma token_wipe_failed:
  assumes run: "delete_audio_token_route st ev tok w = (Inl e, w')"
  shows "same_audio w w'"
proof (cases "w' = w")
  case False
  from run False obtain cx keys d where
    cx: "consent_tokens_validate (ev_db_now ev 0) tok (w_db w) = Inr (Some cx)"
    and tx: "token_wipe_tx (ev_db_now ev 1) (ev_audit_id ev 0) (ses_id (cx_session cx))
      (par_pseudo_id (cx_participant cx)) (w_db w) = Inr (keys, d)"
    and none: "find_session (ses_id (cx_session cx)) d = None"
    by (auto simp: delete_audio_token_route_def Let_def validated_def h_bind_eq_Inl h_bind_eq_Inr
        run_tx_eq_Inr run_tx_eq_Inl sweep_keys_world mark_wiped_apply fetch_one_def ok_or_eq_Inl)
  from tx none have "find_session (ses_id (cx_session cx)) (w_db w) = None"
    by (auto simp: token_wipe_tx_eq_Inr)
  with find_session_SomeD [OF validate_SomeD(4) [OF cx]] validate_SomeD(4) [OF cx]
  show ?thesis by simp
qed (simp add: same_audio_def)

subsection \<open>Reads\<close>

lemma archive_listed:
  assumes inv: "service_inv (w_db w)" and pres: "audio_present contents w"
    and run: "chunks_list_route i raw w = (Inr cs, w')"
  shows "w' = w \<and> map ch_seq cs = map int [0..<length (archive_of contents w i (PseudoId raw))] \<and>
    map ch_size_bytes cs = map (\<lambda>b. int (length b)) (archive_of contents w i (PseudoId raw))"
proof -
  let ?rows = "stream_rows i (PseudoId raw) (w_db w)"
  have seqs: "map ch_seq ?rows = map int [0..<length ?rows]"
    using streams_gaplessD [OF service_invD(3) [OF inv] stream_rows_def [symmetric]] .
  then have "sorted (map ch_seq ?rows)" by (simp add: sorted_map)
  then have "cs = ?rows \<and> w' = w"
    using run by (auto simp: chunks_list_route_def h_bind_eq_Inr chunks_list_def sort_key_id_if_sorted)
  moreover have "map ch_size_bytes ?rows = map (\<lambda>b. int (length b)) (archive_of contents w i (PseudoId raw))"
    using pres by (fastforce simp: archive_of_def audio_present_def stream_rows_def)
  ultimately show ?thesis using seqs by (simp add: archive_of_def)
qed

lemma archive_downloaded:
  assumes store: "object_store (st_store st) contents"
    and inv: "service_inv (w_db w)" and run: "chunks_download_route st ev i raw n w = (Inr b, w')"
  shows "same_audio w w' \<and> (\<exists>k. n = int k \<and> k < length (archive_of contents w i (PseudoId raw)) \<and>
    b = archive_of contents w i (PseudoId raw) ! k)"
proof -
  let ?rows = "stream_rows i (PseudoId raw) (w_db w)"
  from run obtain c where get: "chunks_get i (PseudoId raw) n (w_db w) = Inr c"
    and b: "os_get (st_store st) (ch_s3_key c) (w_store w) = Inr b" and same: "same_audio w w'"
    by (auto simp: chunks_download_route_def h_bind_eq_Inr same_audio_def)
  from get have "c \<in> set ?rows" and n: "ch_seq c = n"
    by (auto simp: chunks_get_def stream_rows_def dest!: find_SomeD)
  then obtain k where k: "k < length ?rows" "c = ?rows ! k" by (auto simp: in_set_conv_nth)
  have "map ch_seq ?rows = map int [0..<length ?rows]"
    using streams_gaplessD [OF service_invD(3) [OF inv] stream_rows_def [symmetric]] .
  then have "map ch_seq ?rows ! k = map int [0..<length ?rows] ! k" by simp
  with k have "ch_seq c = int k" by simp
  with n k same object_store.get_contents [OF store b] show ?thesis by (auto simp: archive_of_def)
qed

subsection \<open>Every request\<close>

text \<open>The answer of a handler as the client sees it.\<close>

definition answered :: "app_error + reply \<Rightarrow> response + reply" where
  "answered x = (case x of Inl e \<Rightarrow> Inl (app_error_response e) | Inr y \<Rightarrow> Inr y)"

lemma answered_simps [simp]:
  "answered (Inl e) = Inl (app_error_response e)" "answered (Inr y) = Inr y"
  by (simp_all add: answered_def)

lemma respond_answered:
  "respond m w = (r, w') \<longleftrightarrow> (\<exists>x. m w = (x, w') \<and> r = answered x)"
  by (auto simp: respond_def split: prod.splits sum.splits)

lemma answer_same:
  assumes "same_audio w w'" and "audio_present contents w"
    and "archive_answer whose e r (archive_of contents w) (archive_of contents w)"
  shows "audio_present contents w' \<and> archive_answer whose e r (archive_of contents w) (archive_of contents w')"
  using assms same_audio_archive by metis

text \<open>A request as a step of the specification.\<close>

abbreviation archive_step ::
    "('s \<Rightarrow> string \<rightharpoonup> bytes) \<Rightarrow> endpoint \<Rightarrow> response + reply \<Rightarrow> 's world \<Rightarrow> 's world \<Rightarrow> bool" where
  "archive_step contents e r w w' \<equiv>
     archive_answer (token_stream (w_db w)) e r (archive_of contents w) (archive_of contents w')"

text \<open>What a request finds: a lawful store and a state in which rows and objects agree.\<close>

definition archive_ready :: "'s deployment \<Rightarrow> ('s \<Rightarrow> string \<rightharpoonup> bytes) \<Rightarrow> 's world \<Rightarrow> bool" where
  "archive_ready dp contents w \<longleftrightarrow> object_store (st_store (dp_state dp)) contents \<and>
     service_inv (w_db w) \<and> own_prefixes (w_db w) \<and> audio_present contents w"

lemma upload_answer:
  assumes ready: "archive_ready dp contents w"
    and run: "handle dp ev tok svc h (ChunksUpload i p b) w = (x, w')"
  shows "audio_present contents w' \<and>
    archive_step contents (ChunksUpload i p b) (answered x) w w'"
proof -
  have store: "object_store (st_store (dp_state dp)) contents" and inv: "service_inv (w_db w)"
    and own: "own_prefixes (w_db w)" and pres: "audio_present contents w"
    using ready by (simp_all add: archive_ready_def)
  obtain q where up: "chunks_upload_route (dp_state dp) ev (dp_rfc3339 dp) svc i p h b w = (q, w')"
    and x: "x = (case q of Inl e \<Rightarrow> Inl e | Inr u \<Rightarrow> Inr (RUpload u))"
    using run by (auto simp: handle_def h_map_apply split: prod.splits sum.splits)
  show ?thesis
  proof (cases q)
    case (Inl e)
    with up upload_failed [OF store pres inv own] show ?thesis
      by (simp add: x archive_answer.failed)
  next
    case (Inr u)
    with up obtain hd where hd:
      "case chunks_lookup_by_client_id i (PseudoId p) (hd_client_chunk_id hd) (w_db w) of
         Some c \<Rightarrow> u = \<lparr>ur_seq = ch_seq c, ur_s3_key = ch_s3_key c, ur_deduplicated = True\<rparr> \<and> w' = w
       | None \<Rightarrow> upload_new (dp_state dp) ev svc i (PseudoId p) hd b (w_db w) w = (Inr u, w')"
      by (auto simp: chunks_upload_route_Inr)
    show ?thesis
    proof (cases "chunks_lookup_by_client_id i (PseudoId p) (hd_client_chunk_id hd) (w_db w)")
      case None
      with hd have "upload_new (dp_state dp) ev svc i (PseudoId p) hd b (w_db w) w = (Inr u, w')" by simp
      from upload_added [OF store pres inv own this] obtain a where
        "b = Inr a" "\<not> ur_deduplicated u"
        "ur_seq u = int (length (archive_of contents w i (PseudoId p)))" "audio_present contents w'"
        "archive_of contents w' = add_chunk i (PseudoId p) a (archive_of contents w)" by blast
      then show ?thesis by (simp add: x Inr archive_answer.uploaded)
    next
      case (Some c)
      with hd upload_repeated [OF inv Some] pres show ?thesis
        by (simp add: x Inr archive_answer.repeated archive_of_def)
    qed
  qed
qed

lemma removal_answer:
  assumes ready: "archive_ready dp contents w"
    and e: "e = AudioWipe i p \<or> e = ConsentDeleteAudio t \<or> e = SessionsDelete i"
    and run: "handle dp ev tok svc h e w = (x, w')"
  shows "audio_present contents w' \<and>
    archive_step contents e (answered x) w w'"
proof -
  have store: "object_store (st_store (dp_state dp)) contents" and inv: "service_inv (w_db w)"
    and own: "own_prefixes (w_db w)" and pres: "audio_present contents w"
    using ready by (simp_all add: archive_ready_def)
  show ?thesis
  proof (cases x)
    case (Inl err)
    with e run have "same_audio w w'"
      by (auto simp: handle_def h_map_apply intro: wipe_failed [OF inv] token_wipe_failed delete_failed
          split: prod.splits sum.splits)
    from answer_same [OF this pres archive_answer.failed] Inl show ?thesis by simp
  next
    case (Inr y)
    from e show ?thesis
    proof (elim disjE)
      assume e: "e = AudioWipe i p"
      with run Inr wipe_route_wipes obtain now where
        "speaker_wiped (dp_state dp) ev i (PseudoId p) now w w'"
        by (fastforce simp: handle_def h_map_apply split: prod.splits sum.splits)
      from archive_cleared [OF store inv own pres this] show ?thesis
        by (simp add: e Inr archive_answer.wiped)
    next
      assume e: "e = ConsentDeleteAudio t"
      with run Inr obtain u where "delete_audio_token_route (dp_state dp) ev t w = (Inr u, w')"
        by (auto simp: handle_def h_map_apply split: prod.splits sum.splits)
      from token_wipe_wipes [OF this] obtain cx where
        cx: "consent_tokens_validate (ev_db_now ev 0) t (w_db w) = Inr (Some cx)"
        and wiped: "speaker_wiped (dp_state dp) ev (ct_session_id (cx_token cx))
          (par_pseudo_id (cx_participant cx)) (ev_db_now ev 2) w w'" by blast
      from archive_cleared [OF store inv own pres wiped] show ?thesis
        by (simp add: e Inr archive_answer.token_wiped token_stream_valid [OF service_invD(1) [OF inv] cx])
    next
      assume e: "e = SessionsDelete i"
      with run Inr obtain j where "delete_cascade_route (dp_state dp) ev svc i w = (Inr j, w')"
        by (auto simp: handle_def h_map_apply split: prod.splits sum.splits)
      from archive_dropped [OF store inv own pres this] show ?thesis
        by (simp add: e Inr archive_answer.deleted)
  qed
  qed
qed

lemma read_answer:
  assumes ready: "archive_ready dp contents w"
    and e: "e = ChunksList i p \<or> e = ChunksDownload i p n"
    and run: "handle dp ev tok svc h e w = (x, w')"
  shows "audio_present contents w' \<and>
    archive_step contents e (answered x) w w'"
proof -
  have store: "object_store (st_store (dp_state dp)) contents" and inv: "service_inv (w_db w)"
    and own: "own_prefixes (w_db w)" and pres: "audio_present contents w"
    using ready by (simp_all add: archive_ready_def)
  have "along same_audio (handle dp ev tok svc h e)" using e audio.along_reading by auto
  then have same: "same_audio w w'" using run by (rule alongD)
  have "archive_step contents e (answered x) w w"
  proof (cases x)
    case (Inr y)
    from e show ?thesis
    proof
      assume e: "e = ChunksList i p"
      with run Inr archive_listed [OF inv pres] show ?thesis
        by (auto simp: handle_def h_map_apply intro!: archive_answer.listed split: prod.splits sum.splits)
    next
      assume e: "e = ChunksDownload i p n"
      with run Inr archive_downloaded [OF store inv] obtain b k where
        "y = RAudio b" "n = int k" "k < length (archive_of contents w i (PseudoId p))"
        "b = archive_of contents w i (PseudoId p) ! k"
        by (fastforce simp: handle_def h_map_apply split: prod.splits sum.splits)
      then show ?thesis by (simp add: e Inr archive_answer.downloaded)
    qed
  qed (simp add: archive_answer.failed)
  with same pres show ?thesis by (rule answer_same)
qed

lemma handle_answer:
  assumes ready: "archive_ready dp contents w"
    and run: "handle dp ev tok svc h e w = (x, w')"
  shows "audio_present contents w' \<and>
    archive_step contents e (answered x) w w'"
proof (cases "audio_endpoint e")
  case True
  then show ?thesis
    using upload_answer [OF ready] removal_answer [OF ready _ run] read_answer [OF ready _ run] run
    by (cases e) auto
next
  case False
  have "same_audio w w'" by (rule alongD [OF audio.along_unrelated [OF False] run])
  moreover have "archive_step contents e (answered x) w w"
    using False by (cases x) (simp_all add: archive_answer.failed archive_answer.unrelated)
  moreover have "audio_present contents w" using ready by (simp add: archive_ready_def)
  ultimately show ?thesis using answer_same by blast
qed

lemma serve_answer:
  assumes ready: "archive_ready dp contents w"
    and "serve dp ev tok rq w = (r, w')"
  shows "audio_present contents w' \<and>
    archive_step contents (rq_endpoint rq) r w w'"
  using assms handle_answer [OF ready]
  by (auto simp: serve_def respond_answered archive_ready_def archive_answer.failed
      split: if_splits sum.splits)

lemma archive_step_kept:
  assumes store: "object_store (st_store (dp_state dp)) contents"
    and inv: "archive_inv contents w" and own: "own_prefixes (w_db w')" and step: "service_step dp w w'"
  shows "archive_inv contents w'"
proof -
  have tx: "tx_run (w_db w) (w_db w')" by (rule service_step_run [OF step])
  have d: "service_inv (w_db w)" and pres: "audio_present contents w"
    using inv by (simp_all add: archive_inv_def)
  have "archive_ready dp contents w"
    using store pres d own_prefixes_before [OF tx d own] by (simp add: archive_ready_def)
  then have "audio_present contents w'"
    using step pres serve_answer alongD [OF audio.along_reaper] same_audio_archive(2)
    by (elim service_stepE) blast+
  then show ?thesis
    using plain.tx_run_keeps [OF tx] d by (simp add: archive_inv_def)
qed

lemma archive_run_kept:
  assumes run: "(service_step dp)\<^sup>*\<^sup>* w w'" and own: "own_prefixes (w_db w')"
    and store: "object_store (st_store (dp_state dp)) contents" and inv: "archive_inv contents w"
  shows "archive_inv contents w'"
  using run own
proof (induction rule: rtranclp_induct)
  case base
  show ?case by (rule inv)
next
  case (step u v)
  have tx: "tx_run (w_db w) (w_db u)"
    using step.hyps(1) by (induction rule: rtranclp_induct) (auto dest: service_step_run)
  have "service_inv (w_db u)"
    using plain.tx_run_keeps [OF tx] inv by (simp add: archive_inv_def)
  with own_prefixes_before [OF service_step_run [OF step.hyps(2)] _ step.prems] step.IH
  show ?case by (auto intro: archive_step_kept [OF store _ step.prems step.hyps(2)])
qed

lemma served_inv: "serve dp ev tok rq w = (r, w') \<Longrightarrow> service_inv (w_db w) \<Longrightarrow> service_inv (w_db w')"
  using plain.tx_run_keeps [OF serve_run] by simp

lemma serve_refines:
  assumes "object_store (st_store (dp_state dp)) contents" and "archive_inv contents w"
    and "own_prefixes (w_db w)" and run: "serve dp ev tok rq w = (r, w')"
  shows "archive_inv contents w'" and "archive_step contents (rq_endpoint rq) r w w'"
proof -
  have "archive_ready dp contents w" using assms(1-3) by (simp add: archive_ready_def archive_inv_def)
  from serve_answer [OF this run] served_inv [OF run] assms(2)
  show "archive_inv contents w'" and "archive_step contents (rq_endpoint rq) r w w'"
    by (simp_all add: archive_inv_def)
qed


text \<open>A speaker with one recording, in the database and in the store.\<close>

definition sample_archive :: "mem_objects world" where
  "sample_archive = (sample_world sample_speaker_db)\<lparr>
     w_store := [chunk_s3_key ''sessions/1'' sample_pid 0 \<mapsto> [1, 2, 3]]\<rparr>"

lemma sample_archive_inv: "archive_inv (\<lambda>s. s) sample_archive"
  using sample_speaker_inv
  by (simp add: archive_inv_def audio_present_def sample_archive_def sample_world_def
      sample_speaker_db_def sample_chunk_def sample_db_def)


lemma sample_archive_store: "object_store (st_store (dp_state sample_deployment)) (\<lambda>s. s)"
  using sample_store by (simp add: sample_deployment_def)


text \<open>C11. From the first start on, along any run of requests and reaper ticks, every row of the chunks
  table has its object in the store, with exactly as many bytes as the row says, and no two rows
  share one (as long as the clients give every session a prefix of its own).\<close>

theorem stored_audio_kept:
  assumes store: "object_store (st_store (dp_state dp)) contents"
    and start: "w0 = world_init s \<or> archive_inv contents w0"
    and run: "(service_step dp)\<^sup>*\<^sup>* w0 w" and own: "own_prefixes (w_db w)"
    and c: "c \<in> set (t_chunks (w_db w))"
  shows "(\<exists>b. contents (w_store w) (ch_s3_key c) = Some b \<and> ch_size_bytes c = int (length b)) \<and>
    (\<forall>c' \<in> set (t_chunks (w_db w)). ch_s3_key c' = ch_s3_key c \<longrightarrow> c' = c)"
proof -
  have "archive_inv contents w0"
    using start service_inv_empty
    by (auto simp: archive_inv_def audio_present_def world_init_def empty_db_def)
  from archive_run_kept [OF run own store this] have "service_inv (w_db w)" "audio_present contents w"
    by (simp_all add: archive_inv_def)
  with keys_unshared [OF _ own] c show ?thesis by (auto simp: audio_present_def)
qed

lemma reaper_sessions:
  "reaper_tick now win w = (r, w') \<Longrightarrow> t_sessions (w_db w') = t_sessions (w_db w)"
  using leavesD [OF side_weaken(3) [OF service_side(3)], of now win "w_db w"]
  by (auto simp: reaper_tick_def best_effort_def run_tx_def sessions_same_def split: sum.splits prod.splits)

theorem stored_audio_kept_witness:
  "\<exists>r w'. reaper_tick 1000 (st_heartbeat_reap (dp_state sample_deployment)) sample_archive = (r, w') \<and>
    t_chunks (w_db w') = [sample_chunk] \<and> w_store w' (ch_s3_key sample_chunk) = Some [1, 2, 3] \<and>
    (\<exists>b. w_store w' (ch_s3_key sample_chunk) = Some b \<and> ch_size_bytes sample_chunk = int (length b))"
proof -
  let ?win = "st_heartbeat_reap (dp_state sample_deployment)"
  obtain r w' where tick: "reaper_tick 1000 ?win sample_archive = (r, w')" by fastforce
  then have run: "(service_step sample_deployment)\<^sup>*\<^sup>* sample_archive w'"
    by (blast intro: service_step.reap)
  have "same_audio sample_archive w'" by (rule alongD [OF audio.along_reaper tick])
  then have chunks: "t_chunks (w_db w') = [sample_chunk]" "w_store w' = w_store sample_archive"
    by (simp_all add: same_audio_def sample_archive_def sample_world_def sample_speaker_db_def)
  have own: "own_prefixes (w_db w')"
    by (simp add: own_prefixes_def reaper_sessions [OF tick] sample_archive_def sample_world_def sample_speaker_db_def sample_db_def)
  have "sample_chunk \<in> set (t_chunks (w_db w'))" by (simp add: chunks)
  from stored_audio_kept [OF sample_archive_store disjI2 [OF sample_archive_inv] run own this] tick chunks
  show ?thesis by (auto simp: sample_archive_def sample_chunk_def)
qed

subsection \<open>What a client can rely on\<close>

text \<open>From here on the specification is enough.\<close>

inductive_cases answer_uploadE: "archive_answer whose (ChunksUpload i p body) (Inr y) a a'"
inductive_cases answer_downloadE: "archive_answer whose (ChunksDownload i p n) (Inr y) a a'"

text \<open>The requests that take recordings of a speaker away; of the token wipes only those with a token
  of that speaker.\<close>

fun removes :: "(uuid \<Rightarrow> (uuid \<times> pseudo_id) option) \<Rightarrow> uuid \<Rightarrow> pseudo_id \<Rightarrow> endpoint \<Rightarrow> bool" where
  "removes whose i p (AudioWipe j q) \<longleftrightarrow> j = i \<and> PseudoId q = p"
| "removes whose i p (ConsentDeleteAudio t) \<longleftrightarrow> whose t = Some (i, p)"
| "removes whose i p (SessionsDelete j) \<longleftrightarrow> j = i"
| "removes whose i p _ \<longleftrightarrow> False"

lemma answer_keeps:
  assumes "archive_answer whose e r a a'" and "\<not> removes whose i p e"
  shows "\<exists>bs. a' i p = a i p @ bs"
  using assms by (cases rule: archive_answer.cases)
    (auto simp: add_chunk_def clear_stream_def drop_session_def)

text \<open>Any number of requests, with any clocks and tokens, that take none of the recordings of one
  speaker away.\<close>

inductive serves_sparing :: "'s deployment \<Rightarrow> uuid \<Rightarrow> pseudo_id \<Rightarrow> 's world \<Rightarrow> 's world \<Rightarrow> bool"
  for dp :: "'s deployment" and i p where
  none: "serves_sparing dp i p w w"
| one: "serve dp ev tok rq u = (r, v) \<Longrightarrow> \<not> removes (token_stream (w_db u)) i p (rq_endpoint rq) \<Longrightarrow>
    serves_sparing dp i p v w \<Longrightarrow> serves_sparing dp i p u w"

lemma serves_run: "serves_sparing dp i p w w' \<Longrightarrow> tx_run (w_db w) (w_db w')"
  by (induction rule: serves_sparing.induct) (auto dest: serve_run intro: rtranclp_trans)

lemma serves_keep:
  assumes "serves_sparing dp i p w w'"
    and "object_store (st_store (dp_state dp)) contents" and "archive_inv contents w"
    and "own_prefixes (w_db w')"
  shows "archive_inv contents w' \<and> (\<exists>bs. archive_of contents w' i p = archive_of contents w i p @ bs)"
  using assms
proof (induction rule: serves_sparing.induct)
  case (one ev tok rq u r v w)
  have inv: "service_inv (w_db u)" using one.prems(2) by (simp add: archive_inv_def)
  have own: "own_prefixes (w_db u)"
    by (rule own_prefixes_before [OF rtranclp_trans [OF serve_run [OF one.hyps(1)]
          serves_run [OF one.hyps(3)]] inv one.prems(3)])
  from serve_refines [OF one.prems(1,2) own one.hyps(1)]
  have "archive_inv contents v" and "archive_step contents (rq_endpoint rq) r u v" .
  moreover from this(2) obtain bs where "archive_of contents v i p = archive_of contents u i p @ bs"
    using answer_keeps [OF _ one.hyps(2)] by blast
  ultimately show ?case using one.IH one.prems by auto
qed simp

text \<open>C10. Audio comes back as it was sent: after an upload has been answered as new, any number of
  requests follow, one after another, that neither wipe this speaker in this session nor delete the
  session (other uploads of the same stream, and wipes of other speakers by either route, included);
  a download of the reported number that is answered with audio then yields exactly the uploaded
  bytes. This holds if rows and objects agreed at the start, and as long as the clients have given
  every session a storage prefix of its own, which the service does not check: an upload to another
  session with the same prefix would overwrite the bytes.\<close>

theorem upload_comes_back:
  assumes store: "object_store (st_store (dp_state dp)) contents"
    and inv: "archive_inv contents w0" and own: "own_prefixes (w_db w3)"
    and up: "serve dp ev tok \<lparr>rq_headers = h, rq_endpoint = ChunksUpload i p body\<rparr> w0 =
      (Inr (RUpload u), w1)" and new: "\<not> ur_deduplicated u"
    and mid: "serves_sparing dp i (PseudoId p) w1 w2"
    and down: "serve dp ev' tok' \<lparr>rq_headers = h', rq_endpoint = ChunksDownload i p (ur_seq u)\<rparr> w2 =
      (Inr (RAudio b), w3)"
  shows "body = Inr b"
proof -
  let ?a = "\<lambda>w. archive_of contents w i (PseudoId p)"
  have inv0: "service_inv (w_db w0)" using inv by (simp add: archive_inv_def)
  have inv1: "service_inv (w_db w1)" by (rule served_inv [OF up inv0])
  have inv2: "service_inv (w_db w2)"
    using plain.tx_run_keeps [OF serves_run [OF mid]] inv1 by simp
  have own2: "own_prefixes (w_db w2)" by (rule own_prefixes_before [OF serve_run [OF down] inv2 own])
  have own1: "own_prefixes (w_db w1)" by (rule own_prefixes_before [OF serves_run [OF mid] inv1 own2])
  have own0: "own_prefixes (w_db w0)" by (rule own_prefixes_before [OF serve_run [OF up] inv0 own1])
  from serve_refines [OF store inv own0 up] obtain b' where arch1: "archive_inv contents w1"
    and body: "body = Inr b'" and seq: "ur_seq u = int (length (?a w0))" and one: "?a w1 = ?a w0 @ [b']"
    using new by (auto simp: add_chunk_def elim: answer_uploadE)
  obtain bs where arch2: "archive_inv contents w2" and two: "?a w2 = ?a w1 @ bs"
    using serves_keep [OF mid store arch1 own2] by blast
  from serve_refines [OF store arch2 own2 down] have "b = ?a w2 ! length (?a w0)"
    by (auto simp: seq elim: answer_downloadE)
  then show ?thesis by (simp add: body one two)
qed

definition audio_deployment :: "mem_objects deployment" where
  "audio_deployment = sample_deployment\<lparr>dp_rfc3339 := sample_rfc3339\<rparr>"

definition live_headers :: headers where
  "live_headers = sample_headers(''authorization'' \<mapsto> ''Bearer tok'')"

lemma parse_chunk_headers_other:
  assumes "k \<notin> {''x-capture-started-at'', ''x-duration-ms'', ''x-client-chunk-id''}"
  shows "parse_chunk_headers rfc (h(k \<mapsto> v)) = parse_chunk_headers rfc h"
proof -
  have "required_header (h(k \<mapsto> v)) n t = required_header h n t" if "k \<noteq> n" for n t
    using that by (simp add: required_header_def)
  then show ?thesis using assms by (simp add: parse_chunk_headers_def cong: if_cong)
qed

lemma live_serve:
  assumes "t_service_sessions (w_db w) = t_service_sessions live_db"
  shows "serve audio_deployment sample_env tok \<lparr>rq_headers = live_headers, rq_endpoint = e\<rparr> w =
    respond (handle audio_deployment sample_env tok (if unprotected e then '''' else ''bot'')
      live_headers e) w"
proof -
  have "require_service_auth 90 90 (\<lambda>t. t) live_headers (w_db w) = Inr ''bot''"
    by (rule live_auth) (simp_all add: live_headers_def assms)
  then show ?thesis
    by (simp add: serve_def audio_deployment_def sample_deployment_def sample_state_def sample_env_def)
qed

theorem upload_comes_back_witness:
  "\<exists>u w1 b w2. serve audio_deployment sample_env ''x'' \<lparr>rq_headers = live_headers,
      rq_endpoint = ChunksUpload 1 (pid_str sample_pid) (Inr [1, 2, 3])\<rparr> (sample_world live_db) =
      (Inr (RUpload u), w1) \<and>
    serve audio_deployment sample_env ''x'' \<lparr>rq_headers = live_headers,
      rq_endpoint = ChunksDownload 1 (pid_str sample_pid) (ur_seq u)\<rparr> w1 = (Inr (RAudio b), w2) \<and>
    (Inr [1, 2, 3] :: request_body) = Inr b"
proof -
  let ?w = "sample_world live_db" and ?p = "pid_str sample_pid" and ?dp = audio_deployment
  have pid: "PseudoId ?p = sample_pid" "is_valid_pseudo_id ?p" by (simp_all add: sample_pid_def)
  have h: "parse_chunk_headers (dp_rfc3339 ?dp) live_headers =
      Inr \<lparr>hd_capture_started_at = 12, hd_duration_ms = 2000, hd_client_chunk_id = ''c1''\<rparr>"
    using sample_headers_parse
      parse_chunk_headers_other [of "''authorization''" sample_rfc3339 sample_headers]
    by (simp add: live_headers_def audio_deployment_def)
  have s: "find_session 1 (w_db ?w) = Some (sample_session Recording)"
    and none: "t_chunks (w_db ?w) = []"
    by (simp_all add: live_db_def sample_defs find_session_def)
  obtain u w1 where up: "chunks_upload_route (dp_state ?dp) sample_env (dp_rfc3339 ?dp) ''bot'' 1 ?p
      live_headers (Inr [1, 2, 3]) ?w = (Inr u, w1)"
    using sample_upload_into [OF s none _ _ h, of sample_env "dp_state ?dp" "''bot''"]
    by (auto simp: live_db_def sample_defs audio_deployment_def sample_deployment_def)
  then have served: "serve ?dp sample_env ''x'' \<lparr>rq_headers = live_headers,
      rq_endpoint = ChunksUpload 1 ?p (Inr [1, 2, 3])\<rparr> ?w = (Inr (RUpload u), w1)"
    by (simp add: live_serve sample_world_def handle_def respond_def h_map_apply)
  have "chunks_lookup_by_client_id 1 sample_pid cid (w_db ?w) = None" for cid
    by (simp add: chunks_lookup_by_client_id_def none)
  with up h have new: "upload_new (dp_state ?dp) sample_env ''bot'' 1 sample_pid
      \<lparr>hd_capture_started_at = 12, hd_duration_ms = 2000, hd_client_chunk_id = ''c1''\<rparr>
      (Inr [1, 2, 3]) (w_db ?w) ?w = (Inr u, w1)"
    by (auto simp: chunks_upload_route_Inr pid)
  from upload_new_row [OF new] none obtain c where c: "t_chunks (w_db w1) = [c]"
    "in_stream 1 sample_pid c" "ch_seq c = ur_seq u" "ch_s3_key c = ur_s3_key u" by auto
  from new have dedup: "\<not> ur_deduplicated u" and stored: "w_store w1 (ur_s3_key u) = Some [1, 2, 3]"
    and tables: "t_sessions (w_db w1) = t_sessions live_db"
      "t_service_sessions (w_db w1) = t_service_sessions live_db"
    unfolding upload_new_eq_Inr
    by (auto simp: upload_inserts_def sample_world_def audio_deployment_def sample_deployment_def
        sample_state_def mem_store_def mem_put_def)
  define w2 where "w2 = snd (chunks_download_route (dp_state ?dp) sample_env 1 ?p (ur_seq u) w1)"
  have "chunks_download_route (dp_state ?dp) sample_env 1 ?p (ur_seq u) w1 = (Inr [1, 2, 3], w2)"
    using c stored pid by (simp add: w2_def chunks_download_route_def h_bind_def
        pseudo_id_new_or_mixed_def chunks_get_def ok_or_def audio_deployment_def
        sample_deployment_def sample_state_def mem_store_def mem_get_def)
  moreover from this have "w_db w2 = w_db w1"
    by (auto simp: chunks_download_route_def h_bind_eq_Inr)
  ultimately have down: "serve ?dp sample_env ''x'' \<lparr>rq_headers = live_headers,
      rq_endpoint = ChunksDownload 1 ?p (ur_seq u)\<rparr> w1 = (Inr (RAudio [1, 2, 3]), w2)"
    and own: "own_prefixes (w_db w2)"
    by (simp_all add: live_serve tables handle_def respond_def h_map_apply own_prefixes_def
        live_db_def sample_db_def)
  have store: "object_store (st_store (dp_state ?dp)) (\<lambda>s. s)"
    using sample_archive_store by (simp add: audio_deployment_def)
  have "facts_inv live_db"
    using sample_inv [of Recording] facts_inv_cong [of "sample_db Recording" live_db]
    by (simp add: service_inv_def live_db_def same_facts_def)
  moreover have "db_wf live_db"
    unfolding live_db_def by (rule db_wf_leaf_tables(9) [OF service_invD(1) [OF sample_inv]])
      (simp add: service_sessions_wf_def)
  ultimately have "service_inv live_db" by (simp add: service_inv_def)
  then have inv: "archive_inv (\<lambda>s. s) ?w"
    using none by (simp add: archive_inv_def audio_present_def sample_world_def)
  from upload_comes_back [OF store inv own served dedup serves_sparing.none down] served down
  show ?thesis by auto
qed

end
