(* ===== verification/Chunk_Bounds.thy ===== *)
theory Chunk_Bounds
  imports Service_Properties Audio_Handlers Chunk_Properties Speaker_Properties
begin

section \<open>Bounds of the stored rows\<close>

text \<open>
  What the checks of an upload mean for the chunks table: sizes and durations are within their
  limits and never negative, so the conversion of the body's length to \<^verbatim>\<open>i32\<close> loses nothing, and no
  row has an empty client chunk id. Rows enter the table by uploads only and are never changed
  after, so this holds of every row.
\<close>

definition chunk_bounded :: "chunk_row \<Rightarrow> bool" where
  "chunk_bounded c \<longleftrightarrow> 0 \<le> ch_size_bytes c \<and> ch_size_bytes c \<le> int MAX_CHUNK_BYTES \<and>
     0 \<le> ch_duration_ms c \<and> in_int4 (ch_duration_ms c) \<and> ch_client_chunk_id c \<noteq> ''''"

lemma wrapped_error_Inr:
  "(case r of Inl e \<Rightarrow> Inl (f e) | Inr n \<Rightarrow> Inr n) = Inr y \<longleftrightarrow> r = Inr y"
  by (cases r) simp_all

lemma headers_bounded:
  assumes "parse_chunk_headers rfc h = Inr x"
  shows "0 \<le> hd_duration_ms x" "in_int4 (hd_duration_ms x)" "hd_client_chunk_id x \<noteq> ''''"
proof -
  from assms obtain raw where "parse_i32 raw = Inr (hd_duration_ms x)" and "0 \<le> hd_duration_ms x"
    and "hd_client_chunk_id x \<noteq> ''''"
    by (auto simp: parse_chunk_headers_def bind_res_eq_Inr wrapped_error_Inr split: if_splits)
  with parse_int_range [of "- (2 ^ 31)" "2 ^ 31 - 1" raw "hd_duration_ms x"]
  show "0 \<le> hd_duration_ms x" "in_int4 (hd_duration_ms x)" "hd_client_chunk_id x \<noteq> ''''"
    by (simp_all add: parse_i32_def in_int4_def)
qed

text \<open>Every row is an old one or within the bounds.\<close>

definition grown :: "'s world \<Rightarrow> 's world \<Rightarrow> bool" where
  "grown w w' \<longleftrightarrow> (\<forall>c \<in> set (t_chunks (w_db w')). c \<in> set (t_chunks (w_db w)) \<or> chunk_bounded c)"

interpretation grown: chunk_relation grown
  by unfold_locales (auto simp: grown_def)

interpretation grown: store_blind grown
  by unfold_locales (simp add: grown_def)

lemma grown_upload: "along grown (chunks_upload_route st ev rfc svc i raw hs body)"
proof (rule alongI)
  fix w r w' assume run: "chunks_upload_route st ev rfc svc i raw hs body w = (r, w')"
  show "grown w w'"
  proof (cases r)
    case (Inl e)
    with run upload_error_frame show ?thesis by (fastforce simp: grown_def)
  next
    case (Inr u)
    with run obtain h where h: "parse_chunk_headers rfc hs = Inr h"
      and new: "w' = w \<or> upload_new st ev svc i (PseudoId raw) h body (w_db w) w = (Inr u, w')"
      by (auto simp: chunks_upload_route_Inr split: option.splits)
    from new headers_bounded [OF h] show ?thesis
      by (auto simp: grown_def upload_new_eq_Inr upload_inserts_def chunk_bounded_def uploaded_row_def
          Let_def)
  qed
qed

lemma grown_removals:
  "along grown (run_tx (wipe_tx now aid svc i p))" "along grown (run_tx (token_wipe_tx now aid i p))"
  "along grown (run_tx (delete_cascade_tx now aid svc i))"
  by (auto intro!: grown.along_run_tx simp: grown_def wipe_tx_eq_Inr token_wipe_tx_eq_Inr
      delete_cascade_tx_eq_Inr wiped_participant_def wiped_session_def delete_rows_def)

lemma grown_wipes:
  "along grown (wipe_participant_audio_route st ev svc i raw)"
  "along grown (delete_audio_token_route st ev tok)" "along grown (delete_cascade_route st ev svc i)"
  unfolding wipe_participant_audio_route_def delete_audio_token_route_def delete_cascade_route_def
    Let_def
  by (auto intro!: grown.along_side_intros grown.along_store grown.along_emit grown_removals
      side_intros split: prod.splits)

lemma grown_handle: "along grown (handle dp ev tok svc h e)"
proof (cases "audio_endpoint e")
  case True
  then show ?thesis
    using grown.along_reads grown_upload grown_wipes
    by (cases e) (auto simp: handle_def intro!: grown.along_map)
qed (rule grown.along_unrelated)

lemma service_step_grown: "service_step dp w w' \<Longrightarrow> grown w w'"
proof (erule service_stepE)
  fix ev tok rq r assume "serve dp ev tok rq w = (r, w')"
  then show "grown w w'"
    using grown_handle unfolding along_def serve_def respond_def
    by (fastforce simp: grown_def split: if_splits sum.splits prod.splits)
qed (rule alongD [OF grown.along_reaper])

lemma service_run_grown: "(service_step dp)\<^sup>*\<^sup>* w w' \<Longrightarrow> grown w w'"
proof (induction rule: rtranclp_induct)
  case (step u v)
  then show ?case by (blast intro: grown.linked service_step_grown)
qed (simp add: grown_def)

text \<open>C14. Bounds of the chunks table: along any run of requests and reaper ticks from the first start
  on, every row has a size between 0 and the limit on uploads (so that it is the same number as a
  32-bit integer), a duration that is not negative and fits its column, a client chunk id that is
  not empty, and a number from 0 to below the count of its stream's rows.\<close>

theorem chunk_rows_bounded:
  assumes start: "w0 = world_init s \<or>
      service_inv (w_db w0) \<and> (\<forall>c \<in> set (t_chunks (w_db w0)). chunk_bounded c)"
    and run: "(service_step dp)\<^sup>*\<^sup>* w0 w" and c: "c \<in> set (t_chunks (w_db w))"
  shows "0 \<le> ch_size_bytes c \<and> ch_size_bytes c \<le> 3 * 1024 * 1024 \<and>
    sint (of_int (ch_size_bytes c) :: 32 word) = ch_size_bytes c \<and>
    0 \<le> ch_duration_ms c \<and> ch_duration_ms c < 2 ^ 31 \<and> ch_client_chunk_id c \<noteq> '''' \<and>
    0 \<le> ch_seq c \<and> ch_seq c < int (length (stream_rows (ch_session_id c) (ch_pseudo_id c) (w_db w)))"
proof -
  have tx: "tx_run (w_db w0) (w_db w)"
    using run by (induction rule: rtranclp_induct) (auto dest: service_step_run)
  have "service_inv (w_db w0)"
    using start service_inv_empty by (auto simp: world_init_def)
  then have inv: "service_inv (w_db w)"
    using plain.tx_run_keeps [OF tx] by simp
  have "chunk_bounded c"
    using service_run_grown [OF run] c start by (auto simp: grown_def world_init_def empty_db_def)
  moreover have "0 \<le> ch_seq c \<and>
      ch_seq c < int (length (stream_rows (ch_session_id c) (ch_pseudo_id c) (w_db w)))"
    using chunk_seq_range [OF inv c] by (simp add: next_seq_gapless [OF service_invD(3) [OF inv]])
  moreover have "sint (of_int (ch_size_bytes c) :: 32 word) = ch_size_bytes c"
    using \<open>chunk_bounded c\<close>
    by (simp add: chunk_bounded_def MAX_CHUNK_BYTES_def signed_of_int signed_take_bit_int_eq_self)
  ultimately show ?thesis
    by (simp add: chunk_bounded_def MAX_CHUNK_BYTES_def in_int4_def)
qed

theorem chunk_rows_bounded_witness:
  "\<exists>w'. service_step sample_deployment (sample_world sample_speaker_db) w' \<and>
    t_chunks (w_db w') = [sample_chunk] \<and> ch_seq sample_chunk < int (length (stream_rows 1 sample_pid (w_db w')))"
proof -
  let ?w = "sample_world sample_speaker_db" and ?win = "st_heartbeat_reap (dp_state sample_deployment)"
  obtain r w' where tick: "reaper_tick 1000 ?win ?w = (r, w')" by fastforce
  then have step: "service_step sample_deployment ?w w'" by (rule service_step.reap)
  have rows: "t_chunks (w_db w') = [sample_chunk]"
    using tick leavesD [OF side_weaken(2) [OF service_side(3)], of 1000 ?win "w_db ?w"]
    by (auto simp: reaper_tick_def best_effort_def run_tx_def chunks_same_def sample_world_def
        sample_speaker_db_def split: sum.splits prod.splits)
  have bounded: "service_inv (w_db ?w) \<and> (\<forall>c \<in> set (t_chunks (w_db ?w)). chunk_bounded c)"
    using sample_speaker_inv
    by (simp add: sample_world_def sample_speaker_db_def sample_chunk_def sample_db_def
        chunk_bounded_def MAX_CHUNK_BYTES_def in_int4_def)
  have "sample_chunk \<in> set (t_chunks (w_db w'))" by (simp add: rows)
  from chunk_rows_bounded [OF disjI2 [OF bounded] r_into_rtranclp [where r = "service_step sample_deployment", OF step] this]
    step rows show ?thesis by (auto simp: sample_chunk_def)
qed

end
