(* ===== verification/Unit_Tests.thy ===== *)
theory Unit_Tests
  imports Session_State Ids Ws_Filter Ws_Queue Db_Metadata
begin

section \<open>The unit tests of the program, on the model\<close>

text \<open>
  The \<^verbatim>\<open>#[test]\<close> functions of \<^verbatim>\<open>src\<close>, one boolean definition each: the conjunction of its assertions,
  in their order, over the model's definitions. A clock or a random id a test draws is a parameter.
  That each holds, for all values of its parameters, says that the model agrees with the program
  on what its authors wrote down as examples.
\<close>

subsection \<open>\<^verbatim>\<open>src/state.rs\<close>\<close>

definition all_statuses :: "session_status list" where
  "all_statuses = [Recording, Uploaded, Transcribing, TranscribingFailed, Transcribed, Abandoned,
     Deleted]"

definition happy_path_transitions :: bool where
  "happy_path_transitions \<longleftrightarrow> can_transition Recording Uploaded \<and>
     can_transition Uploaded Transcribing \<and> can_transition Transcribing Transcribed"

definition transcribing_self_transition_allowed :: bool where
  "transcribing_self_transition_allowed \<longleftrightarrow> can_transition Transcribing Transcribing"

definition error_retry_loop :: bool where
  "error_retry_loop \<longleftrightarrow> can_transition Transcribing TranscribingFailed \<and>
     can_transition TranscribingFailed Transcribing"

definition abandoned_is_pathological_via_patch :: bool where
  "abandoned_is_pathological_via_patch \<longleftrightarrow> \<not> can_transition Abandoned Recording"

definition deleted_is_terminal :: bool where
  "deleted_is_terminal \<longleftrightarrow> list_all (\<lambda>target. \<not> can_transition Deleted target) all_statuses"

definition no_self_transition_except_transcribing :: bool where
  "no_self_transition_except_transcribing \<longleftrightarrow>
     list_all (\<lambda>s. if s = Transcribing then True else \<not> can_transition s s) all_statuses"

definition every_state_reaches_deleted :: bool where
  "every_state_reaches_deleted \<longleftrightarrow>
     list_all (\<lambda>s. if s = Deleted then True else can_transition s Deleted) all_statuses"

lemma state_tests:
  happy_path_transitions transcribing_self_transition_allowed error_retry_loop
  abandoned_is_pathological_via_patch deleted_is_terminal no_self_transition_except_transcribing
  every_state_reaches_deleted
  by (simp_all add: happy_path_transitions_def transcribing_self_transition_allowed_def
      error_retry_loop_def abandoned_is_pathological_via_patch_def deleted_is_terminal_def
      no_self_transition_except_transcribing_def every_state_reaches_deleted_def all_statuses_def)

text \<open>The list the tests go through misses no status, so they check all of them.\<close>

lemma all_statuses_complete: "set all_statuses = UNIV"
proof -
  have "s \<in> set all_statuses" for s by (cases s) (simp_all add: all_statuses_def)
  then show ?thesis by blast
qed

subsection \<open>\<^verbatim>\<open>src/ids.rs\<close>\<close>

definition is_ok :: "'e + 'a \<Rightarrow> bool" where
  "is_ok r = (case r of Inl _ \<Rightarrow> False | Inr _ \<Rightarrow> True)"

definition is_err :: "'e + 'a \<Rightarrow> bool" where
  "is_err r = (case r of Inl _ \<Rightarrow> True | Inr _ \<Rightarrow> False)"

definition pseudo_id_valid_24_hex :: bool where
  "pseudo_id_valid_24_hex \<longleftrightarrow> is_ok (pseudo_id_new ''0123456789abcdef01234567'') \<and>
     is_ok (pseudo_id_new ''ffffffffffffffffffffffff'')"

definition pseudo_id_rejects_too_short :: bool where
  "pseudo_id_rejects_too_short \<longleftrightarrow> pseudo_id_new ''abc'' = Inl Invalid \<and>
     pseudo_id_new ''0123456789abcdef'' = Inl Invalid"

definition pseudo_id_rejects_too_long :: bool where
  "pseudo_id_rejects_too_long \<longleftrightarrow> pseudo_id_new ''0123456789abcdef0123456789'' = Inl Invalid"

definition pseudo_id_rejects_non_hex :: bool where
  "pseudo_id_rejects_non_hex \<longleftrightarrow> pseudo_id_new ''GGGGGGGGGGGGGGGGGGGGGGGG'' = Inl Invalid \<and>
     pseudo_id_new ''0123456789ABCDEF01234567'' = Inl Invalid"

definition pseudo_id_mixed_sentinel :: bool where
  "pseudo_id_mixed_sentinel \<longleftrightarrow> is_ok (pseudo_id_new_or_mixed ''mixed'') \<and>
     (case pseudo_id_new_or_mixed ''mixed'' of Inl _ \<Rightarrow> False | Inr p \<Rightarrow> is_mixed p) \<and>
     (case pseudo_id_new ''0123456789abcdef01234567'' of Inl _ \<Rightarrow> False | Inr p \<Rightarrow> \<not> is_mixed p)"

lemma ids_tests:
  pseudo_id_valid_24_hex pseudo_id_rejects_too_short pseudo_id_rejects_too_long
  pseudo_id_rejects_non_hex pseudo_id_mixed_sentinel
  by code_simp+

subsection \<open>\<^verbatim>\<open>src/routes/ws/filter.rs\<close>\<close>

definition sample_event_of :: "time \<Rightarrow> string \<Rightarrow> int \<Rightarrow> uuid \<Rightarrow> event option" where
  "sample_event_of now kind guild_id session_id =
     (if kind = ''chunk_uploaded'' then
        Some (ChunkUploaded now
          \<lparr>cu_session_id = session_id, cu_guild_id = guild_id,
           cu_pseudo_id = PseudoId ''0123456789abcdef01234567'', cu_seq = 1, cu_size_bytes = 10\<rparr>)
      else if kind = ''session_state_changed'' then
        Some (SessionStateChanged now
          \<lparr>ssc_session_id = session_id, ssc_guild_id = guild_id, ssc_old = Recording,
           ssc_new = Uploaded\<rparr>)
      else None)"

definition event_matches :: "subscription_set \<Rightarrow> event option \<Rightarrow> bool option" where
  "event_matches subs e = map_option (set_matches subs) e"

definition matches_by_event_name :: "time \<Rightarrow> uuid \<Rightarrow> bool" where
  "matches_by_event_name now sid \<longleftrightarrow>
     (let subs = subscribe [''chunk_uploaded''] filter_default subscription_set_new; guild = 1 in
      event_matches subs (sample_event_of now ''chunk_uploaded'' guild sid) = Some True \<and>
      event_matches subs (sample_event_of now ''session_state_changed'' guild sid) = Some False)"

definition filters_by_guild_id :: "time \<Rightarrow> uuid \<Rightarrow> bool" where
  "filters_by_guild_id now sid \<longleftrightarrow>
     (let subs = subscribe [''chunk_uploaded''] (filter_default\<lparr>fl_guild_id := Some 7\<rparr>)
        subscription_set_new in
      event_matches subs (sample_event_of now ''chunk_uploaded'' 7 sid) = Some True \<and>
      event_matches subs (sample_event_of now ''chunk_uploaded'' 8 sid) = Some False)"

definition unsubscribe_removes_all_with_event_name :: bool where
  "unsubscribe_removes_all_with_event_name \<longleftrightarrow>
     (let subs = subscribe [''chunk_uploaded''] (filter_default\<lparr>fl_guild_id := Some 1\<rparr>)
        subscription_set_new;
        subs = subscribe [''chunk_uploaded''] (filter_default\<lparr>fl_guild_id := Some 2\<rparr>) subs;
        subs = unsubscribe [''chunk_uploaded''] subs in
      active subs = {})"

lemma filter_tests:
  "matches_by_event_name now sid" "filters_by_guild_id now sid"
  unsubscribe_removes_all_with_event_name
  by (simp_all add: matches_by_event_name_def filters_by_guild_id_def
      unsubscribe_removes_all_with_event_name_def event_matches_def sample_event_of_def
      set_matches_iff filter_admits_def filter_default_def unsubscribe_def active_def
      subscription_set_new_def Let_def)

subsection \<open>\<^verbatim>\<open>src/routes/ws/queue.rs\<close>\<close>

definition queue_event :: "time \<Rightarrow> uuid \<Rightarrow> event" where
  "queue_event now sid = ChunkUploaded now
     \<lparr>cu_session_id = sid, cu_guild_id = 1, cu_pseudo_id = PseudoId ''0123456789abcdef01234567'',
      cu_seq = 0, cu_size_bytes = 1\<rparr>"

definition drops_oldest_on_overflow :: "event \<Rightarrow> event \<Rightarrow> event \<Rightarrow> bool" where
  "drops_oldest_on_overflow x y z =
     (let (a, q) = queue_push x (queue_new 2); (b, q) = queue_push y q; (c, q) = queue_push z q in
      \<not> a \<and> \<not> b \<and> c \<and> queue_len q = 2 \<and> queue_dropped q = 1)"

definition zero_cap_coerces_to_one :: "event \<Rightarrow> bool" where
  "zero_cap_coerces_to_one x = (let (a, q) = queue_push x (queue_new 0) in queue_len q = 1)"

lemma queue_tests:
  "drops_oldest_on_overflow (queue_event t i) (queue_event t' i') (queue_event t'' i'')" "zero_cap_coerces_to_one (queue_event t i)"
  by (simp_all add: drops_oldest_on_overflow_def zero_cap_coerces_to_one_def queue_push_def
      queue_new_def queue_len_def queue_dropped_def saturating_inc_def)

subsection \<open>\<^verbatim>\<open>src/db/metadata.rs\<close>\<close>

definition shallow_merge_replaces_top_level_keys_only :: bool where
  "shallow_merge_replaces_top_level_keys_only \<longleftrightarrow>
     (let base = JObj [(''a'', JInt 1), (''b'', JObj [(''x'', JInt 1)])];
          patch = JObj [(''b'', JObj [(''y'', JInt 2)]), (''c'', JInt 3)] in
      merge_shallow base patch =
        Inr (JObj [(''a'', JInt 1), (''b'', JObj [(''y'', JInt 2)]), (''c'', JInt 3)]))"

definition shallow_merge_rejects_non_object_patch :: bool where
  "shallow_merge_rejects_non_object_patch \<longleftrightarrow>
     (let base = JObj []; patch = JArr [JInt 1, JInt 2, JInt 3] in is_err (merge_shallow base patch))"

lemma metadata_tests:
  shallow_merge_replaces_top_level_keys_only shallow_merge_rejects_non_object_patch
  by code_simp+

end
