(* ===== verification/Spec2Isabelle.thy ===== *)
theory Spec2Isabelle
  imports Prelude Ids Session_State Json Errors Events Schema Db_Audit Db_Users Db_Sessions
    Db_Participants Db_Chunks Db_Metadata Db_Uniform Db_Mute Db_Service Db_Consent Metrics
    Object_Store Http Tokens World Chunk_Key Db_Invariants Samples Versioned Routes_Sessions
    Routes_Chunks Routes_Uniform Routes_Participants Routes_Auth Config Ws_Filter Ws_Queue
    Ws_Session Frames Core_Invariant Handler_Relations Side_Handlers Transactions Flights Service Router
    Startup
    Session_Properties Chunk_Properties Uniform_Properties Speaker_Properties Auth_Properties
    Ws_Properties Ws_Polling Upload_Races Document_Races Bulk_Races Wipe_Races Request_Bodies
    Body_Properties Service_Properties Status_Tracking Audit_Trail Audio_Handlers Audio_Archive
    Chunk_Bounds Unit_Tests
begin

text \<open>
  \<^bold>\<open>A model of the Chronicle data API\<close>

  The program is an HTTP service in Rust between recording bots and their storage: it keeps
  sessions, participants, audio chunks and annotations in Postgres, the audio itself in an object
  store, announces changes on an event bus that WebSocket clients subscribe to, and writes an audit
  log. This development models the implementation under \<^verbatim>\<open>src/src\<close> (and the constraints of
  \<^verbatim>\<open>src/migrations\<close>), one theory per source file or per group of small ones, in the order in
  which the code builds on itself.

  \<^bold>\<open>How state and effects are represented.\<close> A database is a record with one row list per table
  (\<open>Schema\<close>); \<open>db_wf\<close> collects the keys, foreign keys and checks the schema declares. A statement
  or transaction is a function from a database to an error or a result with the new database
  (\<open>tx\<close> in \<open>Prelude\<close>): an error rolls back. A handler runs on a \<open>world\<close> (database, objects, events
  sent, metrics) and keeps the effects that precede an error (\<open>handler\<close>). Errors are the
  constructors of \<^verbatim>\<open>AppError\<close>; integers of the code keep their width where the code can reach
  its end (\<open>64 word\<close> counters and windows, \<open>in_int4\<close> and \<open>in_int8\<close> for columns). Times are
  microseconds, in the socket's loop nanoseconds. What a request draws from outside (clocks, ids,
  tags, the database's time of each transaction) is the record \<open>env\<close>.

  \<^bold>\<open>Theories and what they model.\<close>
  \<^item> \<open>Prelude\<close>, \<open>Ordered_Map\<close>: results, transactions, handlers, tables; rules that keep predicates
    (\<open>pres_intros\<close>) and rules that run programs (\<open>bind_simps\<close>).
  \<^item> \<open>Ids\<close> (\<^verbatim>\<open>ids.rs\<close>), \<open>Session_State\<close> (\<^verbatim>\<open>state.rs\<close>), \<open>Json\<close>, \<open>Errors\<close> (\<^verbatim>\<open>error.rs\<close>), \<open>Events\<close>
    (\<^verbatim>\<open>events.rs\<close>), \<open>Metrics\<close> (\<^verbatim>\<open>metrics.rs\<close>), \<open>Config\<close> (\<^verbatim>\<open>config.rs\<close>), \<open>Tokens\<close> (\<^verbatim>\<open>auth/token.rs\<close>),
    \<open>Http\<close> (header, body and number parsing).
  \<^item> \<open>Object_Store\<close> (\<^verbatim>\<open>storage/\<close>): the trait as a record of operations, its contract as the locale
    \<open>object_store\<close>, the in-memory store (which interprets it) and the adapter over an S3 bucket
    (which satisfies it for every bucket that behaves as S3 documents).
  \<^item> \<open>Schema\<close> and the \<open>Db_\<close> theories (\<^verbatim>\<open>db/*.rs\<close>, one each): the queries; \<open>Db_Invariants\<close>: what the
    code keeps beyond the schema.
  \<^item> \<open>World\<close>, \<open>Chunk_Key\<close> and the \<open>Routes_\<close> theories (\<^verbatim>\<open>routes/*.rs\<close>, \<^verbatim>\<open>auth/\<close>): the handlers.
  \<^item> \<open>Request_Bodies\<close>: how the structs of \<^verbatim>\<open>routes/*.rs\<close> and \<^verbatim>\<open>db/*.rs\<close> that derive
    \<^verbatim>\<open>Deserialize\<close> are read from the members of a JSON object.
  \<^item> \<open>Ws_Filter\<close>, \<open>Ws_Queue\<close>, \<open>Ws_Session\<close> (\<^verbatim>\<open>routes/ws/\<close>): subscriptions, the drop-oldest queue
    (locale \<open>bounded_queue\<close>), and the connection's loop over a list of inputs.
  \<^item> \<open>Frames\<close>, \<open>Handler_Relations\<close>, \<open>Side_Handlers\<close>, \<open>Audio_Handlers\<close>: what operations and handlers
    leave alone. A relation between databases (locale \<open>db_frame\<close>) or between the worlds before and
    after (locale \<open>world_relation\<close> and those that extend it) holds of every operation or handler
    built from parts it holds of; \<open>side_relation\<close> covers at once the routes that touch neither
    sessions nor audio, \<open>chunk_relation\<close> all requests that have nothing to do with audio. Used for
    transactions, audit entries, quiet routes, status events, stored audio and its bounds.
  \<^item> \<open>Core_Invariant\<close>, \<open>Transactions\<close>: the contract of an invariant on the tables, and the step
    relation \<open>tx_step\<close> with one rule per transaction the handlers commit; \<open>tx_run\<close> is any sequence
    of them. \<open>Flights\<close>: the same with every upload in two steps, its insert and its commit, and
    other transactions in between (\<open>flight_run\<close>).
  \<^item> \<open>Service\<close>, \<open>Router\<close>, \<open>Startup\<close> (\<^verbatim>\<open>routes/mod.rs\<close>, \<^verbatim>\<open>main.rs\<close>, \<^verbatim>\<open>db/pool.rs\<close>): the
    middleware in front of the handlers, one request or reaper tick as the step \<open>service_step\<close>
    (which only commits transactions of \<open>tx_run\<close>), the routing tables, and the start of the process.
  \<^item> \<open>Unit_Tests\<close>: the \<^verbatim>\<open>#[test]\<close> functions of \<^verbatim>\<open>src/src\<close> over the model; all of them hold.

  \<^bold>\<open>What is shown.\<close>
  \<^item> Of every state that transactions reach from a started service, in any order: the schema's
    constraints and the code's own invariants, also while uploads are in flight (\<open>Startup\<close>), the
    history of a session along the state machine (\<open>Service_Properties\<close>), a log that only grows
    (\<open>Audit_Trail\<close>). The locale \<open>core_invariant\<close> is the contract by which a predicate on sessions,
    log and chunks is kept by every \<open>tx_step\<close>; its instances are numbers without gaps (\<open>plain\<close>, which
    gives \<open>service_inv\<close>), numbers that grow (\<open>rising\<close>) and the history of a session.
  \<^item> Of every request: it changes the database by transactions of \<open>tx_run\<close> only, has no effect
    without a live token, fails opaquely (\<open>Service_Properties\<close>; the metrics and the socket's
    handshake, which answer plain text, are included there one by one), changes nothing it has to account
    for without an audit entry by the right actor (\<open>Audit_Trail\<close>), and reaches its handler behind
    the right protection (\<open>Router\<close>).
  \<^item> Of the routes, the chunks table and the object store together: they implement an archive that
    is nothing but a list of recordings for every session and speaker (\<open>Audio_Archive\<close>). The
    specification \<open>archive_answer\<close> says what each request may answer and do, \<open>archive_of\<close> reads the
    abstract state off the rows and objects, and every request of the service keeps to it, those that
    fail included; so every row has its object, and audio comes back as it was sent. All of this needs
    the clients to give each session a storage prefix of its own (\<open>own_prefixes\<close>): the prefix is
    theirs to choose and the service does not check it, and two sessions with one prefix share their
    objects. And it is about requests one after another. \<open>Chunk_Bounds\<close> adds the ranges of every
    stored row.
  \<^item> Of the bus and the connections together: a client that follows the
    \<^verbatim>\<open>session_state_changed\<close> events of its WebSocket connection knows the status of a session, as
    long as requests come one after another; two concurrent changes can be announced in the wrong
    order (\<open>Status_Tracking\<close>).
  \<^item> Of single endpoints, in the \<open>_Properties\<close> theories: uploads (idempotent, gapless numbers, read
    back as sent, undone on failure), the session life cycle, cascading deletes and wipes, tagged
    documents, bulk creates, consent tokens, admin grants, service tokens, what the bodies of patches
    can say, and the stream a WebSocket client receives.
  \<^item> Of handlers that race, statement by statement: uploads (\<open>Upload_Races\<close>), patches of the metadata
    blob and of rows (\<open>Versioned\<close> and \<open>Document_Races\<close>: the locale \<open>locked_document\<close> serialises them,
    \<open>tagged_document\<close> lets one tag win once, and racing merges of a blob refine the specification
    \<open>merge_spec\<close> of a document that is patched by one at a time), bulk creates (\<open>Bulk_Races\<close>), and
    uploads during a wipe (\<open>Wipe_Races\<close>): one in flight when the wipe commits is kept, one between the
    commit and the sweep of the objects loses its object to the sweep.
  \<^item> Each property with hypotheses is followed by a witness that applies it to sample data
    (\<open>Samples\<close>).

  \<^bold>\<open>Bounds.\<close> No definition uses fuel: loops of the code run over finite inputs and are
  structural recursions. The loop of a connection runs over the list of what the select statement
  yields, so its properties are about every finite run; \<open>Ws_Polling\<close> makes the biased choice of
  the branch explicit and shows that the loop ends when the peer falls silent.

  \<^bold>\<open>Interleaving.\<close> A transaction is atomic in the model: the code serialises conflicting ones by row
  locks (\<^verbatim>\<open>FOR UPDATE\<close>) and unique keys, and a lost race on a unique key is a database error here
  as there. The properties stated over \<open>tx_run\<close> hold for every interleaving of the transactions of
  any requests and reaper ticks. The properties of a single endpoint, its answer and its effect,
  are about a request that runs alone. Where a handler reads and later writes what it has read, its
  transaction is split at the read, and any number of such handlers interleave with each other and
  with other transactions: an upload reads before it takes its lock (\<open>Upload_Races\<close>), a bulk create
  takes none (\<open>Bulk_Races\<close>), and a patch locks the row it reads (\<open>Document_Races\<close>), which shows that
  treating it as atomic is right, except for the first patch of a blob: there is no row to lock, and
  of two of them one can be lost (\<open>first_merges_lost\<close>). A transaction that inserts rows is taken to
  do so at its commit: the unique keys make a later one wait for an earlier one to end.
  An upload is a single step of \<open>tx_step\<close>, but the code keeps its transaction open while the object
  is put, and a wipe takes no lock on the session, so one can commit in between. \<open>Flights\<close> therefore
  lets any number of uploads be between their insert and their commit; what the lock on the session's
  row keeps out meanwhile is \<open>respects_lock\<close>. Everything in \<open>base_inv\<close> holds in all these runs, and the
  numbers of a stream grow in all of them; that they have no gap (\<open>service_inv\<close>) holds in the calm runs,
  in which no wipe hits a stream with an upload in flight. The upload that is hit survives with
  the number as it was computed (\<open>upload_survives_wipe\<close>). The properties that assume \<open>service_inv\<close> are
  about states of calm runs. Other interleavings of statements inside two transactions are not
  enumerated.
  The listings that the code orders by start time only (\<^verbatim>\<open>ORDER BY started_at\<close>) keep the order of
  insertion among equal times, where Postgres promises none.

  \<^bold>\<open>Not modelled.\<close> The web framework (decoding of paths and queries, JSON text, percent-decoding,
  panics and tracing layers), the SQL engine beyond the statements used, Postgres' text limits and
  index structures, log lines, the TLS and socket layers, the text format of floating-point numbers in
  the metrics, and the rounding of the floating-point product in \<^verbatim>\<open>observe\<close>. Crates the code
  calls are parameters (\<^verbatim>\<open>hex\<close>, \<^verbatim>\<open>sha2\<close>, \<^verbatim>\<open>chrono\<close>'s RFC 3339 parser, the \<^verbatim>\<open>s3\<close> bucket), with what they
  document as hypotheses where a property needs it.
\<close>

end
